(* ===== verification/Prelude.thy ===== *)
theory Prelude
  imports Main "HOL-Library.Word"
begin

text \<open>
  Shared vocabulary of the development: Go's fixed-width integers, byte slices, instants and
  durations, and the generic lemmas on lists, maps and runs that the component theories use.

  Go integers are modelled in two ways.  Values on which the code works bitwise or whose unsigned
  wrap-around matters (bytes, checksums, lengths on the wire, unsigned counters) are words of their
  width.  Signed integers are HOL integers, with the two's complement wrap-around of the Go
  operation written out by \<open>wrap32\<close> and \<open>wrap64\<close>.

  A Go \<open>time.Time\<close> is the number of nanoseconds since the zero \<open>Time\<close> (so \<open>IsZero\<close> is equality with
  \<open>0\<close>), a \<open>time.Duration\<close> is a signed 64-bit number of nanoseconds.
\<close>

named_theorems go_defs \<open>definitions of the operations, for proofs that split every branch\<close>
named_theorems inv_intros \<open>every operation keeps the invariant of its component\<close>

type_synonym u8 = "8 word"
type_synonym u16 = "16 word"
type_synonym u32 = "32 word"
type_synonym u64 = "64 word"
type_synonym bytes = "u8 list"
type_synonym time = int
type_synonym duration = int

text \<open>The outcome of a call that may panic.\<close>

datatype 'a outcome = Ret 'a | Panic

section \<open>Signed integers\<close>

definition wrap32 :: "int \<Rightarrow> int" where
  "wrap32 x = (x + 2 ^ 31) mod 2 ^ 32 - 2 ^ 31"

definition wrap64 :: "int \<Rightarrow> int" where
  "wrap64 x = (x + 2 ^ 63) mod 2 ^ 64 - 2 ^ 63"

definition in_i32 :: "int \<Rightarrow> bool" where
  "in_i32 x \<longleftrightarrow> - (2 ^ 31) \<le> x \<and> x < 2 ^ 31"

definition in_i64 :: "int \<Rightarrow> bool" where
  "in_i64 x \<longleftrightarrow> - (2 ^ 63) \<le> x \<and> x < 2 ^ 63"

lemma wrap32_id [simp]: "in_i32 x \<Longrightarrow> wrap32 x = x"
  by (simp add: wrap32_def in_i32_def)

lemma wrap64_id [simp]: "in_i64 x \<Longrightarrow> wrap64 x = x"
  by (simp add: wrap64_def in_i64_def)

lemma in_i32_wrap32 [simp]: "in_i32 (wrap32 x)"
proof -
  have "0 \<le> (x + 2 ^ 31) mod 2 ^ 32" "(x + 2 ^ 31) mod 2 ^ 32 < 2 ^ 32"
    by (rule pos_mod_sign pos_mod_bound; simp)+
  then show ?thesis by (simp add: wrap32_def in_i32_def)
qed

lemma in_i64_wrap64 [simp]: "in_i64 (wrap64 x)"
proof -
  have "0 \<le> (x + 2 ^ 63) mod 2 ^ 64" "(x + 2 ^ 63) mod 2 ^ 64 < 2 ^ 64"
    by (rule pos_mod_sign pos_mod_bound; simp)+
  then show ?thesis by (simp add: wrap64_def in_i64_def)
qed

text \<open>Go's integer division truncates towards zero.\<close>

definition go_div :: "int \<Rightarrow> int \<Rightarrow> int" where
  "go_div a b = sgn a * sgn b * (\<bar>a\<bar> div \<bar>b\<bar>)"

lemma go_div_nonneg [simp]: "0 \<le> a \<Longrightarrow> 0 < b \<Longrightarrow> go_div a b = a div b"
  by (cases "a = 0") (simp_all add: go_div_def sgn_if)

section \<open>Instants and durations\<close>

definition millisecond :: duration where "millisecond = 1000000"
definition second :: duration where "second = 1000000000"
definition minute :: duration where "minute = 60000000000"
definition hour :: duration where "hour = 3600000000000"

lemmas duration_defs = millisecond_def second_def minute_def hour_def

text \<open>
  \<open>t.Sub(u)\<close> saturates at the ends of the 64-bit range; \<open>t.Add(d)\<close> does not wrap on the instants
  that occur; \<open>d * k\<close> on durations wraps.  The Unix epoch lies 62135596800 seconds after the zero
  \<open>Time\<close>, and \<open>UnixMilli\<close> rounds down.
\<close>

definition time_sub :: "time \<Rightarrow> time \<Rightarrow> duration" where
  "time_sub t u = max (- (2 ^ 63)) (min (2 ^ 63 - 1) (t - u))"

definition unix_epoch :: time where
  "unix_epoch = 62135596800 * 1000000000"

definition unix_milli :: "time \<Rightarrow> int" where
  "unix_milli t = (t - unix_epoch) div 1000000"

lemma time_sub_id [simp]: "in_i64 (t - u) \<Longrightarrow> time_sub t u = t - u"
  by (auto simp: time_sub_def in_i64_def)

lemma time_sub_gt: "d < 2 ^ 63 - 1 \<Longrightarrow> - (2 ^ 63) \<le> d \<Longrightarrow> d < time_sub t u \<longleftrightarrow> d < t - u"
  by (auto simp: time_sub_def)

lemma time_sub_less: "d \<le> 2 ^ 63 - 1 \<Longrightarrow> - (2 ^ 63) < d \<Longrightarrow> time_sub t u < d \<longleftrightarrow> t - u < d"
  by (auto simp: time_sub_def)

end
