(* ===== verification/Float64.thy ===== *)
theory Float64
  imports Complex_Main
begin

text \<open>
  Go's \<open>float64\<close> as the code compares it: a finite value is the rational number it denotes, and the
  two infinities and NaN are separate.  Comparisons follow IEEE 754: every ordered comparison with
  NaN is false, and NaN differs from everything, itself included.  A Go constant such as \<open>0.0001\<close> is
  the binary64 number nearest to it, written out as a fraction.
\<close>

datatype f64 = Fin rat | PInf | NInf | NaN

fun f64_lt :: "f64 \<Rightarrow> f64 \<Rightarrow> bool" where
  "f64_lt (Fin a) (Fin b) = (a < b)"
| "f64_lt NInf (Fin b) = True"
| "f64_lt NInf PInf = True"
| "f64_lt (Fin a) PInf = True"
| "f64_lt _ _ = False"

abbreviation f64_gt :: "f64 \<Rightarrow> f64 \<Rightarrow> bool" where
  "f64_gt a b \<equiv> f64_lt b a"

fun f64_eq :: "f64 \<Rightarrow> f64 \<Rightarrow> bool" where
  "f64_eq (Fin a) (Fin b) = (a = b)"
| "f64_eq PInf PInf = True"
| "f64_eq NInf NInf = True"
| "f64_eq _ _ = False"

definition finite_between :: "rat \<Rightarrow> rat \<Rightarrow> f64 \<Rightarrow> bool" where
  "finite_between lo hi x \<longleftrightarrow> (case x of Fin r \<Rightarrow> lo \<le> r \<and> r \<le> hi | _ \<Rightarrow> False)"

lemma in_range_iff:
  "\<not> (f64_lt x (Fin lo) \<or> f64_gt x (Fin hi)) \<longleftrightarrow> x = NaN \<or> finite_between lo hi x"
  by (cases x) (auto simp: finite_between_def)

lemma f64_lt_NaN [simp]: "\<not> f64_lt NaN x" "\<not> f64_lt x NaN"
  by (cases x; simp)+

end
