(* ===== verification/GoErrors.thy ===== *)
theory GoErrors
  imports Prelude Float64
begin

text \<open>
  Go error values and the part of \<open>fmt\<close> and \<open>errors\<close> that the server uses on them.

  Every sentinel declared with \<open>errors.New\<close> in \<open>internal/protocol\<close>, \<open>internal/auth\<close> and
  \<open>internal/server\<close> is a value of \<open>sentinel\<close> (the error \<open>E s\<close>); sentinels of the two packages that share a name are
  told apart by the prefix \<open>Auth_\<close>.  \<open>ExternalError t\<close> is an error made by third-party code.  \<open>Wrapf p e\<close> is \<open>fmt.Errorf("p: %w", e)\<close>, \<open>Errorf t\<close> is
  \<open>fmt.Errorf\<close> without a \<open>%w\<close> verb and with rendered text \<open>t\<close>, and \<open>ValidationError\<close> is the struct
  of \<open>validation.go\<close>.  \<open>errors_is\<close> and \<open>errors_as_validation\<close> walk the \<open>Unwrap\<close> chain as
  \<open>errors.Is\<close> and \<open>errors.As\<close> do.
\<close>

section \<open>Rendering numbers\<close>

definition digit_char :: "nat \<Rightarrow> char" where
  "digit_char d = char_of (if d < 10 then 48 + d else 55 + d)"

fun show_nat :: "nat \<Rightarrow> string" where
  "show_nat n = (if n < 10 then [digit_char n] else show_nat (n div 10) @ [digit_char (n mod 10)])"

declare show_nat.simps [simp del]

definition show_int :: "int \<Rightarrow> string" where
  "show_int i = (if i < 0 then CHR ''-'' # show_nat (nat (- i)) else show_nat (nat i))"

definition hex2 :: "u8 \<Rightarrow> string" where
  "hex2 b = [digit_char (unat b div 16), digit_char (unat b mod 16)]"

section \<open>Error values\<close>

datatype fval = VInt int | VStr string | VFloat f64 | VMode int | VType u8

datatype sentinel =
    ErrInvalidMagic | ErrUnsupportedVersion | ErrInvalidChecksum | ErrMessageTooLarge
  | ErrAuthTimeout | ErrInvalidSubscription | ErrAlreadySubscribed | ErrRateLimited
  | ErrHeartbeatTimeout | ErrInvalidSequence | ErrInvalidMessageType | ErrIncompleteFrame
  | ErrValidation | ErrRequiredField | ErrInvalidFieldValue | ErrFieldTooLong | ErrInvalidEnum
  | ErrInvalidTimestamp | ErrTooManyEntries | ErrInvalidRange
  | ErrInvalidCredentials | ErrAuthRequired | ErrAlreadyAuthenticated | Auth_ErrAuthTimeout
  | Auth_ErrRateLimited | ErrFirstFrameMustBeAuth
  | ErrServerClosed | ErrMaxConnections
  | Io_EOF | Io_ErrUnexpectedEOF | Net_ErrClosed | Context_Canceled | Context_DeadlineExceeded

datatype go_error =
    E sentinel
  | ExternalError string
  | Errorf string
  | Wrapf string go_error
  | ValidationError string string "fval option" go_error

fun unwrap_error :: "go_error \<Rightarrow> go_error option" where
  "unwrap_error (Wrapf p e) = Some e"
| "unwrap_error (ValidationError f m v e) = Some e"
| "unwrap_error _ = None"

fun errors_is :: "go_error \<Rightarrow> go_error \<Rightarrow> bool" where
  "errors_is (Wrapf p e) t = (Wrapf p e = t \<or> errors_is e t)"
| "errors_is (ValidationError f m v e) t = (ValidationError f m v e = t \<or> errors_is e t)"
| "errors_is e t = (e = t)"

fun errors_as_validation :: "go_error \<Rightarrow> (string \<times> string \<times> fval option \<times> go_error) option" where
  "errors_as_validation (ValidationError f m v e) = Some (f, m, v, e)"
| "errors_as_validation (Wrapf p e) = errors_as_validation e"
| "errors_as_validation _ = None"

lemma errors_is_refl [simp]: "errors_is e e"
  by (cases e) simp_all

section \<open>Error texts\<close>

text \<open>
  \<open>err.Error()\<close>.  The renderings of \<open>%v\<close> for a \<open>float64\<close> and for the generated enum
  \<open>SubscriptionMode\<close> are parameters, collected in \<open>fmt_env\<close>.
\<close>

record fmt_env =
  fmt_float :: "f64 \<Rightarrow> string"
  mode_String :: "int \<Rightarrow> string"

fun fmt_v :: "fmt_env \<Rightarrow> fval \<Rightarrow> string" where
  "fmt_v fe (VInt i) = show_int i"
| "fmt_v fe (VStr s) = s"
| "fmt_v fe (VFloat x) = fmt_float fe x"
| "fmt_v fe (VMode m) = mode_String fe m"
| "fmt_v fe (VType t) = show_nat (unat t)"

definition quoted :: "string \<Rightarrow> string" where
  "quoted s = CHR 0x27 # s @ [CHR 0x27]"

definition validation_text :: "fmt_env \<Rightarrow> string \<Rightarrow> string \<Rightarrow> fval option \<Rightarrow> string" where
  "validation_text fe field msg value =
     ''validation failed for field '' @ quoted field @ '': '' @ msg @
     (case value of Some v \<Rightarrow> '' (value: '' @ fmt_v fe v @ '')'' | None \<Rightarrow> [])"

primrec sentinel_text :: "sentinel \<Rightarrow> string" where
  "sentinel_text ErrInvalidMagic = ''invalid magic bytes''"
| "sentinel_text ErrUnsupportedVersion = ''unsupported protocol version''"
| "sentinel_text ErrInvalidChecksum = ''invalid checksum''"
| "sentinel_text ErrMessageTooLarge = ''message too large''"
| "sentinel_text ErrAuthTimeout = ''authentication timeout''"
| "sentinel_text ErrInvalidSubscription = ''invalid subscription''"
| "sentinel_text ErrAlreadySubscribed = ''already subscribed''"
| "sentinel_text ErrRateLimited = ''rate limited''"
| "sentinel_text ErrHeartbeatTimeout = ''heartbeat timeout''"
| "sentinel_text ErrInvalidSequence = ''invalid message sequence''"
| "sentinel_text ErrInvalidMessageType = ''invalid message type''"
| "sentinel_text ErrIncompleteFrame = ''incomplete frame''"
| "sentinel_text ErrValidation = ''validation failed''"
| "sentinel_text ErrRequiredField = ''required field missing''"
| "sentinel_text ErrInvalidFieldValue = ''invalid field value''"
| "sentinel_text ErrFieldTooLong = ''field exceeds maximum length''"
| "sentinel_text ErrInvalidEnum = ''invalid enum value''"
| "sentinel_text ErrInvalidTimestamp = ''invalid timestamp''"
| "sentinel_text ErrTooManyEntries = ''too many entries''"
| "sentinel_text ErrInvalidRange = ''value out of valid range''"
| "sentinel_text ErrInvalidCredentials = ''invalid credentials''"
| "sentinel_text ErrAuthRequired = ''authentication required''"
| "sentinel_text ErrAlreadyAuthenticated = ''already authenticated''"
| "sentinel_text Auth_ErrAuthTimeout = ''authentication timeout''"
| "sentinel_text Auth_ErrRateLimited = ''rate limited''"
| "sentinel_text ErrFirstFrameMustBeAuth = ''first frame must be AUTH''"
| "sentinel_text ErrServerClosed = ''server closed''"
| "sentinel_text ErrMaxConnections = ''maximum connections reached''"
| "sentinel_text Io_EOF = ''EOF''"
| "sentinel_text Io_ErrUnexpectedEOF = ''unexpected EOF''"
| "sentinel_text Net_ErrClosed = ''use of closed network connection''"
| "sentinel_text Context_Canceled = ''context canceled''"
| "sentinel_text Context_DeadlineExceeded = ''context deadline exceeded''"

fun error_text :: "fmt_env \<Rightarrow> go_error \<Rightarrow> string" where
  "error_text fe (E s) = sentinel_text s"
| "error_text fe (ExternalError s) = s"
| "error_text fe (Errorf s) = s"
| "error_text fe (Wrapf p e) = p @ '': '' @ error_text fe e"
| "error_text fe (ValidationError f m v e) = validation_text fe f m v"

end
