(* ===== verification/NetIO.thy ===== *)
theory NetIO
  imports GoErrors
begin

text \<open>
  The byte streams under the framing layer: \<open>net.Conn\<close> as a source and as a sink, and the loop of
  \<open>io.ReadFull\<close>.

  An incoming stream is the list of segments the transport will deliver, followed by the error that
  every later read returns (\<open>io.EOF\<close> after an orderly close, a deadline or reset error otherwise).
  One \<open>Read\<close> returns at most one segment, so a \<open>ReadFull\<close> may take several reads.  An outgoing
  stream is the bytes sent so far and, when the connection has failed, the number of bytes the
  failing write still accepts and its error.

  The interfaces \<open>byte_source\<close> and \<open>byte_sink\<close> state what the framing layer relies on; the lemmas
  of \<open>Frame\<close> are proved from them, so they hold for every segmentation of the stream.
\<close>

section \<open>Reading\<close>

record net_in =
  segments :: "bytes list"
  read_end :: go_error

fun conn_read :: "nat \<Rightarrow> bytes list \<Rightarrow> (bytes \<times> bytes list) option" where
  "conn_read n [] = None"
| "conn_read n (c # cs) = Some (take n c, if length c \<le> n then cs else drop n c # cs)"

text \<open>The loop of \<open>io.ReadAtLeast(r, buf, len(buf))\<close>; \<open>got\<close> is the part of \<open>buf\<close> filled so far.\<close>

function read_loop :: "nat \<Rightarrow> bytes \<Rightarrow> bytes list \<Rightarrow> bytes \<times> bytes list" where
  "read_loop n got cs =
     (if length got < n then
        (case conn_read (n - length got) cs of
           None \<Rightarrow> (got, cs)
         | Some (b, cs') \<Rightarrow> read_loop n (got @ b) cs')
      else (got, cs))"
  by pat_completeness auto
termination
proof (relation "measure (\<lambda>(n, got, cs). (n - length got) + length cs)", goal_cases)
  case (2 n got cs x b cs')
  then show ?case by (cases cs) (auto split: if_splits)
qed simp

declare read_loop.simps [simp del]

definition ReadFull :: "nat \<Rightarrow> net_in \<Rightarrow> (go_error + bytes) \<times> net_in" where
  "ReadFull n s =
    (case read_loop n [] (segments s) of (got, cs) \<Rightarrow>
      (if n \<le> length got then Inr got
       else if got \<noteq> [] \<and> read_end s = E Io_EOF then Inl (E Io_ErrUnexpectedEOF)
       else Inl (read_end s),
       s\<lparr>segments := cs\<rparr>))"

definition pending :: "net_in \<Rightarrow> bytes" where
  "pending s = concat (segments s)"

lemma conn_read_concat:
  "conn_read n cs = Some (b, cs') \<Longrightarrow> concat cs = b @ concat cs' \<and> length b \<le> n"
  by (cases cs) auto

lemma read_loop_spec:
  assumes "length got \<le> n" and "read_loop n got cs = (r, cs')"
  shows "r @ concat cs' = got @ concat cs \<and> length r \<le> n \<and> (length r < n \<longrightarrow> cs' = [])"
  using assms
proof (induction n got cs rule: read_loop.induct)
  case (1 n got cs)
  show ?case
  proof (cases "length got < n")
    case False
    then show ?thesis using "1.prems" by (auto simp: read_loop.simps [of n got cs])
  next
    case True
    show ?thesis
    proof (cases "conn_read (n - length got) cs")
      case None
      then have "cs = []" by (cases cs) auto
      with True None "1.prems" show ?thesis by (auto simp: read_loop.simps [of n got "[]"])
    next
      case (Some p)
      obtain b ds where p: "p = (b, ds)" by force
      have b: "concat cs = b @ concat ds" "length b \<le> n - length got"
        using conn_read_concat Some p by blast+
      have "read_loop n (got @ b) ds = (r, cs')"
        using "1.prems"(2) True Some p by (simp add: read_loop.simps [of n got cs])
      then have "r @ concat cs' = (got @ b) @ concat ds \<and> length r \<le> n \<and> (length r < n \<longrightarrow> cs' = [])"
        using True Some p b(2) by (intro "1.IH") auto
      then show ?thesis using b(1) by simp
    qed
  qed
qed

lemma ReadFull_spec:
  "\<exists>s'. ReadFull n s =
     (if n \<le> length (pending s) then Inr (take n (pending s))
      else Inl (if pending s \<noteq> [] \<and> read_end s = E Io_EOF then E Io_ErrUnexpectedEOF else read_end s), s') \<and>
     pending s' = drop n (pending s) \<and> read_end s' = read_end s"
proof -
  obtain r cs where l: "read_loop n [] (segments s) = (r, cs)" by force
  from read_loop_spec [OF _ this]
  have eq: "pending s = r @ concat cs" and len: "length r \<le> n" and short: "length r < n \<longrightarrow> cs = []"
    by (auto simp: pending_def)
  show ?thesis
  proof (cases "length r = n")
    case True
    then show ?thesis using l eq by (auto simp: ReadFull_def pending_def)
  next
    case False
    with len short have "cs = []" "length r < n" by auto
    then show ?thesis using l eq by (auto simp: ReadFull_def pending_def)
  qed
qed

section \<open>Writing\<close>

record net_out =
  sent :: bytes
  write_fail :: "(nat \<times> go_error) option"

definition conn_write :: "bytes \<Rightarrow> net_out \<Rightarrow> go_error option \<times> net_out" where
  "conn_write d w = (case write_fail w of
      None \<Rightarrow> (None, w\<lparr>sent := sent w @ d\<rparr>)
    | Some (k, e) \<Rightarrow> (Some e, w\<lparr>sent := sent w @ take k d\<rparr>))"

section \<open>Interfaces\<close>

text \<open>\<open>take_all n s\<close> is \<open>io.ReadFull\<close> into a buffer of \<open>n\<close> bytes.\<close>

locale byte_source =
  fixes take_all :: "nat \<Rightarrow> 's \<Rightarrow> (go_error + bytes) \<times> 's" and rest :: "'s \<Rightarrow> bytes"
  assumes take_enough: "n \<le> length (rest s) \<Longrightarrow>
      \<exists>s'. take_all n s = (Inr (take n (rest s)), s') \<and> rest s' = drop n (rest s)"
    and take_short: "length (rest s) < n \<Longrightarrow>
      \<exists>e s'. take_all n s = (Inl e, s') \<and> rest s' = []"
begin

lemma take_all_Inr:
  "take_all n s = (Inr b, s') \<longleftrightarrow>
     n \<le> length (rest s) \<and> b = take n (rest s) \<and> s' = snd (take_all n s)"
  using take_enough [of n s] take_short [of s n] by (cases "n \<le> length (rest s)") auto

lemma rest_after: "rest (snd (take_all n s)) = drop n (rest s)"
  using take_enough [of n s] take_short [of s n] by (cases "n \<le> length (rest s)") auto

end

locale byte_sink =
  fixes put :: "bytes \<Rightarrow> 'w \<Rightarrow> go_error option \<times> 'w" and out :: "'w \<Rightarrow> bytes"
  assumes put_ok: "put d w = (None, w') \<Longrightarrow> out w' = out w @ d"
    and put_prefix: "put d w = (Some e, w') \<Longrightarrow> \<exists>k. out w' = out w @ take k d"

interpretation tcp_in: byte_source ReadFull pending
proof
  fix n s
  assume "n \<le> length (pending s)"
  then show "\<exists>s'. ReadFull n s = (Inr (take n (pending s)), s') \<and> pending s' = drop n (pending s)"
    using ReadFull_spec [of n s] by auto
next
  fix s and n :: nat
  assume "length (pending s) < n"
  then show "\<exists>e s'. ReadFull n s = (Inl e, s') \<and> pending s' = []"
    using ReadFull_spec [of n s] by auto
qed

interpretation tcp_out: byte_sink conn_write sent
  by unfold_locales (auto simp: conn_write_def split: option.splits)

end
