(* ===== verification/Crc32c.thy ===== *)
theory Crc32c
  imports Prelude
begin

unbundle bit_operations_syntax

text \<open>
  The CRC-32C checksum of Go's \<open>hash/crc32\<close> package, as \<open>Frame.Marshal\<close>, \<open>Frame.Unmarshal\<close> and
  \<open>FrameReader.ReadFrame\<close> call it: \<open>crc32.Checksum(data, crc32.MakeTable(crc32.Castagnoli))\<close>.
  \<open>crc_table\<close> is the table \<open>MakeTable\<close> builds and \<open>crc_update\<close> the table-driven loop of
  \<open>Checksum\<close>.  \<open>crc_bits\<close> is the reference definition, one polynomial division step per message
  bit.  The theory shows that the two agree and that the checksum separates any two messages of
  the same length that differ in exactly one byte.
\<close>

definition castagnoli :: u32 where
  "castagnoli = 0x82F63B78"

definition crc_step :: "u32 \<Rightarrow> u32" where
  "crc_step c = (if odd c then drop_bit 1 c XOR castagnoli else drop_bit 1 c)"

definition crc_table :: "u8 \<Rightarrow> u32" where
  "crc_table i = (crc_step ^^ 8) (ucast i)"

definition crc_byte :: "u32 \<Rightarrow> u8 \<Rightarrow> u32" where
  "crc_byte c b = crc_table (ucast c XOR b) XOR drop_bit 8 c"

definition crc_update :: "u32 \<Rightarrow> bytes \<Rightarrow> u32" where
  "crc_update c bs = NOT (foldl crc_byte (NOT c) bs)"

definition crc32c :: "bytes \<Rightarrow> u32" where
  "crc32c bs = crc_update 0 bs"

section \<open>The bit-serial reference\<close>

definition crc_bits :: "u32 \<Rightarrow> u8 \<Rightarrow> u32" where
  "crc_bits c b = (crc_step ^^ 8) (c XOR ucast b)"

definition crc32c_ref :: "bytes \<Rightarrow> u32" where
  "crc32c_ref bs = NOT (foldl crc_bits (NOT 0) bs)"

lemma crc_step_xor: "crc_step (a XOR b) = crc_step a XOR crc_step b"
  by (auto simp: crc_step_def even_xor_iff drop_bit_xor ac_simps)

lemma crc_steps_xor: "(crc_step ^^ n) (a XOR b) = (crc_step ^^ n) a XOR (crc_step ^^ n) b"
  by (induction n) (simp_all add: crc_step_xor)

lemma crc_step_even: "\<not> bit c 0 \<Longrightarrow> crc_step c = drop_bit 1 c"
  by (simp add: crc_step_def bit_0)

lemma crc_steps_shift:
  "(\<And>i. i < n \<Longrightarrow> \<not> bit c i) \<Longrightarrow> (crc_step ^^ n) c = drop_bit n c"
proof (induction n arbitrary: c)
  case 0
  then show ?case by simp
next
  case (Suc n)
  have "(crc_step ^^ Suc n) c = (crc_step ^^ n) (drop_bit 1 c)"
    using Suc.prems by (simp add: funpow_swap1 crc_step_even)
  also have "\<dots> = drop_bit n (drop_bit 1 c)"
    using Suc.prems by (intro Suc.IH) (simp add: bit_drop_bit_eq)
  finally show ?case by (simp add: drop_bit_drop_bit)
qed

lemma split_low_byte:
  fixes c :: u32
  shows "c XOR ucast (b :: u8) = ucast (ucast c XOR b :: u8) XOR push_bit 8 (drop_bit 8 c)"
  by (rule bit_word_eqI) (auto simp: bit_simps)

lemma crc_byte_eq_bits: "crc_byte c b = crc_bits c b"
proof -
  have "(crc_step ^^ 8) (push_bit 8 (drop_bit 8 c)) = drop_bit 8 (push_bit 8 (drop_bit 8 c))"
    by (rule crc_steps_shift) (simp add: bit_push_bit_iff)
  also have "\<dots> = drop_bit 8 c"
    by (rule bit_word_eqI) (auto simp: bit_simps dest: bit_imp_le_length)
  finally show ?thesis
    by (simp add: crc_byte_def crc_bits_def crc_table_def split_low_byte crc_steps_xor)
qed

lemma crc32c_eq_ref: "crc32c bs = crc32c_ref bs"
proof -
  have "crc_byte = crc_bits" by (intro ext) (rule crc_byte_eq_bits)
  then show ?thesis by (simp add: crc32c_def crc_update_def crc32c_ref_def)
qed

section \<open>Separation of messages\<close>

lemma castagnoli_top: "bit castagnoli 31"
  by (simp add: castagnoli_def)

lemma crc_step_bit31: "bit (crc_step c) 31 \<longleftrightarrow> odd c"
  using castagnoli_top by (auto simp: crc_step_def bit_simps dest: bit_imp_le_length)

lemma xor_right_cancel: "(a :: u32) XOR c = b XOR c \<Longrightarrow> a = b"
proof -
  assume "a XOR c = b XOR c"
  then have "(a XOR c) XOR c = (b XOR c) XOR c" by simp
  then show "a = b" by (simp only: xor.assoc xor_self_eq xor.right_neutral)
qed

lemma crc_step_inj: "crc_step a = crc_step b \<Longrightarrow> a = b"
proof -
  assume eq: "crc_step a = crc_step b"
  then have par: "odd a \<longleftrightarrow> odd b" by (metis crc_step_bit31)
  with eq have "drop_bit 1 a = drop_bit 1 b"
    by (auto simp: crc_step_def split: if_splits dest: xor_right_cancel)
  then have "bit a (Suc i) = bit b (Suc i)" for i
    by (metis bit_drop_bit_eq comp_apply plus_1_eq_Suc)
  then show "a = b"
    by (intro bit_word_eqI) (metis bit_0 not0_implies_Suc par)
qed

lemma crc_steps_inj: "(crc_step ^^ n) a = (crc_step ^^ n) b \<Longrightarrow> a = b"
  by (induction n) (auto dest: crc_step_inj)

lemma crc_steps_0: "(crc_step ^^ n) 0 = 0"
  by (induction n) (simp_all add: crc_step_def)

text \<open>
  The little-endian value of a block of at most four bytes.  Feeding such a block to the register is
  the same as adding its value to the register first and then dividing.
\<close>

fun le_word :: "bytes \<Rightarrow> u32" where
  "le_word [] = 0"
| "le_word (b # bs) = ucast b XOR push_bit 8 (le_word bs)"

lemma le_word_snoc: "le_word (bs @ [b]) = le_word bs XOR push_bit (8 * length bs) (ucast b)"
  by (induction bs) (simp_all add: push_bit_xor push_bit_push_bit ac_simps)

lemma crc_steps_push_byte:
  "n + 8 \<le> 32 \<Longrightarrow> (crc_step ^^ n) (push_bit n (ucast (b :: u8))) = ucast b"
proof -
  assume n: "n + 8 \<le> 32"
  have "(crc_step ^^ n) (push_bit n (ucast b)) = drop_bit n (push_bit n (ucast b :: u32))"
    by (rule crc_steps_shift) (simp add: bit_push_bit_iff)
  also have "\<dots> = ucast b"
    using n by (intro bit_word_eqI) (auto simp: bit_simps dest: bit_imp_le_length)
  finally show ?thesis .
qed

lemma foldl_crc_bits_block:
  "length bs \<le> 4 \<Longrightarrow> foldl crc_bits c bs = (crc_step ^^ (8 * length bs)) (c XOR le_word bs)"
proof (induction bs rule: rev_induct)
  case Nil
  then show ?case by simp
next
  case (snoc b bs)
  let ?n = "8 * length bs"
  have n: "?n + 8 \<le> 32" using snoc.prems by simp
  have "foldl crc_bits c (bs @ [b]) = (crc_step ^^ 8) ((crc_step ^^ ?n) (c XOR le_word bs) XOR ucast b)"
    using snoc by (simp add: crc_bits_def [of _ b])
  also have "(crc_step ^^ ?n) (c XOR le_word bs) XOR ucast b =
      (crc_step ^^ ?n) ((c XOR le_word bs) XOR push_bit ?n (ucast b))"
    using n by (simp only: crc_steps_xor crc_steps_push_byte)
  also have "(crc_step ^^ 8) ((crc_step ^^ ?n) x) = (crc_step ^^ (8 * length (bs @ [b]))) x" for x
    by (simp add: funpow_add)
  finally show ?case
    by (simp only: le_word_snoc xor.assoc)
qed

lemma le_word_low: "bs \<noteq> [] \<Longrightarrow> ucast (le_word bs) = hd bs"
  by (cases bs) (auto intro!: bit_word_eqI simp: bit_simps)

lemma bit_le_word: "bit (le_word bs) n \<Longrightarrow> n < 8 * length bs"
proof (induction bs arbitrary: n)
  case (Cons b bs)
  then show ?case
    using bit_imp_le_length [of b n] by (fastforce simp: bit_simps)
qed simp

lemma le_word_high: "length bs < 4 \<Longrightarrow> drop_bit 8 (le_word (b # bs)) = le_word bs"
proof (rule bit_word_eqI)
  fix n
  assume "length bs < 4" "n < LENGTH(32)"
  then have "n < 24" if "bit (le_word bs) n" using that bit_le_word [of bs n] by simp
  then show "bit (drop_bit 8 (le_word (b # bs))) n = bit (le_word bs) n"
    by (auto simp: bit_simps dest: bit_imp_le_length)
qed

lemma le_word_inj:
  "length as = length bs \<Longrightarrow> length as \<le> 4 \<Longrightarrow> le_word as = le_word bs \<Longrightarrow> as = bs"
proof (induction as bs rule: list_induct2)
  case (Cons a as b bs)
  have "a = b" using Cons.prems le_word_low [of "a # as"] le_word_low [of "b # bs"]
    by (metis list.distinct(1) list.sel(1))
  moreover have "le_word as = le_word bs"
    using Cons.prems Cons.hyps le_word_high [of as a] le_word_high [of bs b]
    by (metis Suc_le_eq length_Cons)
  ultimately show ?case using Cons by simp
qed simp

lemma foldl_crc_bits_inj_state: "foldl crc_bits a bs = foldl crc_bits c bs \<Longrightarrow> a = c"
  by (induction bs arbitrary: a c)
     (auto simp: crc_bits_def dest!: crc_steps_inj dest: xor_right_cancel)

lemma foldl_crc_bits_inj_block:
  assumes "length as = length bs" "length as \<le> 4" "foldl crc_bits c as = foldl crc_bits c bs"
  shows "as = bs"
proof -
  from assms have "c XOR le_word as = c XOR le_word bs"
    by (auto simp: foldl_crc_bits_block dest: crc_steps_inj)
  then have "le_word as XOR c = le_word bs XOR c" by (simp only: xor.commute)
  then have "le_word as = le_word bs" by (rule xor_right_cancel)
  with assms show ?thesis by (intro le_word_inj)
qed

lemma crc32c_burst:
  assumes "length as = length bs" "length as \<le> 4" "crc32c (p @ as @ q) = crc32c (p @ bs @ q)"
  shows "as = bs"
proof -
  let ?c = "foldl crc_bits (NOT 0) p"
  have "foldl crc_bits (foldl crc_bits ?c as) q = foldl crc_bits (foldl crc_bits ?c bs) q"
    using assms(3) by (simp add: crc32c_eq_ref crc32c_ref_def)
  then have "foldl crc_bits ?c as = foldl crc_bits ?c bs" by (rule foldl_crc_bits_inj_state)
  with assms(1,2) show ?thesis by (rule foldl_crc_bits_inj_block)
qed

section \<open>The interface of a burst-detecting checksum\<close>

text \<open>
  What a client of the checksum relies on: replacing a window of at most \<open>width\<close> bytes by different
  bytes changes the sum.
\<close>

locale burst_checksum =
  fixes csum :: "bytes \<Rightarrow> u32" and width :: nat
  assumes burst: "length as = length bs \<Longrightarrow> length as \<le> width \<Longrightarrow>
      csum (p @ as @ q) = csum (p @ bs @ q) \<Longrightarrow> as = bs"
    and width_pos: "0 < width"
begin

lemma one_byte:
  assumes "i < length xs" "y \<noteq> xs ! i"
  shows "csum (xs[i := y]) \<noteq> csum xs"
proof
  assume "csum (xs[i := y]) = csum xs"
  then have "csum (take i xs @ [y] @ drop (Suc i) xs) = csum (take i xs @ [xs ! i] @ drop (Suc i) xs)"
    using assms(1) by (simp add: upd_conv_take_nth_drop id_take_nth_drop [symmetric])
  then have "[y] = [xs ! i]" using width_pos by (intro burst) auto
  with assms(2) show False by simp
qed

lemma window:
  assumes "length xs = length ys" "xs \<noteq> ys"
    and same: "\<And>j. j < length xs \<Longrightarrow> j < i \<or> i + width \<le> j \<Longrightarrow> xs ! j = ys ! j"
  shows "csum xs \<noteq> csum ys"
proof
  assume eq: "csum xs = csum ys"
  have p: "take i xs = take i ys"
    using assms(1) same by (intro nth_equalityI) auto
  have q: "drop (i + width) xs = drop (i + width) ys"
    using assms(1) same by (intro nth_equalityI) auto
  have split: "zs = take i zs @ take width (drop i zs) @ drop (i + width) zs" for zs :: bytes
    by (metis add.commute append_take_drop_id drop_drop)
  have "csum (take i xs @ take width (drop i xs) @ drop (i + width) xs) =
      csum (take i ys @ take width (drop i ys) @ drop (i + width) ys)"
    using eq by (simp flip: split)
  then have "csum (take i ys @ take width (drop i xs) @ drop (i + width) ys) =
      csum (take i ys @ take width (drop i ys) @ drop (i + width) ys)"
    by (simp only: p q)
  then have "take width (drop i xs) = take width (drop i ys)"
    using assms(1) by (intro burst) auto
  then have "xs = ys" by (subst split, subst (2) split) (simp only: p q)
  with assms(2) show False by simp
qed

end

interpretation crc: burst_checksum crc32c 4
  by unfold_locales (auto intro: crc32c_burst)

section \<open>Evaluation\<close>

text \<open>The same loop on integers, which the simplifier evaluates on concrete messages.\<close>

definition crc_step_int :: "int \<Rightarrow> int" where
  "crc_step_int c = (if c mod 2 = 1 then (c div 2) XOR 2197175160 else c div 2)"

lemma uint_crc_step: "uint (crc_step c) = crc_step_int (uint c)"
proof -
  have "uint (drop_bit 1 c) = uint c div 2" by (simp add: drop_bit_Suc uint_div)
  moreover have "odd c \<longleftrightarrow> uint c mod 2 = 1" 
    by (simp add: odd_iff_mod_2_eq_one [symmetric] bit_uint_iff flip: bit_0)
  moreover have "uint castagnoli = 2197175160" by (simp add: castagnoli_def)
  ultimately show ?thesis by (simp add: crc_step_def crc_step_int_def unsigned_xor_eq)
qed

lemma uint_crc_steps: "uint ((crc_step ^^ n) c) = (crc_step_int ^^ n) (uint c)"
  by (induction n) (simp_all add: uint_crc_step)

fun crc_int :: "int \<Rightarrow> u8 list \<Rightarrow> int" where
  "crc_int c [] = c"
| "crc_int c (b # bs) = crc_int ((crc_step_int ^^ 8) (c XOR uint b)) bs"

lemma uint_crc: "uint (foldl crc_bits c bs) = crc_int (uint c) bs"
  by (induction bs arbitrary: c) (simp_all add: crc_bits_def uint_crc_steps unsigned_xor_eq uint_up_ucast is_up)

lemma funpow_8: "(f ^^ 8) x = f (f (f (f (f (f (f (f x)))))))" by (simp add: numeral_eq_Suc)

lemma crc32c_int: "crc32c bs = word_of_int (4294967295 - crc_int 4294967295 bs)"
proof -
  have "crc32c bs = NOT (foldl crc_bits (NOT 0) bs)" by (simp add: crc32c_eq_ref crc32c_ref_def)
  also have "\<dots> = word_of_int (uint (NOT (foldl crc_bits (NOT 0) bs)))" by simp
  also have "uint (NOT w) = 4294967295 - uint w" for w :: u32
  proof -
    have "0 \<le> 4294967295 - uint w \<and> 4294967295 - uint w < 4294967296"
      using uint_bounded [of w, simplified] uint_ge_0 [of w] by linarith
    then have "(4294967295 - uint w) mod 4294967296 = 4294967295 - uint w"
      by (intro mod_pos_pos_trivial) auto
    moreover have "(- uint w mod 4294967296 - 1) mod 4294967296 = (4294967295 - uint w) mod 4294967296"
      by (simp only: mod_diff_left_eq) (simp add: mod_eq_dvd_iff)
    ultimately show ?thesis
      by (simp add: uint_word_ariths not_eq_complement)
  qed
  finally have eq: "crc32c bs = word_of_int (4294967295 - uint (foldl crc_bits (NOT 0) bs))" .
  have "uint (NOT 0 :: u32) = 4294967295"
    by (simp add: uint_word_ariths not_eq_complement)
  then show ?thesis unfolding eq uint_crc by (simp only:)
qed

lemmas crc_eval = crc32c_int crc_step_int_def funpow_8

lemma crc32c_check_value:
  "crc32c [0x31, 0x32, 0x33, 0x34, 0x35, 0x36, 0x37, 0x38, 0x39] = 0xE3069283"
  by (simp add: crc_eval)

end
