(* ===== verification/Version.thy ===== *)
theory Version
  imports GoErrors
begin

text \<open>
  \<open>internal/protocol/version.go\<close>: the table of protocol versions, the compatibility matrix, version
  validation and negotiation, and the usage counters.  The two package variables
  \<open>SupportedVersions\<close> and \<open>DefaultCompatibilityMatrix\<close> are constants of the model; the functions
  that read them are defined for an arbitrary table (suffix \<open>_in\<close>) and then at these constants.
\<close>

definition CurrentProtocolVersion :: u8 where "CurrentProtocolVersion = 0x01"
definition MinSupportedVersion :: u8 where "MinSupportedVersion = 0x01"
definition MaxSupportedVersion :: u8 where "MaxSupportedVersion = 0x01"

record VersionFeatures =
  Authentication :: bool
  SubscriptionF :: bool
  Heartbeat :: bool
  DataBatchF :: bool
  ErrorReporting :: bool
  CRC32Checksum :: bool
  InputValidation :: bool
  RateLimiting :: bool
  Compression :: bool
  TLS :: bool
  AsyncWrites :: bool
  ObjectPooling :: bool
  TCPOptimizations :: bool

record version =
  Number :: u8
  Name :: string
  ReleaseDate :: time
  Features :: VersionFeatures
  Deprecated :: bool
  EOL :: "time option"

type_synonym version_table = "u8 \<rightharpoonup> version"

definition day :: duration where "day = 86400000000000"

definition v1_features :: VersionFeatures where
  "v1_features = \<lparr> Authentication = True, SubscriptionF = True, Heartbeat = True, DataBatchF = True,
     ErrorReporting = True, CRC32Checksum = True, InputValidation = True, RateLimiting = True,
     Compression = False, TLS = False, AsyncWrites = True, ObjectPooling = True,
     TCPOptimizations = True \<rparr>"

definition v1 :: version where
  "v1 = \<lparr> Number = 0x01, Name = ''v1.0'', ReleaseDate = 738885 * day, Features = v1_features,
     Deprecated = False, EOL = None \<rparr>"

definition SupportedVersions :: version_table where
  "SupportedVersions = [0x01 \<mapsto> v1]"

record VersionCompatibilityMatrix =
  ServerToClient :: "u8 \<rightharpoonup> u8 list"
  ClientToServer :: "u8 \<rightharpoonup> u8 list"

definition DefaultCompatibilityMatrix :: VersionCompatibilityMatrix where
  "DefaultCompatibilityMatrix = \<lparr> ServerToClient = [0x01 \<mapsto> [0x01]], ClientToServer = [0x01 \<mapsto> [0x01]] \<rparr>"

section \<open>Dates\<close>

text \<open>\<open>t.Format("2006-01-02")\<close>, by the day number since 1 March of year 0.\<close>

definition civil_date :: "time \<Rightarrow> int \<times> int \<times> int" where
  "civil_date t =
    (let z = t div day + 306; era = z div 146097; doe = z mod 146097;
         yoe = (doe - doe div 1460 + doe div 36524 - doe div 146096) div 365;
         doy = doe - (365 * yoe + yoe div 4 - yoe div 100);
         mp = (5 * doy + 2) div 153; d = doy - (153 * mp + 2) div 5 + 1;
         m = (if mp < 10 then mp + 3 else mp - 9);
         y = yoe + era * 400 + (if m \<le> 2 then 1 else 0)
     in (y, m, d))"

definition pad :: "nat \<Rightarrow> int \<Rightarrow> string" where
  "pad w i = (let s = show_int i in replicate (w - length s) (CHR ''0'') @ s)"

definition format_date :: "time \<Rightarrow> string" where
  "format_date t = (case civil_date t of (y, m, d) \<Rightarrow> pad 4 y @ ''-'' @ pad 2 m @ ''-'' @ pad 2 d)"

section \<open>Lookup, validation, negotiation\<close>

definition IsVersionSupported_in :: "version_table \<Rightarrow> u8 \<Rightarrow> bool" where
  "IsVersionSupported_in sv v = (sv v \<noteq> None)"

definition IsVersionCompatible_in :: "VersionCompatibilityMatrix \<Rightarrow> u8 \<Rightarrow> u8 \<Rightarrow> bool" where
  "IsVersionCompatible_in cm serverVersion clientVersion =
     (case ServerToClient cm serverVersion of
        Some compatibleClients \<Rightarrow> list_ex (\<lambda>c. c = clientVersion) compatibleClients
      | None \<Rightarrow> False)"

definition GetVersion_in :: "version_table \<Rightarrow> u8 \<Rightarrow> go_error + version" where
  "GetVersion_in sv v = (case sv v of
      Some i \<Rightarrow> Inr i
    | None \<Rightarrow> Inl (Errorf (''unsupported version: 0x'' @ hex2 v)))"

definition GetCurrentVersion_in :: "version_table \<Rightarrow> version option" where
  "GetCurrentVersion_in sv = sv CurrentProtocolVersion"

definition ValidateVersion_in :: "version_table \<Rightarrow> time \<Rightarrow> u8 \<Rightarrow> go_error option" where
  "ValidateVersion_in sv now v = (case sv v of
      Some i \<Rightarrow>
        if Deprecated i then
          (case EOL i of
             Some eol \<Rightarrow>
               if eol < now then
                 Some (Errorf (''version 0x'' @ hex2 v @ '' ('' @ Name i @
                   '') has reached end of life on '' @ format_date eol))
               else Some (Errorf (''version 0x'' @ hex2 v @ '' ('' @ Name i @ '') is deprecated, please upgrade''))
           | None \<Rightarrow> Some (Errorf (''version 0x'' @ hex2 v @ '' ('' @ Name i @ '') is deprecated, please upgrade'')))
        else None
    | None \<Rightarrow>
        if v < MinSupportedVersion then
          Some (Errorf (''version 0x'' @ hex2 v @ '' is too old (minimum supported: 0x'' @ hex2 MinSupportedVersion @ '')''))
        else if v > MaxSupportedVersion then
          Some (Errorf (''version 0x'' @ hex2 v @ '' is too new (maximum supported: 0x'' @ hex2 MaxSupportedVersion @ '')''))
        else Some (Errorf (''version 0x'' @ hex2 v @ '' is not supported'')))"

definition GetVersionFeatures_in :: "version_table \<Rightarrow> u8 \<Rightarrow> go_error + VersionFeatures" where
  "GetVersionFeatures_in sv v = (case GetVersion_in sv v of Inl e \<Rightarrow> Inl e | Inr i \<Rightarrow> Inr (Features i))"

definition HasFeature_in :: "version_table \<Rightarrow> u8 \<Rightarrow> string \<Rightarrow> bool" where
  "HasFeature_in sv v feature = (case GetVersion_in sv v of
      Inl e \<Rightarrow> False
    | Inr i \<Rightarrow>
       (let f = Features i in
        if feature = ''authentication'' then Authentication f
        else if feature = ''subscription'' then SubscriptionF f
        else if feature = ''heartbeat'' then Heartbeat f
        else if feature = ''data_batch'' then DataBatchF f
        else if feature = ''error_reporting'' then ErrorReporting f
        else if feature = ''crc32_checksum'' then CRC32Checksum f
        else if feature = ''input_validation'' then InputValidation f
        else if feature = ''rate_limiting'' then RateLimiting f
        else if feature = ''compression'' then Compression f
        else if feature = ''tls'' then TLS f
        else if feature = ''async_writes'' then AsyncWrites f
        else if feature = ''object_pooling'' then ObjectPooling f
        else if feature = ''tcp_optimizations'' then TCPOptimizations f
        else False))"

fun first_compatible :: "version_table \<Rightarrow> u8 \<Rightarrow> u8 list \<Rightarrow> u8 option" where
  "first_compatible sv client [] = None"
| "first_compatible sv client (c # cs) =
     (if IsVersionSupported_in sv c \<and> c = client then Some c else first_compatible sv client cs)"

definition GetVersionNegotiationResponse_in ::
    "version_table \<Rightarrow> VersionCompatibilityMatrix \<Rightarrow> u8 \<Rightarrow> go_error + u8" where
  "GetVersionNegotiationResponse_in sv cm client =
    (let none = Inl (Errorf (''no compatible version found for client version 0x'' @ hex2 client)) in
     if \<not> IsVersionSupported_in sv client then none
     else if IsVersionCompatible_in cm CurrentProtocolVersion client then Inr client
     else (case ServerToClient cm CurrentProtocolVersion of
             Some cs \<Rightarrow> (case first_compatible sv client cs of Some v \<Rightarrow> Inr v | None \<Rightarrow> none)
           | None \<Rightarrow> none))"

abbreviation IsVersionSupported :: "u8 \<Rightarrow> bool" where
  "IsVersionSupported \<equiv> IsVersionSupported_in SupportedVersions"

abbreviation IsVersionCompatible :: "u8 \<Rightarrow> u8 \<Rightarrow> bool" where
  "IsVersionCompatible \<equiv> IsVersionCompatible_in DefaultCompatibilityMatrix"

abbreviation ValidateVersion :: "time \<Rightarrow> u8 \<Rightarrow> go_error option" where
  "ValidateVersion \<equiv> ValidateVersion_in SupportedVersions"

abbreviation GetVersionFeatures :: "u8 \<Rightarrow> go_error + VersionFeatures" where
  "GetVersionFeatures \<equiv> GetVersionFeatures_in SupportedVersions"

abbreviation GetVersionNegotiationResponse :: "u8 \<Rightarrow> go_error + u8" where
  "GetVersionNegotiationResponse \<equiv>
     GetVersionNegotiationResponse_in SupportedVersions DefaultCompatibilityMatrix"

section \<open>Usage counters\<close>

record VersionMetrics =
  VersionCounts :: "u8 \<rightharpoonup> int"
  DeprecatedUsage :: int
  UnsupportedAttempts :: int

definition NewVersionMetrics :: VersionMetrics where
  "NewVersionMetrics = \<lparr> VersionCounts = Map.empty, DeprecatedUsage = 0, UnsupportedAttempts = 0 \<rparr>"

definition version_count :: "VersionMetrics \<Rightarrow> u8 \<Rightarrow> int" where
  "version_count vm v = (case VersionCounts vm v of Some n \<Rightarrow> n | None \<Rightarrow> 0)"

definition RecordVersionUsage :: "version_table \<Rightarrow> u8 \<Rightarrow> VersionMetrics \<Rightarrow> VersionMetrics" where
  "RecordVersionUsage sv v vm =
    (let vm' = vm\<lparr>VersionCounts := (VersionCounts vm)(v \<mapsto> wrap64 (version_count vm v + 1))\<rparr> in
     case sv v of
       Some i \<Rightarrow> if Deprecated i then vm'\<lparr>DeprecatedUsage := wrap64 (DeprecatedUsage vm' + 1)\<rparr> else vm'
     | None \<Rightarrow> vm')"

definition RecordUnsupportedVersion :: "VersionMetrics \<Rightarrow> VersionMetrics" where
  "RecordUnsupportedVersion vm = vm\<lparr>UnsupportedAttempts := wrap64 (UnsupportedAttempts vm + 1)\<rparr>"

section \<open>Lemmas\<close>

lemma format_release_date: "format_date (ReleaseDate v1) = ''2024-01-01''"
  by code_simp

lemma SupportedVersions_iff: "SupportedVersions v = (if v = 1 then Some v1 else None)"
  by (simp add: SupportedVersions_def)

lemma ValidateVersion_None_iff:
  "ValidateVersion_in sv now v = None \<longleftrightarrow> (\<exists>i. sv v = Some i \<and> \<not> Deprecated i)"
  by (auto simp: ValidateVersion_in_def split: option.splits if_splits)

lemma ValidateVersion_default [simp]: "ValidateVersion now v = None \<longleftrightarrow> v = 1"
  by (auto simp: ValidateVersion_None_iff SupportedVersions_iff v1_def)

lemma first_compatible_Some:
  "first_compatible sv client cs = Some v \<longleftrightarrow> v = client \<and> client \<in> set cs \<and> IsVersionSupported_in sv client"
  by (induction cs) auto

lemma IsVersionCompatible_in_iff:
  "IsVersionCompatible_in cm s c \<longleftrightarrow> (\<exists>cs. ServerToClient cm s = Some cs \<and> c \<in> set cs)"
  by (auto simp: IsVersionCompatible_in_def list_ex_iff split: option.splits)

lemma negotiation_iff:
  "GetVersionNegotiationResponse_in sv cm client = Inr v \<longleftrightarrow>
     v = client \<and> IsVersionSupported_in sv client \<and> IsVersionCompatible_in cm CurrentProtocolVersion client"
  by (auto simp: GetVersionNegotiationResponse_in_def Let_def IsVersionCompatible_in_iff
      first_compatible_Some split: option.splits)

end
