(* ===== verification/Frame.thy ===== *)
theory Frame
  imports NetIO Crc32c Version
begin

text \<open>
  \<open>internal/protocol/frame.go\<close>: the binary framing.  A frame on the wire is two magic bytes, the
  protocol version, the message type, the payload length in big-endian order, the payload and the
  CRC-32C of everything before it.

  \<open>Marshal\<close> and \<open>Unmarshal\<close> work on one complete frame, \<open>ReadFrame\<close> and \<open>WriteFrame\<close> on a stream.
  \<open>FrameReader\<close> and \<open>FrameWriter\<close> are generic in the Go interfaces \<open>io.Reader\<close> and \<open>io.Writer\<close>, so
  their methods take the stream operation as an argument.  A method call that panics returns
  \<open>Panic\<close>.
\<close>

unbundle bit_operations_syntax

definition MagicByte1 :: u8 where "MagicByte1 = 0xF5"
definition MagicByte2 :: u8 where "MagicByte2 = 0x7D"
definition ProtocolVersion :: u8 where "ProtocolVersion = 0x01"
definition FrameHeaderSize :: nat where "FrameHeaderSize = 8"
definition CRCSize :: nat where "CRCSize = 4"
definition MinFrameSize :: nat where "MinFrameSize = FrameHeaderSize + CRCSize"
definition DefaultMaxMessageSize :: nat where "DefaultMaxMessageSize = 64 * 1024"

definition MessageTypeAuth :: u8 where "MessageTypeAuth = 0x01"
definition MessageTypeSubscribe :: u8 where "MessageTypeSubscribe = 0x02"
definition MessageTypeHeartbeat :: u8 where "MessageTypeHeartbeat = 0x03"
definition MessageTypeDataBatch :: u8 where "MessageTypeDataBatch = 0x04"
definition MessageTypeError :: u8 where "MessageTypeError = 0x05"
definition MessageTypeACK :: u8 where "MessageTypeACK = 0x06"
definition MessageTypePong :: u8 where "MessageTypePong = 0x07"

lemmas frame_consts = MagicByte1_def MagicByte2_def ProtocolVersion_def FrameHeaderSize_def
  CRCSize_def MinFrameSize_def DefaultMaxMessageSize_def

lemmas frame_sizes = FrameHeaderSize_def CRCSize_def MinFrameSize_def

lemmas message_types = MessageTypeAuth_def MessageTypeSubscribe_def MessageTypeHeartbeat_def
  MessageTypeDataBatch_def MessageTypeError_def MessageTypeACK_def MessageTypePong_def

record Frame =
  Magic :: "u8 \<times> u8"
  Version :: u8
  Type :: u8
  Length :: u32
  Payload :: bytes
  CRC :: u32

definition new_frame :: "u8 \<Rightarrow> u8 \<Rightarrow> bytes \<Rightarrow> Frame" where
  "new_frame v t p = \<lparr> Magic = (0, 0), Version = v, Type = t, Length = 0, Payload = p, CRC = 0 \<rparr>"

section \<open>Big-endian integers\<close>

definition be32 :: "u32 \<Rightarrow> bytes" where
  "be32 w = [ucast (drop_bit 24 w), ucast (drop_bit 16 w), ucast (drop_bit 8 w), ucast w]"

fun be32_dec :: "bytes \<Rightarrow> u32" where
  "be32_dec (a # b # c # d # _) =
     push_bit 24 (ucast a) OR push_bit 16 (ucast b) OR push_bit 8 (ucast c) OR ucast d"
| "be32_dec _ = 0"

lemma length_be32 [simp]: "length (be32 w) = 4"
  by (simp add: be32_def)

lemma be32_dec_be32 [simp]: "be32_dec (be32 w @ bs) = w"
proof (rule bit_word_eqI)
  fix n
  assume "n < LENGTH(32)"
  then consider "n < 8" | "8 \<le> n" "n < 16" | "16 \<le> n" "n < 24" | "24 \<le> n" "n < 32"
    by fastforce
  then show "bit (be32_dec (be32 w @ bs)) n = bit w n"
    by cases (simp_all add: be32_def bit_simps less_diff_conv2)
qed

lemma be32_be32_dec: "length bs = 4 \<Longrightarrow> be32 (be32_dec bs) = bs"
proof -
  assume "length bs = 4"
  then obtain a b c d where bs: "bs = [a, b, c, d]"
    by (auto simp: length_Suc_conv numeral_eq_Suc)
  have byte: "n < 8" if "bit (x :: u8) n" for x n
    using bit_imp_le_length [OF that] by simp
  have "ucast (drop_bit 24 (be32_dec bs)) = a" "ucast (drop_bit 16 (be32_dec bs)) = b"
    "ucast (drop_bit 8 (be32_dec bs)) = c" "ucast (be32_dec bs) = d"
    unfolding bs be32_dec.simps
    by (rule bit_word_eqI, auto simp: bit_simps dest: byte)+
  then show ?thesis by (simp add: be32_def bs)
qed

section \<open>One frame\<close>

definition Marshal :: "Frame \<Rightarrow> go_error + bytes" where
  "Marshal f =
    (if length (Payload f) > DefaultMaxMessageSize then Inl (E ErrMessageTooLarge)
     else let data = [MagicByte1, MagicByte2, Version f, Type f] @ be32 (of_nat (length (Payload f))) @ Payload f
          in Inr (data @ be32 (crc32c data)))"

definition Unmarshal :: "Frame \<Rightarrow> bytes \<Rightarrow> Frame \<times> go_error option" where
  "Unmarshal f data =
    (if length data < MinFrameSize then (f, Some (E ErrIncompleteFrame))
     else if data ! 0 \<noteq> MagicByte1 \<or> data ! 1 \<noteq> MagicByte2 then (f, Some (E ErrInvalidMagic))
     else let f = f\<lparr>Version := data ! 2\<rparr> in
     if Version f \<noteq> ProtocolVersion then (f, Some (E ErrUnsupportedVersion))
     else let f = f\<lparr>Type := data ! 3\<rparr>; payloadLen = be32_dec (take 4 (drop 4 data)) in
     if unat payloadLen > DefaultMaxMessageSize then (f, Some (E ErrMessageTooLarge))
     else if length data \<noteq> FrameHeaderSize + unat payloadLen + CRCSize then (f, Some (E ErrIncompleteFrame))
     else let f = f\<lparr>Payload := take (unat payloadLen) (drop FrameHeaderSize data)\<rparr>;
              checksumStart = FrameHeaderSize + unat payloadLen;
              providedChecksum = be32_dec (drop checksumStart data);
              calculatedChecksum = crc32c (take checksumStart data) in
     if providedChecksum \<noteq> calculatedChecksum then (f, Some (E ErrInvalidChecksum))
     else (f, None))"

section \<open>Frames on a stream\<close>

record 's FrameReader =
  fr_r :: 's
  fr_maxMessageSize :: u32

definition NewFrameReader :: "'s \<Rightarrow> u32 \<Rightarrow> 's FrameReader" where
  "NewFrameReader r m =
     \<lparr> fr_r = r, fr_maxMessageSize = (if m = 0 then of_nat DefaultMaxMessageSize else m) \<rparr>"

definition ReadFrame :: "(nat \<Rightarrow> 's \<Rightarrow> (go_error + bytes) \<times> 's) \<Rightarrow> time \<Rightarrow> 's FrameReader
    \<Rightarrow> (go_error + Frame) outcome \<times> 's FrameReader" where
  "ReadFrame readFull now r =
    (case readFull FrameHeaderSize (fr_r r) of
       (Inl err, s) \<Rightarrow> (Ret (Inl (Wrapf ''failed to read header'' err)), r\<lparr>fr_r := s\<rparr>)
     | (Inr header, s) \<Rightarrow>
       let r = r\<lparr>fr_r := s\<rparr> in
       if header ! 0 \<noteq> MagicByte1 \<or> header ! 1 \<noteq> MagicByte2 then (Ret (Inl (E ErrInvalidMagic)), r)
       else (case ValidateVersion now (header ! 2) of
         Some err \<Rightarrow> (Ret (Inl (Wrapf ''version validation failed'' err)), r)
       | None \<Rightarrow>
         let msgType = header ! 3; payloadLen = be32_dec (drop 4 header) in
         if payloadLen > fr_maxMessageSize r then (Ret (Inl (E ErrMessageTooLarge)), r)
         else (case readFull (unat (payloadLen + of_nat CRCSize)) (fr_r r) of
           (Inl err, s) \<Rightarrow> (Ret (Inl (Wrapf ''failed to read payload and checksum'' err)), r\<lparr>fr_r := s\<rparr>)
         | (Inr remainder, s) \<Rightarrow>
           let r = r\<lparr>fr_r := s\<rparr>;
               fullFrame = header @ remainder;
               checksumStart = FrameHeaderSize + unat payloadLen in
           if length fullFrame < checksumStart + 4 then (Panic, r)
           else let providedChecksum = be32_dec (drop checksumStart fullFrame);
                    calculatedChecksum = crc32c (take checksumStart fullFrame) in
           if providedChecksum \<noteq> calculatedChecksum then (Ret (Inl (E ErrInvalidChecksum)), r)
           else (Ret (Inr (new_frame (header ! 2) msgType (take (unat payloadLen) remainder))), r))))"

record 'w FrameWriter =
  fw_w :: 'w
  fw_maxMessageSize :: u32

definition NewFrameWriter :: "'w \<Rightarrow> 'w FrameWriter" where
  "NewFrameWriter w = \<lparr> fw_w = w, fw_maxMessageSize = of_nat DefaultMaxMessageSize \<rparr>"

definition WriteFrame :: "(bytes \<Rightarrow> 'w \<Rightarrow> go_error option \<times> 'w) \<Rightarrow> Frame \<Rightarrow> 'w FrameWriter
    \<Rightarrow> go_error option \<times> 'w FrameWriter" where
  "WriteFrame write frame w =
    (if length (Payload frame) > unat (fw_maxMessageSize w) then (Some (E ErrMessageTooLarge), w)
     else (case Marshal frame of
       Inl err \<Rightarrow> (Some err, w)
     | Inr data \<Rightarrow> (case write data (fw_w w) of
         (Some err, v) \<Rightarrow> (Some (Wrapf ''failed to write frame'' err), w\<lparr>fw_w := v\<rparr>)
       | (None, v) \<Rightarrow> (None, w\<lparr>fw_w := v\<rparr>))))"

text \<open>
  \<open>MarshalMessage\<close> and \<open>UnmarshalMessage\<close> call \<open>proto.Marshal\<close> and \<open>proto.Unmarshal\<close>, which are
  parameters.
\<close>

definition MarshalMessage :: "('m \<Rightarrow> go_error + bytes) \<Rightarrow> u8 \<Rightarrow> 'm \<Rightarrow> go_error + Frame" where
  "MarshalMessage protoMarshal msgType msg = (case protoMarshal msg of
      Inl err \<Rightarrow> Inl (Wrapf ''failed to marshal protobuf message'' err)
    | Inr payload \<Rightarrow> Inr (new_frame ProtocolVersion msgType payload))"

definition UnmarshalMessage :: "(bytes \<Rightarrow> go_error + 'm) \<Rightarrow> Frame \<Rightarrow> go_error + 'm" where
  "UnmarshalMessage protoUnmarshal frame = (case protoUnmarshal (Payload frame) of
      Inl err \<Rightarrow> Inl (Wrapf ''failed to unmarshal protobuf message'' err)
    | Inr msg \<Rightarrow> Inr msg)"

section \<open>The wire format\<close>

definition wire_body :: "u8 \<Rightarrow> u8 \<Rightarrow> bytes \<Rightarrow> bytes" where
  "wire_body v t p = [MagicByte1, MagicByte2, v, t] @ be32 (of_nat (length p)) @ p"

definition wire :: "u8 \<Rightarrow> u8 \<Rightarrow> bytes \<Rightarrow> bytes" where
  "wire v t p = wire_body v t p @ be32 (crc32c (wire_body v t p))"

lemma length_wire_body [simp]: "length (wire_body v t p) = 8 + length p"
  by (simp add: wire_body_def)

lemma length_wire [simp]: "length (wire v t p) = 12 + length p"
  by (simp add: wire_def)

lemma Marshal_eq: "Marshal f = (if length (Payload f) \<le> DefaultMaxMessageSize
    then Inr (wire (Version f) (Type f) (Payload f)) else Inl (E ErrMessageTooLarge))"
  by (simp add: Marshal_def wire_def wire_body_def Let_def)

lemma unat_of_length: "length p < 2 ^ 32 \<Longrightarrow> unat (of_nat (length p) :: u32) = length p"
  by (simp add: unat_of_nat)

lemma header_split: "8 \<le> length bs \<Longrightarrow> take 8 bs = [bs ! 0, bs ! 1, bs ! 2, bs ! 3] @ take 4 (drop 4 bs)"
  by (rule nth_equalityI) (auto simp: nth_append nth_Cons' less_Suc_eq numeral_eq_Suc)

text \<open>Every byte string whose header and checksum check out is a frame on the wire.\<close>

lemma wire_of_checked:
  assumes "length bs = 12 + n" "n < 2 ^ 32"
    and "bs ! 0 = MagicByte1" "bs ! 1 = MagicByte2"
    and "unat (be32_dec (take 4 (drop 4 bs))) = n"
    and "be32_dec (drop (8 + n) bs) = crc32c (take (8 + n) bs)"
  shows "bs = wire (bs ! 2) (bs ! 3) (take n (drop 8 bs))"
proof -
  let ?p = "take n (drop 8 bs)"
  have "be32_dec (take 4 (drop 4 bs)) = of_nat n" using assms(5) by auto
  moreover have "length ?p = n" using assms(1) by simp
  ultimately have len: "take 4 (drop 4 bs) = be32 (of_nat (length ?p))"
    using assms(1) be32_be32_dec [of "take 4 (drop 4 bs)"] by simp
  have "take (8 + n) bs = take 8 bs @ ?p" by (simp add: take_add)
  also have "take 8 bs = [MagicByte1, MagicByte2, bs ! 2, bs ! 3] @ be32 (of_nat (length ?p))"
    using assms(1,3,4) len by (simp add: header_split)
  finally have body: "take (8 + n) bs = wire_body (bs ! 2) (bs ! 3) ?p"
    by (simp add: wire_body_def)
  have "drop (8 + n) bs = be32 (crc32c (take (8 + n) bs))"
    using assms(1,6) be32_be32_dec [of "drop (8 + n) bs"] by simp
  then show ?thesis
    by (metis append_take_drop_id body wire_def)
qed

lemma wire_header:
  "wire v t p ! 0 = MagicByte1" "wire v t p ! 1 = MagicByte2" "wire v t p ! Suc 0 = MagicByte2"
  "wire v t p ! 2 = v" "wire v t p ! 3 = t"
  "take 4 (drop 4 (wire v t p)) = be32 (of_nat (length p))"
  "take (length p) (drop 8 (wire v t p)) = p"
  by (simp_all add: wire_def wire_body_def)

lemma wire_take_drop:
  "take (8 + length p) (wire v t p) = wire_body v t p"
  "drop (8 + length p) (wire v t p) = be32 (crc32c (wire_body v t p))"
  by (simp_all add: wire_def)

lemma be32_dec_be32_nil [simp]: "be32_dec (be32 w) = w"
  using be32_dec_be32 [of w "[]"] by simp

lemma Unmarshal_wire:
  assumes "length p \<le> DefaultMaxMessageSize"
  shows "Unmarshal f (wire ProtocolVersion t p) =
     (f\<lparr>Version := ProtocolVersion, Type := t, Payload := p\<rparr>, None)"
proof -
  have "unat (of_nat (length p) :: u32) = length p"
    using assms by (intro unat_of_length) (simp add: frame_consts)
  then show ?thesis
    using assms by (simp add: Unmarshal_def Let_def wire_header wire_take_drop frame_consts)
qed

lemma Unmarshal_checks:
  fixes data :: bytes
  assumes "Unmarshal f data = (f', None)"
  defines "n \<equiv> unat (be32_dec (take 4 (drop 4 data)))"
  shows "length data = 12 + n \<and> n \<le> DefaultMaxMessageSize \<and>
      data ! 0 = MagicByte1 \<and> data ! 1 = MagicByte2 \<and> data ! 2 = ProtocolVersion \<and>
      be32_dec (drop (8 + n) data) = crc32c (take (8 + n) data) \<and>
      f' = f\<lparr>Version := ProtocolVersion, Type := data ! 3, Payload := take n (drop 8 data)\<rparr>"
  using assms(1) unfolding Unmarshal_def Let_def n_def [symmetric]
  by (simp add: frame_sizes split: if_split_asm)

lemma Unmarshal_ok:
  assumes "Unmarshal f data = (f', None)"
  obtains t p where "length p \<le> DefaultMaxMessageSize" "data = wire ProtocolVersion t p"
    "f' = f\<lparr>Version := ProtocolVersion, Type := t, Payload := p\<rparr>"
proof -
  define n where "n = unat (be32_dec (take 4 (drop 4 data)))"
  let ?p = "take n (drop 8 data)"
  have len: "length data = 12 + n" and max: "n \<le> DefaultMaxMessageSize"
    and magic: "data ! 0 = MagicByte1" "data ! 1 = MagicByte2" and v: "data ! 2 = ProtocolVersion"
    and crc: "be32_dec (drop (8 + n) data) = crc32c (take (8 + n) data)"
    and f': "f' = f\<lparr>Version := ProtocolVersion, Type := data ! 3, Payload := ?p\<rparr>"
    using Unmarshal_checks [OF assms] unfolding n_def [symmetric] by blast+
  have n: "n < 2 ^ 32" using max by (simp add: frame_consts)
  have eq: "data = wire ProtocolVersion (data ! 3) ?p"
    by (rule wire_of_checked [OF len n magic n_def [symmetric] crc, unfolded v])
  have "length ?p \<le> DefaultMaxMessageSize" using len max by simp
  then show thesis by (rule that [OF _ eq f'])
qed

lemma Unmarshal_None_iff:
  "snd (Unmarshal f data) = None \<longleftrightarrow>
     (\<exists>t p. length p \<le> DefaultMaxMessageSize \<and> data = wire ProtocolVersion t p)"
proof
  assume "snd (Unmarshal f data) = None"
  then have "Unmarshal f data = (fst (Unmarshal f data), None)" by (metis prod.collapse)
  then show "\<exists>t p. length p \<le> DefaultMaxMessageSize \<and> data = wire ProtocolVersion t p"
    by (elim Unmarshal_ok) auto
next
  assume "\<exists>t p. length p \<le> DefaultMaxMessageSize \<and> data = wire ProtocolVersion t p"
  then show "snd (Unmarshal f data) = None" by (auto simp: Unmarshal_wire)
qed

section \<open>Corruption\<close>

lemma wire_body_inj:
  "wire_body v t p = wire_body v' t' p' \<Longrightarrow> v = v' \<and> t = t' \<and> p = p'"
proof -
  assume eq: "wire_body v t p = wire_body v' t' p'"
  then have "length p = length p'" by (metis add_left_cancel length_wire_body)
  with eq show ?thesis by (simp add: wire_body_def)
qed

text \<open>
  Two frames on the wire of the same length that agree outside a window of four bytes are equal,
  unless the window straddles the boundary between the payload and the checksum.
\<close>

lemma wire_window:
  assumes len: "length (wire v t p) = length (wire v' t' p')"
    and same: "\<And>j. j < length (wire v t p) \<Longrightarrow> j < i \<or> i + 4 \<le> j \<Longrightarrow> wire v t p ! j = wire v' t' p' ! j"
    and side: "i + 4 \<le> 8 + length p \<or> 8 + length p \<le> i"
  shows "wire v t p = wire v' t' p'"
proof -
  let ?b = "wire_body v t p" and ?b' = "wire_body v' t' p'"
  have lb: "length ?b = length ?b'" and lp: "length p = length p'" using len by auto
  have nb: "wire v t p ! j = ?b ! j" "wire v' t' p' ! j = ?b' ! j" if "j < 8 + length p" for j
    using that lp by (simp_all add: wire_def nth_append)
  have nc: "wire v t p ! (8 + length p + k) = be32 (crc32c ?b) ! k"
    "wire v' t' p' ! (8 + length p + k) = be32 (crc32c ?b') ! k" for k
    using lp by (simp_all add: wire_def nth_append)
  from side have "?b = ?b'"
  proof
    assume w: "i + 4 \<le> 8 + length p"
    have "be32 (crc32c ?b) = be32 (crc32c ?b')"
    proof (rule nth_equalityI)
      fix k assume "k < length (be32 (crc32c ?b))"
      then have "wire v t p ! (8 + length p + k) = wire v' t' p' ! (8 + length p + k)"
        using w by (intro same) auto
      then show "be32 (crc32c ?b) ! k = be32 (crc32c ?b') ! k" by (simp only: nc)
    qed simp
    then have "crc32c ?b = crc32c ?b'" by (metis be32_dec_be32_nil)
    moreover have "?b ! j = ?b' ! j" if "j < length ?b" "j < i \<or> i + 4 \<le> j" for j
    proof -
      have j: "j < 8 + length p" using that(1) by simp
      have "wire v t p ! j = wire v' t' p' ! j" using j that(2) by (intro same) auto
      then show ?thesis by (simp only: nb j)
    qed
    ultimately show ?thesis using crc.window [of ?b ?b' i] lb by blast
  next
    assume w: "8 + length p \<le> i"
    show ?thesis
    proof (rule nth_equalityI)
      fix j assume "j < length ?b"
      then have j: "j < 8 + length p" by simp
      then have "wire v t p ! j = wire v' t' p' ! j" using w by (intro same) auto
      then show "?b ! j = ?b' ! j" by (simp only: nb j)
    qed (rule lb)
  qed
  then show ?thesis by (simp add: wire_def)
qed

section \<open>Reading and writing over any byte stream\<close>

text \<open>Reading \<open>n\<close> frames in a row, and writing a list of frames, as the clients of the layer do.\<close>

fun read_frames :: "(nat \<Rightarrow> 's \<Rightarrow> (go_error + bytes) \<times> 's) \<Rightarrow> time \<Rightarrow> nat \<Rightarrow> 's FrameReader
    \<Rightarrow> Frame list option \<times> 's FrameReader" where
  "read_frames readFull now 0 r = (Some [], r)"
| "read_frames readFull now (Suc n) r = (case ReadFrame readFull now r of
     (Ret (Inr f), r') \<Rightarrow>
       (case read_frames readFull now n r' of (Some fs, r'') \<Rightarrow> (Some (f # fs), r'') | (None, r'') \<Rightarrow> (None, r''))
   | (_, r') \<Rightarrow> (None, r'))"

fun write_frames :: "(bytes \<Rightarrow> 'w \<Rightarrow> go_error option \<times> 'w) \<Rightarrow> Frame list \<Rightarrow> 'w FrameWriter
    \<Rightarrow> go_error option \<times> 'w FrameWriter" where
  "write_frames write [] w = (None, w)"
| "write_frames write (f # fs) w = (case WriteFrame write f w of
     (None, w') \<Rightarrow> write_frames write fs w'
   | (Some e, w') \<Rightarrow> (Some e, w'))"

definition frame_wire :: "Frame \<Rightarrow> bytes" where
  "frame_wire f = wire (Version f) (Type f) (Payload f)"

definition sendable :: "Frame \<Rightarrow> bool" where
  "sendable f \<longleftrightarrow> Version f = ProtocolVersion \<and> length (Payload f) \<le> DefaultMaxMessageSize"

definition received :: "Frame \<Rightarrow> Frame" where
  "received f = new_frame (Version f) (Type f) (Payload f)"

lemma take_wire: "take 8 (wire v t p @ q) = [MagicByte1, MagicByte2, v, t] @ be32 (of_nat (length p))"
  by (simp add: wire_def wire_body_def)

lemma drop_wire: "drop 8 (wire v t p @ q) = p @ be32 (crc32c (wire_body v t p)) @ q"
  by (simp add: wire_def wire_body_def)

lemma unat_add_crc:
  "unat n \<le> unat m \<Longrightarrow> unat m + 4 < 2 ^ 32 \<Longrightarrow> unat (n + of_nat CRCSize :: u32) = unat n + 4"
  by (subst unat_plus_if_size) (simp add: CRCSize_def word_size)

lemma ValidateVersion_ProtocolVersion [simp]: "ValidateVersion now ProtocolVersion = None"
  by (simp add: ProtocolVersion_def)

context byte_source
begin

lemma ReadFrame_wire:
  assumes rest: "rest (fr_r r) = wire ProtocolVersion t p @ q"
    and p: "length p \<le> unat (fr_maxMessageSize r)" and m: "unat (fr_maxMessageSize r) + 4 < 2 ^ 32"
  shows "\<exists>s'. ReadFrame take_all now r = (Ret (Inr (new_frame ProtocolVersion t p)), r\<lparr>fr_r := s'\<rparr>) \<and> rest s' = q"
proof -
  let ?n = "of_nat (length p) :: u32"
  have n: "unat ?n = length p" using p m by (intro unat_of_length) simp
  let ?h = "[MagicByte1, MagicByte2, ProtocolVersion, t] @ be32 ?n"
  let ?c = "be32 (crc32c (wire_body ProtocolVersion t p))"
  obtain s1 where s1: "take_all 8 (fr_r r) = (Inr ?h, s1)" and r1: "rest s1 = p @ ?c @ q"
    using take_enough [of 8 "fr_r r"] unfolding rest drop_wire take_wire by auto
  have n4: "unat (?n + of_nat CRCSize) = length p + 4"
    using unat_add_crc [of ?n "fr_maxMessageSize r"] n p m by simp
  obtain s2 where s2: "take_all (length p + 4) s1 = (Inr (p @ ?c), s2)"
    and r2: "rest s2 = q"
    using take_enough [of "length p + 4" s1] unfolding r1 by auto
  have le: "\<not> fr_maxMessageSize r < ?n" using n p by (simp add: word_less_nat_alt)
  have "?h @ p @ ?c = wire ProtocolVersion t p" by (simp add: wire_def wire_body_def)
  then have full: "take (8 + length p) (?h @ p @ ?c) = wire_body ProtocolVersion t p"
    "drop (8 + length p) (?h @ p @ ?c) = ?c"
    by (simp_all only: wire_take_drop)
  show ?thesis
    using s1 s2 r2 n n4 le full
    by (intro exI [of _ s2])
       (simp add: ReadFrame_def Let_def FrameHeaderSize_def)
qed

lemma ReadFrame_ok:
  assumes "ReadFrame take_all now r = (Ret (Inr f), r')"
  shows "\<exists>t p. length p \<le> unat (fr_maxMessageSize r) \<and> f = new_frame ProtocolVersion t p \<and>
     rest (fr_r r) = wire ProtocolVersion t p @ rest (fr_r r') \<and> fr_maxMessageSize r' = fr_maxMessageSize r"
proof -
  obtain h s1 where h: "take_all 8 (fr_r r) = (Inr h, s1)"
    using assms by (auto simp: ReadFrame_def FrameHeaderSize_def split: sum.splits prod.splits)
  define n where "n = be32_dec (drop 4 h)"
  obtain b s2 where b: "take_all (unat (n + of_nat CRCSize)) s1 = (Inr b, s2)"
    and magic: "h ! 0 = MagicByte1" "h ! 1 = MagicByte2" and v: "h ! 2 = ProtocolVersion"
    and max: "n \<le> fr_maxMessageSize r" and full: "8 + unat n + 4 \<le> length (h @ b)"
    and crc: "be32_dec (drop (8 + unat n) (h @ b)) = crc32c (take (8 + unat n) (h @ b))"
    and f: "f = new_frame (h ! 2) (h ! 3) (take (unat n) b)" and r': "r' = r\<lparr>fr_r := s2\<rparr>"
    using assms h unfolding ReadFrame_def FrameHeaderSize_def Let_def
    by (simp add: n_def [symmetric] ProtocolVersion_def not_less not_le split: if_split_asm option.split_asm sum.split_asm prod.split_asm)
  have hh: "h = take 8 (rest (fr_r r))" "length h = 8" and s1: "rest s1 = drop 8 (rest (fr_r r))"
    using h rest_after [of 8 "fr_r r"] by (auto simp: take_all_Inr)
  have bb: "b = take (unat (n + of_nat CRCSize)) (rest s1)" "length b = unat (n + of_nat CRCSize)"
    and s2: "rest s2 = drop (unat (n + of_nat CRCSize)) (rest s1)"
    using b rest_after [of "unat (n + of_nat CRCSize)" s1] by (auto simp: take_all_Inr)
  have "unat (n + of_nat CRCSize) \<le> unat n + 4"
    using unat_plus_if_size [of n "of_nat CRCSize"] by (simp add: CRCSize_def word_size split: if_splits)
  then have lb: "unat (n + of_nat CRCSize) = unat n + 4" using full hh(2) bb(2) by simp
  have len: "length (h @ b) = 12 + unat n" using hh(2) bb(2) lb by simp
  have nn: "(h @ b) ! 0 = h ! 0" "(h @ b) ! 1 = h ! 1" "(h @ b) ! 2 = h ! 2" "(h @ b) ! 3 = h ! 3"
    "take 4 (drop 4 (h @ b)) = drop 4 h" "take (unat n) (drop 8 (h @ b)) = take (unat n) b"
    using hh(2) by (simp_all add: nth_append)
  have "unat n < 2 ^ LENGTH(32)" by (rule unsigned_less)
  then have w: "h @ b = wire ProtocolVersion (h ! 3) (take (unat n) b)"
    using wire_of_checked [of "h @ b" "unat n"] len magic v crc nn by (simp add: n_def)
  have "rest (fr_r r) = (h @ b) @ rest s2"
    using hh(1) s1 bb(1) s2 lb by (metis append.assoc append_take_drop_id)
  then have "rest (fr_r r) = wire ProtocolVersion (h ! 3) (take (unat n) b) @ rest (fr_r r')"
    unfolding w r' by simp
  moreover have "length (take (unat n) b) \<le> unat (fr_maxMessageSize r)"
    using max by (simp add: word_le_nat_alt min.coboundedI2)
  ultimately show ?thesis
    using f v r' by (intro exI [of _ "h ! 3"] exI [of _ "take (unat n) b"]) simp
qed

lemma ReadFrame_no_panic:
  assumes "unat (fr_maxMessageSize r) + 4 < 2 ^ 32"
  shows "fst (ReadFrame take_all now r) \<noteq> Panic"
proof -
  have key: "12 + unat n \<le> length h + length b"
    if "take_all 8 s = (Inr h, s1)" "take_all (unat (n + of_nat CRCSize)) s1 = (Inr b, s2)"
      "\<not> fr_maxMessageSize r < n" for s s1 s2 h b and n :: u32
  proof -
    have "unat (n + of_nat CRCSize) = unat n + 4"
      using that(3) assms by (intro unat_add_crc [of _ "fr_maxMessageSize r"]) (simp_all add: word_less_nat_alt not_less)
    with that(1,2) show ?thesis by (auto simp: take_all_Inr)
  qed
  show ?thesis
    unfolding ReadFrame_def FrameHeaderSize_def Let_def
    by (auto split: option.split sum.split prod.split dest: key)
qed

lemma read_frames_wire:
  assumes "\<forall>f \<in> set fs. sendable f" "rest (fr_r r) = concat (map frame_wire fs) @ q"
    and "DefaultMaxMessageSize \<le> unat (fr_maxMessageSize r)" "unat (fr_maxMessageSize r) + 4 < 2 ^ 32"
  shows "\<exists>r'. read_frames take_all now (length fs) r = (Some (map received fs), r') \<and> rest (fr_r r') = q"
  using assms
proof (induction fs arbitrary: r)
  case Nil
  then show ?case by simp
next
  case (Cons f fs)
  have f: "Version f = ProtocolVersion" "length (Payload f) \<le> unat (fr_maxMessageSize r)"
    using Cons.prems(1,3) by (auto simp: sendable_def)
  have "rest (fr_r r) = wire ProtocolVersion (Type f) (Payload f) @ (concat (map frame_wire fs) @ q)"
    using Cons.prems(2) f by (simp add: frame_wire_def [of f])
  from ReadFrame_wire [OF this f(2) Cons.prems(4)] obtain s'
    where s': "ReadFrame take_all now r = (Ret (Inr (received f)), r\<lparr>fr_r := s'\<rparr>)"
      "rest s' = concat (map frame_wire fs) @ q"
    using f(1) by (auto simp: received_def)
  obtain r' where "read_frames take_all now (length fs) (r\<lparr>fr_r := s'\<rparr>) = (Some (map received fs), r')"
    "rest (fr_r r') = q"
    using Cons.IH [of "r\<lparr>fr_r := s'\<rparr>"] Cons.prems s'(2) by auto
  with s'(1) show ?case by simp
qed

end

context byte_sink
begin

lemma WriteFrame_ok:
  "WriteFrame put f w = (None, w') \<Longrightarrow>
     out (fw_w w') = out (fw_w w) @ frame_wire f \<and> length (Payload f) \<le> DefaultMaxMessageSize"
  by (auto simp: WriteFrame_def Marshal_eq frame_wire_def split: if_splits prod.splits option.splits
      dest: put_ok)

lemma write_frames_ok:
  "write_frames put fs w = (None, w') \<Longrightarrow>
     out (fw_w w') = out (fw_w w) @ concat (map frame_wire fs) \<and>
     (\<forall>f \<in> set fs. length (Payload f) \<le> DefaultMaxMessageSize)"
proof (induction fs arbitrary: w)
  case (Cons f fs)
  then obtain v where v: "WriteFrame put f w = (None, v)" "write_frames put fs v = (None, w')"
    by (auto split: prod.splits option.splits)
  show ?case using WriteFrame_ok [OF v(1)] Cons.IH [OF v(2)] by simp
qed simp

end

section \<open>Properties\<close>

text \<open>
  C1: Any list of frames of the current protocol version that one endpoint writes without an error
  is read back by the other endpoint as the same list, whatever the pieces in which the transport
  delivers the bytes; nothing is left unread.
\<close>

theorem stream_roundtrip:
  assumes "\<forall>f \<in> set fs. Version f = ProtocolVersion"
    and "write_frames conn_write fs (NewFrameWriter w) = (None, w')"
    and "sent (fw_w w') = sent w @ pending s"
  shows "\<exists>r'. read_frames ReadFull now (length fs) (NewFrameReader s 0) = (Some (map received fs), r') \<and>
     pending (fr_r r') = []"
proof -
  have "pending s = concat (map frame_wire fs) @ []" "\<forall>f \<in> set fs. sendable f"
    using assms tcp_out.write_frames_ok [OF assms(2)] by (auto simp: sendable_def NewFrameWriter_def)
  then show ?thesis
    by (intro tcp_in.read_frames_wire) (simp_all add: NewFrameReader_def frame_consts)
qed

theorem stream_roundtrip_witness:
  "\<exists>r'. read_frames ReadFull 0 (length [new_frame 1 3 [], new_frame 1 7 [0xAB]])
      (NewFrameReader \<lparr> segments = [take 5 (wire 1 3 []), drop 5 (wire 1 3 []) @ wire 1 7 [0xAB]], read_end = E Io_EOF \<rparr> 0)
    = (Some (map received [new_frame 1 3 [], new_frame 1 7 [0xAB]]), r') \<and> pending (fr_r r') = []"
  by (rule stream_roundtrip [where w = "\<lparr> sent = [], write_fail = None \<rparr>"
      and w' = "NewFrameWriter \<lparr> sent = wire 1 3 [] @ wire 1 7 [0xAB], write_fail = None \<rparr>"])
     (simp_all add: frame_consts new_frame_def pending_def WriteFrame_def NewFrameWriter_def
      Marshal_eq conn_write_def append_assoc [symmetric] del: append_assoc)

text \<open>
  C3: \<open>ReadFrame\<close> returns a frame exactly when the unread bytes start with the wire form of that frame
  within the size limit, and then consumes those bytes and no more.
\<close>

theorem ReadFrame_exact:
  assumes "unat (fr_maxMessageSize r) + 4 < 2 ^ 32"
  shows "(\<exists>r'. ReadFrame ReadFull now r = (Ret (Inr f), r') \<and> pending (fr_r r') = q) \<longleftrightarrow>
    (\<exists>t p. length p \<le> unat (fr_maxMessageSize r) \<and> f = new_frame ProtocolVersion t p \<and>
      pending (fr_r r) = wire ProtocolVersion t p @ q)"
proof
  assume "\<exists>r'. ReadFrame ReadFull now r = (Ret (Inr f), r') \<and> pending (fr_r r') = q"
  then show "\<exists>t p. length p \<le> unat (fr_maxMessageSize r) \<and> f = new_frame ProtocolVersion t p \<and>
      pending (fr_r r) = wire ProtocolVersion t p @ q"
    using tcp_in.ReadFrame_ok by blast
next
  assume "\<exists>t p. length p \<le> unat (fr_maxMessageSize r) \<and> f = new_frame ProtocolVersion t p \<and>
      pending (fr_r r) = wire ProtocolVersion t p @ q"
  then show "\<exists>r'. ReadFrame ReadFull now r = (Ret (Inr f), r') \<and> pending (fr_r r') = q"
    using tcp_in.ReadFrame_wire [OF _ _ assms] by fastforce
qed

theorem ReadFrame_exact_witness:
  "\<exists>r'. ReadFrame ReadFull 0
      (NewFrameReader \<lparr> segments = map (\<lambda>b. [b]) (wire 1 2 [7, 8] @ [0xF5]), read_end = E Io_EOF \<rparr> 0)
    = (Ret (Inr (new_frame 1 2 [7, 8])), r') \<and> pending (fr_r r') = [0xF5]"
proof -
  let ?r = "NewFrameReader \<lparr> segments = map (\<lambda>b. [b]) (wire 1 2 [7, 8] @ [0xF5]), read_end = E Io_EOF \<rparr> 0"
  have "pending (fr_r ?r) = wire ProtocolVersion 2 [7, 8] @ [0xF5]"
    by (simp add: pending_def NewFrameReader_def ProtocolVersion_def)
  moreover have "unat (fr_maxMessageSize ?r) = 65536"
    by (simp add: NewFrameReader_def DefaultMaxMessageSize_def)
  ultimately show ?thesis
    using ReadFrame_exact [of ?r 0 "new_frame 1 2 [7, 8]" "[0xF5]"]
    by (simp add: ProtocolVersion_def [symmetric]) force
qed

text \<open>
  C6: With a size limit that leaves room for the checksum in 32 bits, \<open>ReadFrame\<close> never panics, whatever
  the peer sends.
\<close>

theorem ReadFrame_never_panics:
  assumes "unat (fr_maxMessageSize r) + 4 < 2 ^ 32"
  shows "\<exists>res. fst (ReadFrame ReadFull now r) = Ret res"
  using tcp_in.ReadFrame_no_panic [OF assms, of now] by (cases "fst (ReadFrame ReadFull now r)") auto

theorem ReadFrame_never_panics_witness:
  "\<exists>res. fst (ReadFrame ReadFull 0
      (NewFrameReader \<lparr> segments = [[0xF5, 0x7D, 1, 4, 0, 0], [0, 9, 0, 0, 0, 0]], read_end = E Io_EOF \<rparr> 0)) = Ret res"
  by (rule ReadFrame_never_panics) (simp add: NewFrameReader_def DefaultMaxMessageSize_def)

text \<open>
  A size limit within four of \<open>2\<^sup>3\<^sup>2\<close> breaks that: for a header that announces such a length, the
  \<open>uint32\<close> sum \<open>payloadLen + CRCSize\<close> wraps around, too few bytes are read and the slice expression
  that takes the checksum panics.
\<close>

theorem ReadFrame_length_wraps:
  assumes "2 ^ 32 - 4 \<le> unat n" "n \<le> fr_maxMessageSize r"
    and "pending (fr_r r) = [MagicByte1, MagicByte2, ProtocolVersion, t] @ be32 n @ q" "3 \<le> length q"
  shows "fst (ReadFrame ReadFull now r) = Panic"
proof -
  let ?h = "[MagicByte1, MagicByte2, ProtocolVersion, t] @ be32 n"
  have n: "unat n < 2 ^ LENGTH(32)" by (rule unsigned_less)
  then have w: "unat (n + of_nat CRCSize) = unat n + 4 - 2 ^ 32"
    using assms(1) by (subst unat_plus_if_size) (simp add: CRCSize_def word_size)
  obtain s1 where s1: "ReadFull 8 (fr_r r) = (Inr ?h, s1)" "pending s1 = q"
    using tcp_in.take_enough [of 8 "fr_r r"] unfolding assms(3) by auto
  obtain s2 where s2: "ReadFull (unat (n + of_nat CRCSize)) s1 = (Inr (take (unat (n + of_nat CRCSize)) q), s2)"
  proof -
    have "unat (n + of_nat CRCSize) \<le> length q" using w n assms(4) by simp
    then show ?thesis using tcp_in.take_enough [of "unat (n + of_nat CRCSize)" s1] s1(2) that by auto
  qed
  have "\<not> fr_maxMessageSize r < n" using assms(2) by simp
  moreover have "length (take (unat (n + of_nat CRCSize)) q) < unat n + 4" using assms(1) w n by simp
  ultimately show ?thesis
    using s1(1) s2 by (simp add: ReadFrame_def FrameHeaderSize_def Let_def)
qed

theorem ReadFrame_length_wraps_witness:
  "fst (ReadFrame ReadFull 0 (NewFrameReader
      \<lparr> segments = [[0xF5, 0x7D, 1, 4, 0xFF, 0xFF, 0xFF, 0xFF, 0, 0, 0]], read_end = E Io_EOF \<rparr> 0xFFFFFFFF)) = Panic"
  by (rule ReadFrame_length_wraps [where n = "0xFFFFFFFF" and t = 4 and q = "[0, 0, 0]"])
     (simp_all add: NewFrameReader_def pending_def frame_consts be32_def)

text \<open>
  C4: \<open>Unmarshal\<close> accepts exactly the wire forms of frames of the current version whose payload is
  within the limit, and fills in the type and the payload of that frame.
\<close>

theorem Unmarshal_accepts:
  "Unmarshal f data = (f', None) \<longleftrightarrow>
     (\<exists>t p. length p \<le> DefaultMaxMessageSize \<and> data = wire ProtocolVersion t p \<and>
       f' = f\<lparr>Version := ProtocolVersion, Type := t, Payload := p\<rparr>)"
  by (metis Unmarshal_ok Unmarshal_wire)

text \<open>
  \<open>Marshal\<close> and \<open>Unmarshal\<close> are inverse: a frame of the current version either is refused for its size or
  comes back with its version, type and payload.
\<close>

theorem Marshal_Unmarshal:
  assumes "Version f = ProtocolVersion"
  shows "(case Marshal f of
      Inl e \<Rightarrow> e = E ErrMessageTooLarge \<and> DefaultMaxMessageSize < length (Payload f)
    | Inr d \<Rightarrow> Unmarshal g d = (g\<lparr>Version := Version f, Type := Type f, Payload := Payload f\<rparr>, None))"
  using assms by (simp add: Marshal_eq Unmarshal_wire)

lemma Marshal_heartbeat:
  "Marshal (new_frame 1 3 [0xAB]) = Inr [0xF5, 0x7D, 1, 3, 0, 0, 0, 1, 0xAB, 0xB4, 0x11, 0xC9, 0xA8]"
  by (simp add: Marshal_eq wire_def wire_body_def new_frame_def frame_consts crc_eval be32_def)

theorem Marshal_Unmarshal_witness:
  "Unmarshal (new_frame 0 0 []) [0xF5, 0x7D, 1, 3, 0, 0, 0, 1, 0xAB, 0xB4, 0x11, 0xC9, 0xA8]
     = (new_frame 1 3 [0xAB], None)"
  using Marshal_Unmarshal [of "new_frame 1 3 [0xAB]" "new_frame 0 0 []"]
  unfolding Marshal_heartbeat by (simp add: new_frame_def ProtocolVersion_def)

text \<open>
  C5: Damage to at most four consecutive bytes of a frame, anywhere in the header and payload or
  anywhere in the checksum, is never accepted as a frame.
\<close>

theorem corruption_detected:
  assumes "Marshal f = Inr d" "length d' = length d" "d' \<noteq> d"
    and "\<forall>j < length d. j < i \<or> i + 4 \<le> j \<longrightarrow> d' ! j = d ! j"
    and "i + 4 \<le> 8 + length (Payload f) \<or> 8 + length (Payload f) \<le> i"
  shows "\<exists>e. snd (Unmarshal g d') = Some e"
proof (rule ccontr)
  assume "\<nexists>e. snd (Unmarshal g d') = Some e"
  then have "snd (Unmarshal g d') = None" by auto
  then obtain t p where d': "d' = wire ProtocolVersion t p" by (auto simp: Unmarshal_None_iff)
  have d: "d = wire (Version f) (Type f) (Payload f)"
    using assms(1) by (simp add: Marshal_eq split: if_splits)
  have "d = d'"
    unfolding d d'
    using assms(2,4,5) d d' by (intro wire_window [where i = i]) auto
  with assms(3) show False by simp
qed

theorem corruption_detected_witness:
  "\<exists>e. snd (Unmarshal (new_frame 0 0 []) [0xF5, 0x7D, 1, 3, 0, 0, 0, 1, 0xAA, 0xB4, 0x11, 0xC9, 0xA8]) = Some e"
proof -
  let ?d = "[0xF5, 0x7D, 1, 3, 0, 0, 0, 1, 0xAB, 0xB4, 0x11, 0xC9, 0xA8] :: bytes"
  have "\<exists>e. snd (Unmarshal (new_frame 0 0 []) (?d[8 := 0xAA])) = Some e"
  proof (rule corruption_detected [OF Marshal_heartbeat, where i = 5])
    show "\<forall>j < length ?d. j < 5 \<or> 5 + 4 \<le> j \<longrightarrow> ?d[8 := 0xAA] ! j = ?d ! j"
      by (intro allI impI nth_list_update_neq) auto
  qed (simp_all add: new_frame_def)
  then show ?thesis by simp
qed

end
