(* ===== verification/Messages.thy ===== *)
theory Messages
  imports Frame
begin

text \<open>
  The protocol messages of \<open>api/proto/protocol.proto\<close> and the enum conversions of
  \<open>internal/protocol/helpers.go\<close>.  A proto3 enum is open, so an enum value is an integer; the
  declared values are constants.  A message is a record of its fields; a protobuf map is the list of
  its entries in the order in which Go's \<open>range\<close> visits them.
\<close>

type_synonym metadata = "(string \<times> string) list"

definition MESSAGE_TYPE_UNSPECIFIED :: int where "MESSAGE_TYPE_UNSPECIFIED = 0"
definition MESSAGE_TYPE_AUTH :: int where "MESSAGE_TYPE_AUTH = 1"
definition MESSAGE_TYPE_SUBSCRIBE :: int where "MESSAGE_TYPE_SUBSCRIBE = 2"
definition MESSAGE_TYPE_HEARTBEAT :: int where "MESSAGE_TYPE_HEARTBEAT = 3"
definition MESSAGE_TYPE_DATA_BATCH :: int where "MESSAGE_TYPE_DATA_BATCH = 4"
definition MESSAGE_TYPE_ERROR :: int where "MESSAGE_TYPE_ERROR = 5"
definition MESSAGE_TYPE_ACK :: int where "MESSAGE_TYPE_ACK = 6"
definition MESSAGE_TYPE_PONG :: int where "MESSAGE_TYPE_PONG = 7"

definition SUBSCRIPTION_MODE_UNSPECIFIED :: int where "SUBSCRIPTION_MODE_UNSPECIFIED = 0"
definition SUBSCRIPTION_MODE_SECOND :: int where "SUBSCRIPTION_MODE_SECOND = 1"
definition SUBSCRIPTION_MODE_MINUTE :: int where "SUBSCRIPTION_MODE_MINUTE = 2"

definition ERROR_CODE_UNSPECIFIED :: int where "ERROR_CODE_UNSPECIFIED = 0"
definition ERROR_CODE_INVALID_AUTH :: int where "ERROR_CODE_INVALID_AUTH = 1"
definition ERROR_CODE_AUTH_REQUIRED :: int where "ERROR_CODE_AUTH_REQUIRED = 2"
definition ERROR_CODE_ALREADY_AUTHENTICATED :: int where "ERROR_CODE_ALREADY_AUTHENTICATED = 3"
definition ERROR_CODE_INVALID_SUBSCRIPTION :: int where "ERROR_CODE_INVALID_SUBSCRIPTION = 4"
definition ERROR_CODE_ALREADY_SUBSCRIBED :: int where "ERROR_CODE_ALREADY_SUBSCRIBED = 5"
definition ERROR_CODE_NOT_SUBSCRIBED :: int where "ERROR_CODE_NOT_SUBSCRIBED = 6"
definition ERROR_CODE_HEARTBEAT_TIMEOUT :: int where "ERROR_CODE_HEARTBEAT_TIMEOUT = 7"
definition ERROR_CODE_INVALID_MESSAGE :: int where "ERROR_CODE_INVALID_MESSAGE = 8"
definition ERROR_CODE_CHECKSUM_FAILED :: int where "ERROR_CODE_CHECKSUM_FAILED = 9"
definition ERROR_CODE_PROTOCOL_VERSION :: int where "ERROR_CODE_PROTOCOL_VERSION = 10"
definition ERROR_CODE_MESSAGE_TOO_LARGE :: int where "ERROR_CODE_MESSAGE_TOO_LARGE = 11"
definition ERROR_CODE_RATE_LIMITED :: int where "ERROR_CODE_RATE_LIMITED = 12"
definition ERROR_CODE_INTERNAL_ERROR :: int where "ERROR_CODE_INTERNAL_ERROR = 13"

lemmas pb_types = MESSAGE_TYPE_UNSPECIFIED_def MESSAGE_TYPE_AUTH_def MESSAGE_TYPE_SUBSCRIBE_def
  MESSAGE_TYPE_HEARTBEAT_def MESSAGE_TYPE_DATA_BATCH_def MESSAGE_TYPE_ERROR_def MESSAGE_TYPE_ACK_def
  MESSAGE_TYPE_PONG_def
lemmas pb_modes = SUBSCRIPTION_MODE_UNSPECIFIED_def SUBSCRIPTION_MODE_SECOND_def SUBSCRIPTION_MODE_MINUTE_def
lemmas pb_codes = ERROR_CODE_UNSPECIFIED_def ERROR_CODE_INVALID_AUTH_def ERROR_CODE_AUTH_REQUIRED_def
  ERROR_CODE_ALREADY_AUTHENTICATED_def ERROR_CODE_INVALID_SUBSCRIPTION_def ERROR_CODE_ALREADY_SUBSCRIBED_def
  ERROR_CODE_NOT_SUBSCRIBED_def ERROR_CODE_HEARTBEAT_TIMEOUT_def ERROR_CODE_INVALID_MESSAGE_def
  ERROR_CODE_CHECKSUM_FAILED_def ERROR_CODE_PROTOCOL_VERSION_def ERROR_CODE_MESSAGE_TOO_LARGE_def
  ERROR_CODE_RATE_LIMITED_def ERROR_CODE_INTERNAL_ERROR_def

record AuthRequest =
  auth_Username :: string
  auth_Password :: string
  auth_ClientId :: string
  auth_Version :: string

record SubscribeRequest =
  sub_Mode :: int
  sub_Symbols :: "string list"
  sub_StartTimeMs :: int
  sub_Metadata :: metadata

record HeartbeatRequest =
  hb_TimestampMs :: int
  hb_Sequence :: u64

record HeartbeatResponse =
  hbr_ClientTimestampMs :: int
  hbr_ServerTimestampMs :: int
  hbr_Sequence :: u64

record Tick =
  tick_Symbol :: string
  tick_TimestampMs :: int
  tick_Price :: f64
  tick_Volume :: f64
  tick_Bid :: f64
  tick_Ask :: f64
  tick_BidSize :: int
  tick_AskSize :: int
  tick_Mode :: int
  tick_Metadata :: metadata

record DataBatch =
  batch_Ticks :: "Tick option list"
  batch_BatchTimestampMs :: int
  batch_BatchSequence :: u32
  batch_IsSnapshot :: bool

record ErrorResponse =
  err_Code :: int
  err_Message :: string
  err_Details :: string
  err_TimestampMs :: int

record AckResponse =
  ack_AckType :: int
  ack_Success :: bool
  ack_Message :: string
  ack_TimestampMs :: int
  ack_Metadata :: metadata

text \<open>
  The protobuf library is a parameter of everything that encodes or decodes: \<open>proto.Marshal\<close> and
  \<open>proto.Unmarshal\<close> on the messages the server sends and receives.
\<close>

record protobuf =
  marshal_Ack :: "AckResponse \<Rightarrow> go_error + bytes"
  marshal_Error :: "ErrorResponse \<Rightarrow> go_error + bytes"
  marshal_Pong :: "HeartbeatResponse \<Rightarrow> go_error + bytes"
  marshal_Batch :: "DataBatch \<Rightarrow> go_error + bytes"
  unmarshal_Auth :: "bytes \<Rightarrow> go_error + AuthRequest"
  unmarshal_Heartbeat :: "bytes \<Rightarrow> go_error + HeartbeatRequest"
  unmarshal_Subscribe :: "bytes \<Rightarrow> go_error + SubscribeRequest"

section \<open>Conversions\<close>

definition ConvertPBMessageType :: "int \<Rightarrow> u8" where
  "ConvertPBMessageType pbType =
    (if pbType = MESSAGE_TYPE_AUTH then MessageTypeAuth
     else if pbType = MESSAGE_TYPE_SUBSCRIBE then MessageTypeSubscribe
     else if pbType = MESSAGE_TYPE_HEARTBEAT then MessageTypeHeartbeat
     else if pbType = MESSAGE_TYPE_DATA_BATCH then MessageTypeDataBatch
     else if pbType = MESSAGE_TYPE_ERROR then MessageTypeError
     else if pbType = MESSAGE_TYPE_ACK then MessageTypeACK
     else if pbType = MESSAGE_TYPE_PONG then MessageTypePong
     else 0)"

definition ConvertToProtobufMessageType :: "u8 \<Rightarrow> int" where
  "ConvertToProtobufMessageType msgType =
    (if msgType = MessageTypeAuth then MESSAGE_TYPE_AUTH
     else if msgType = MessageTypeSubscribe then MESSAGE_TYPE_SUBSCRIBE
     else if msgType = MessageTypeHeartbeat then MESSAGE_TYPE_HEARTBEAT
     else if msgType = MessageTypeDataBatch then MESSAGE_TYPE_DATA_BATCH
     else if msgType = MessageTypeError then MESSAGE_TYPE_ERROR
     else if msgType = MessageTypeACK then MESSAGE_TYPE_ACK
     else if msgType = MessageTypePong then MESSAGE_TYPE_PONG
     else MESSAGE_TYPE_UNSPECIFIED)"

definition known_type :: "u8 \<Rightarrow> bool" where
  "known_type t \<longleftrightarrow> t \<in> {MessageTypeAuth, MessageTypeSubscribe, MessageTypeHeartbeat, MessageTypeDataBatch,
     MessageTypeError, MessageTypeACK, MessageTypePong}"

lemma known_type_iff: "known_type t \<longleftrightarrow> ConvertToProtobufMessageType t \<noteq> MESSAGE_TYPE_UNSPECIFIED"
  by (auto simp: known_type_def ConvertToProtobufMessageType_def pb_types)

lemma Convert_inverse:
  "known_type t \<Longrightarrow> ConvertPBMessageType (ConvertToProtobufMessageType t) = t"
  by (auto simp: known_type_def ConvertToProtobufMessageType_def ConvertPBMessageType_def pb_types message_types)

lemma Convert_inverse_pb:
  "1 \<le> e \<Longrightarrow> e \<le> 7 \<Longrightarrow> ConvertToProtobufMessageType (ConvertPBMessageType e) = e"
  by (auto simp: ConvertToProtobufMessageType_def ConvertPBMessageType_def pb_types message_types)

end
