(* ===== verification/GoStrings.thy ===== *)
theory GoStrings
  imports Prelude "HOL-Library.Char_ord"
begin

text \<open>
  Go strings and the parts of \<open>unicode/utf8\<close>, \<open>unicode\<close>, \<open>strings\<close> and \<open>regexp\<close> that the server uses.
  A Go string is a sequence of bytes, so it is a HOL \<open>string\<close>, whose characters are the bytes.  A rune is a
  natural number.  \<open>decode_rune\<close> and \<open>decode_last_rune\<close> are \<open>utf8.DecodeRune\<close> and
  \<open>utf8.DecodeLastRune\<close>: an ill-formed sequence decodes to U+FFFD with width one.
\<close>

section \<open>UTF-8\<close>

definition RuneError :: nat where "RuneError = 0xFFFD"

abbreviation byte_of :: "char \<Rightarrow> nat" where
  "byte_of c \<equiv> of_char c"

definition cont :: "nat \<Rightarrow> nat \<Rightarrow> nat \<Rightarrow> bool" where
  "cont lo hi b \<longleftrightarrow> lo \<le> b \<and> b \<le> hi"

text \<open>The accept ranges of the second byte after a given first byte.\<close>

definition second_lo :: "nat \<Rightarrow> nat" where
  "second_lo b = (if b = 0xE0 then 0xA0 else if b = 0xF0 then 0x90 else 0x80)"

definition second_hi :: "nat \<Rightarrow> nat" where
  "second_hi b = (if b = 0xED then 0x9F else if b = 0xF4 then 0x8F else 0xBF)"

definition width :: "nat \<Rightarrow> nat" where
  "width b = (if b < 0x80 then 1 else if 0xC2 \<le> b \<and> b \<le> 0xDF then 2
     else if 0xE0 \<le> b \<and> b \<le> 0xEF then 3 else if 0xF0 \<le> b \<and> b \<le> 0xF4 then 4 else 0)"

fun decode_bytes :: "nat list \<Rightarrow> nat \<times> nat" where
  "decode_bytes [] = (RuneError, 0)"
| "decode_bytes (b0 # bs) =
    (if width b0 = 1 then (b0, 1)
     else (case bs of
       b1 # bs' \<Rightarrow>
         if width b0 = 0 \<or> \<not> cont (second_lo b0) (second_hi b0) b1 then (RuneError, 1)
         else if width b0 = 2 then (b0 mod 32 * 64 + b1 mod 64, 2)
         else (case bs' of
           b2 # bs'' \<Rightarrow>
             if \<not> cont 0x80 0xBF b2 then (RuneError, 1)
             else if width b0 = 3 then (b0 mod 16 * 4096 + b1 mod 64 * 64 + b2 mod 64, 3)
             else (case bs'' of
               b3 # _ \<Rightarrow>
                 if \<not> cont 0x80 0xBF b3 then (RuneError, 1)
                 else (b0 mod 8 * 262144 + b1 mod 64 * 4096 + b2 mod 64 * 64 + b3 mod 64, 4)
             | [] \<Rightarrow> (RuneError, 1))
         | [] \<Rightarrow> (RuneError, 1))
     | [] \<Rightarrow> (RuneError, 1)))"

definition decode_rune :: "string \<Rightarrow> nat \<times> nat" where
  "decode_rune s = decode_bytes (map byte_of (take 4 s))"

declare decode_bytes.simps [simp del]

lemma decode_bytes_width: "bs \<noteq> [] \<Longrightarrow> 1 \<le> snd (decode_bytes bs) \<and> snd (decode_bytes bs) \<le> length bs"
  by (cases bs) (auto simp: decode_bytes.simps split: list.split)

lemma decode_rune_width: "s \<noteq> [] \<Longrightarrow> 1 \<le> snd (decode_rune s) \<and> snd (decode_rune s) \<le> length s"
  using decode_bytes_width [of "map byte_of (take 4 s)"] by (simp add: decode_rune_def)

text \<open>The runes that \<open>for _, r := range s\<close> visits.\<close>

function runes :: "string \<Rightarrow> nat list" where
  "runes s = (if s = [] then [] else fst (decode_rune s) # runes (drop (snd (decode_rune s)) s))"
  by pat_completeness auto
termination
  by (relation "measure length") (use decode_rune_width in \<open>auto simp: Suc_le_eq\<close>)

declare runes.simps [simp del]

definition encode_bytes :: "nat \<Rightarrow> nat list" where
  "encode_bytes r = (if r < 0x80 then [r]
        else if r < 0x800 then [0xC0 + r div 64, 0x80 + r mod 64]
        else if r < 0x10000 then [0xE0 + r div 4096, 0x80 + r div 64 mod 64, 0x80 + r mod 64]
        else [0xF0 + r div 262144, 0x80 + r div 4096 mod 64, 0x80 + r div 64 mod 64, 0x80 + r mod 64])"

definition encode_rune :: "nat \<Rightarrow> string" where
  "encode_rune r = map char_of (encode_bytes (if (0xD800 \<le> r \<and> r \<le> 0xDFFF) \<or> 0x10FFFF < r then RuneError else r))"

definition encode_runes :: "nat list \<Rightarrow> string" where
  "encode_runes rs = concat (map encode_rune rs)"

definition valid_rune :: "nat \<Rightarrow> bool" where
  "valid_rune r \<longleftrightarrow> r \<le> 0x10FFFF \<and> \<not> (0xD800 \<le> r \<and> r \<le> 0xDFFF)"

definition RuneStart :: "nat \<Rightarrow> bool" where
  "RuneStart b \<longleftrightarrow> b div 64 \<noteq> 2"

text \<open>\<open>last_start s k\<close> scans back from the last byte for the start of the last rune, \<open>k\<close> bytes at most.\<close>

fun last_start :: "string \<Rightarrow> nat \<Rightarrow> nat \<Rightarrow> nat" where
  "last_start s start 0 = start"
| "last_start s start (Suc k) =
    (if start = 0 then 0 else if RuneStart (byte_of (s ! (start - 1))) then start - 1 else last_start s (start - 1) k)"

definition decode_last_rune :: "string \<Rightarrow> nat \<times> nat" where
  "decode_last_rune s =
    (if s = [] then (RuneError, 0)
     else if byte_of (last s) < 0x80 then (byte_of (last s), 1)
     else let start = last_start s (length s - 1) 3; (r, size) = decode_rune (drop start s) in
          if start + size \<noteq> length s then (RuneError, 1) else (r, size))"

section \<open>Trimming\<close>

definition IsSpace :: "nat \<Rightarrow> bool" where
  "IsSpace r \<longleftrightarrow> r \<in> {0x9, 0xA, 0xB, 0xC, 0xD, 0x20, 0x85, 0xA0, 0x1680, 0x2028, 0x2029, 0x202F, 0x205F, 0x3000}
     \<or> (0x2000 \<le> r \<and> r \<le> 0x200A)"

function trim_left :: "(nat \<Rightarrow> bool) \<Rightarrow> string \<Rightarrow> string" where
  "trim_left f s = (if s = [] then [] else
     if f (fst (decode_rune s)) then trim_left f (drop (snd (decode_rune s)) s) else s)"
  by pat_completeness auto
termination
  by (relation "measure (length \<circ> snd)") (use decode_rune_width in \<open>auto simp: Suc_le_eq\<close>)

declare trim_left.simps [simp del]

lemma decode_last_rune_width:
  "s \<noteq> [] \<Longrightarrow> 1 \<le> snd (decode_last_rune s) \<and> snd (decode_last_rune s) \<le> length s"
proof -
  assume s: "s \<noteq> []"
  have "last_start s start k \<le> start" for start k
    by (induction k arbitrary: start) (auto simp: le_diff_conv split: if_splits intro: le_SucI, metis diff_le_self le_trans)
  then have "drop (last_start s (length s - 1) 3) s \<noteq> []"
    using s by (metis One_nat_def Suc_pred drop_eq_Nil le_imp_less_Suc length_greater_0_conv not_less)
  from decode_rune_width [OF this] show ?thesis using s
    by (auto simp: decode_last_rune_def Let_def case_prod_beta Suc_le_eq)
qed

function trim_right :: "(nat \<Rightarrow> bool) \<Rightarrow> string \<Rightarrow> string" where
  "trim_right f s = (if s = [] then [] else
     if f (fst (decode_last_rune s)) then trim_right f (take (length s - snd (decode_last_rune s)) s) else s)"
  by pat_completeness auto
termination
  by (relation "measure (length \<circ> snd)") (use decode_last_rune_width in \<open>auto simp: Suc_le_eq\<close>)

declare trim_right.simps [simp del]

definition TrimSpace :: "string \<Rightarrow> string" where
  "TrimSpace s = trim_right IsSpace (trim_left IsSpace s)"

definition Trim_spaces :: "string \<Rightarrow> string" where
  "Trim_spaces s = dropWhile (\<lambda>c. c = CHR '' '') (rev (dropWhile (\<lambda>c. c = CHR '' '') (rev s)))"

section \<open>Encoding and decoding\<close>

lemma low_bits:
  "q < 32 \<Longrightarrow> (192 + q) mod 32 = (q :: nat)" "q < 16 \<Longrightarrow> (224 + q) mod 16 = q" "q < 8 \<Longrightarrow> (240 + q) mod 8 = q"
  "q < 64 \<Longrightarrow> (128 + q) mod 64 = q"
  using mod_mult_self4 [of 32 6 q] mod_mult_self4 [of 16 14 q] mod_mult_self4 [of 8 30 q] mod_mult_self4 [of 64 2 q]
  by auto

lemmas utf8_defs = width_def cont_def second_lo_def second_hi_def

lemma decode_bytes_2: "2 \<le> q \<Longrightarrow> q < 32 \<Longrightarrow> m < 64 \<Longrightarrow>
   decode_bytes ((192 + q) # (128 + m) # bs) = (q * 64 + m, 2)"
  by (simp add: decode_bytes.simps utf8_defs low_bits)

lemma decode_bytes_3: "q < 16 \<Longrightarrow> m < 64 \<Longrightarrow> n < 64 \<Longrightarrow> (q = 0 \<Longrightarrow> 32 \<le> m) \<Longrightarrow> (q = 13 \<Longrightarrow> m < 32) \<Longrightarrow>
   decode_bytes ((224 + q) # (128 + m) # (128 + n) # bs) = (q * 4096 + m * 64 + n, 3)"
  by (auto simp: decode_bytes.simps utf8_defs low_bits)

lemma decode_bytes_4: "q < 5 \<Longrightarrow> m < 64 \<Longrightarrow> n < 64 \<Longrightarrow> k < 64 \<Longrightarrow> (q = 0 \<Longrightarrow> 16 \<le> m) \<Longrightarrow> (q = 4 \<Longrightarrow> m < 16) \<Longrightarrow>
   decode_bytes ((240 + q) # (128 + m) # (128 + n) # (128 + k) # bs) = (q * 262144 + m * 4096 + n * 64 + k, 4)"
  by (auto simp: decode_bytes.simps utf8_defs low_bits)

lemma decode_encode_bytes:
  assumes "valid_rune r"
  shows "decode_bytes (encode_bytes r @ bs) = (r, length (encode_bytes r))"
proof -
  define x n where "x = r div 64" and "n = r mod 64"
  have r: "r = x * 64 + n" "n < 64" by (simp_all add: x_def n_def)
  define y m where "y = x div 64" and "m = x mod 64"
  have x: "x = y * 64 + m" "m < 64" by (simp_all add: y_def m_def)
  define q k where "q = y div 64" and "k = y mod 64"
  have y: "y = q * 64 + k" "k < 64" by (simp_all add: q_def k_def)
  have d: "r div 64 = x" "r mod 64 = n" "r div 4096 = y" "x mod 64 = m" "r div 262144 = q" "y mod 64 = k"
    by (simp_all add: x_def n_def y_def m_def q_def k_def div_mult2_eq [symmetric])
  consider "r < 0x80" | "0x80 \<le> r" "r < 0x800" | "0x800 \<le> r" "r < 0x10000" | "0x10000 \<le> r" by linarith
  then show ?thesis
  proof cases
    case 1
    then show ?thesis by (simp add: encode_bytes_def decode_bytes.simps width_def)
  next
    case 2
    then have "2 \<le> x" "x < 32" using r by linarith+
    moreover have "encode_bytes r = [192 + x, 128 + n]" using 2 d by (simp add: encode_bytes_def)
    ultimately show ?thesis using r decode_bytes_2 [of x n bs] by simp
  next
    case 3
    then have "y < 16" "y = 0 \<Longrightarrow> 32 \<le> m" using r x by linarith+
    moreover have "y = 13 \<Longrightarrow> m < 32" using assms r x unfolding valid_rune_def by linarith
    moreover have "encode_bytes r = [224 + y, 128 + m, 128 + n]" using 3 d by (simp add: encode_bytes_def)
    ultimately show ?thesis using r x decode_bytes_3 [of y m n bs] by simp
  next
    case 4
    then have "q = 0 \<Longrightarrow> 16 \<le> k" using r x y by linarith
    moreover have "q < 5" "q = 4 \<Longrightarrow> k < 16" using assms r x y unfolding valid_rune_def by linarith+
    moreover have "encode_bytes r = [240 + q, 128 + k, 128 + m, 128 + n]" using 4 d by (simp add: encode_bytes_def)
    ultimately show ?thesis using r x y decode_bytes_4 [of q k m n bs] by simp
  qed
qed

lemma encode_bytes_small: "valid_rune r \<Longrightarrow> b \<in> set (encode_bytes r) \<Longrightarrow> b < 256"
  by (auto simp: encode_bytes_def valid_rune_def split: if_splits)

lemma encode_rune_valid: "valid_rune r \<Longrightarrow> encode_rune r = map char_of (encode_bytes r)"
  by (auto simp: encode_rune_def valid_rune_def)

lemma length_encode_rune: "1 \<le> length (encode_rune r)" "length (encode_rune r) \<le> 4"
  by (auto simp: encode_rune_def encode_bytes_def RuneError_def)

lemma bytes_encode_rune: "valid_rune r \<Longrightarrow> map byte_of (encode_rune r) = encode_bytes r"
  by (simp add: encode_rune_valid encode_bytes_small map_idI)

lemma decode_encode_rune [simp]:
  assumes "valid_rune r"
  shows "decode_rune (encode_rune r @ s) = (r, length (encode_rune r))"
proof -
  have "map byte_of (take 4 (encode_rune r @ s)) =
      encode_bytes r @ map byte_of (take (4 - length (encode_rune r)) s)"
    using length_encode_rune(2) [of r] by (simp add: bytes_encode_rune [OF assms])
  then show ?thesis
    using decode_encode_bytes [OF assms] by (simp add: decode_rune_def encode_rune_valid [OF assms])
qed

lemma encode_runes_simps [simp]:
  "encode_runes [] = []" "encode_runes (r # rs) = encode_rune r @ encode_runes rs"
  "encode_runes (rs @ rs') = encode_runes rs @ encode_runes rs'"
  by (simp_all add: encode_runes_def)

lemma runes_encode_runes: "list_all valid_rune rs \<Longrightarrow> runes (encode_runes rs) = rs"
proof (induction rs)
  case (Cons r rs)
  have "encode_rune r \<noteq> []" using length_encode_rune(1) [of r] by auto
  with Cons show ?case by (simp add: runes.simps [of "encode_rune r @ _"])
qed (simp add: runes.simps)

lemma cont_form: "cont lo hi b \<Longrightarrow> 0x80 \<le> lo \<Longrightarrow> hi \<le> 0xBF \<Longrightarrow> \<exists>m. b = 128 + m \<and> m < 64"
  by (rule exI [of _ "b - 128"]) (auto simp: cont_def)

lemma second_bounds: "0x80 \<le> second_lo b" "second_hi b \<le> 0xBF"
  by (auto simp: second_lo_def second_hi_def)

lemma decode_bytes_errors:
  "width b0 = 1 \<Longrightarrow> decode_bytes (b0 # bs) = (b0, 1)"
  "width b0 \<noteq> 1 \<Longrightarrow> decode_bytes [b0] = (RuneError, 1)"
  "width b0 \<noteq> 1 \<Longrightarrow> width b0 = 0 \<or> \<not> cont (second_lo b0) (second_hi b0) b1 \<Longrightarrow>
     decode_bytes (b0 # b1 # bs) = (RuneError, 1)"
  "width b0 \<noteq> 1 \<Longrightarrow> width b0 \<noteq> 2 \<Longrightarrow> decode_bytes [b0, b1] = (RuneError, 1)"
  "width b0 \<noteq> 1 \<Longrightarrow> width b0 \<noteq> 2 \<Longrightarrow> \<not> cont 0x80 0xBF b2 \<Longrightarrow> decode_bytes (b0 # b1 # b2 # bs) = (RuneError, 1)"
  "width b0 \<noteq> 1 \<Longrightarrow> width b0 \<noteq> 2 \<Longrightarrow> width b0 \<noteq> 3 \<Longrightarrow> decode_bytes [b0, b1, b2] = (RuneError, 1)"
  "width b0 \<noteq> 1 \<Longrightarrow> width b0 \<noteq> 2 \<Longrightarrow> width b0 \<noteq> 3 \<Longrightarrow> \<not> cont 0x80 0xBF b3 \<Longrightarrow>
     decode_bytes (b0 # b1 # b2 # b3 # bs) = (RuneError, 1)"
  by (simp_all add: decode_bytes.simps)

lemma decode_bytes_cases:
  "decode_bytes bs \<in> {(RuneError, 0), (RuneError, 1)} \<or> (\<exists>b bs'. bs = b # bs' \<and> b < 0x80 \<and> decode_bytes bs = (b, 1)) \<or>
   (\<exists>q m bs'. bs = (192 + q) # (128 + m) # bs' \<and> 2 \<le> q \<and> q < 32 \<and> m < 64) \<or>
   (\<exists>q m n bs'. bs = (224 + q) # (128 + m) # (128 + n) # bs' \<and> q < 16 \<and> m < 64 \<and> n < 64 \<and>
      (q = 0 \<longrightarrow> 32 \<le> m) \<and> (q = 13 \<longrightarrow> m < 32)) \<or>
   (\<exists>q m n k bs'. bs = (240 + q) # (128 + m) # (128 + n) # (128 + k) # bs' \<and> q < 5 \<and> m < 64 \<and> n < 64 \<and> k < 64 \<and>
      (q = 0 \<longrightarrow> 16 \<le> m) \<and> (q = 4 \<longrightarrow> m < 16))"
  (is "?err \<or> ?one \<or> ?two \<or> ?three \<or> ?four")
proof (rule ccontr)
  assume "\<not> (?err \<or> ?one \<or> ?two \<or> ?three \<or> ?four)"
  then have err: "\<not> ?err" and no: "\<not> ?one" "\<not> ?two" "\<not> ?three" "\<not> ?four" by blast+
  obtain b0 bs1 where b0: "bs = b0 # bs1" using err decode_bytes.simps(1) by (cases bs) auto
  have w: "width b0 \<noteq> 1"
    using no(1) b0 decode_bytes_errors(1) [of b0] by (auto simp: width_def split: if_splits)
  obtain b1 bs2 where b1: "bs1 = b1 # bs2" "width b0 \<noteq> 0" "cont (second_lo b0) (second_hi b0) b1"
    using err decode_bytes_errors(2,3) [OF w] unfolding b0 by (cases bs1) auto
  obtain m where m: "b1 = 128 + m" "m < 64" using cont_form [OF b1(3) second_bounds] by auto
  have w2: "width b0 \<noteq> 2"
  proof
    assume "width b0 = 2"
    then have "194 \<le> b0" "b0 \<le> 223" by (auto simp: width_def split: if_splits)
    then obtain q where q: "b0 = 192 + q" "2 \<le> q" "q < 32" using that [of "b0 - 192"] by simp
    with no(2) m(2) show False unfolding b0 b1(1) m(1) q(1) by blast
  qed
  obtain b2 bs3 where b2: "bs2 = b2 # bs3" "cont 0x80 0xBF b2"
    using err decode_bytes_errors(4,5) [OF w w2] unfolding b0 b1(1) by (cases bs2) auto
  obtain n where n: "b2 = 128 + n" "n < 64" using cont_form [OF b2(2)] by auto
  have w3: "width b0 \<noteq> 3"
  proof
    assume "width b0 = 3"
    then have "224 \<le> b0" "b0 \<le> 239" by (auto simp: width_def split: if_splits)
    then obtain q where q: "b0 = 224 + q" "q < 16" using that [of "b0 - 224"] by simp
    have "q = 0 \<longrightarrow> 32 \<le> m" "q = 13 \<longrightarrow> m < 32"
      using b1(3) m q by (auto simp: cont_def second_lo_def second_hi_def)
    with no(3) q(2) m(2) n(2) show False unfolding b0 b1(1) b2(1) q(1) m(1) n(1) by blast
  qed
  then have "240 \<le> b0" "b0 \<le> 244" using b1(2) w w2 by (auto simp: width_def split: if_splits)
  then obtain q where q: "b0 = 240 + q" "q < 5" using that [of "b0 - 240"] by simp
  have "bs3 \<noteq> []" using err decode_bytes_errors(6) [OF w w2 w3] unfolding b0 b1(1) b2(1) by auto
  then obtain b3 bs4 where b3: "bs3 = b3 # bs4" by (cases bs3) auto
  have c3: "cont 0x80 0xBF b3"
    using err decode_bytes_errors(7) [OF w w2 w3, of b3] unfolding b0 b1(1) b2(1) b3 by auto
  obtain k where k: "b3 = 128 + k" "k < 64" using cont_form [OF c3] by auto
  have "q = 0 \<longrightarrow> 16 \<le> m" "q = 4 \<longrightarrow> m < 16"
    using b1(3) m q by (auto simp: cont_def second_lo_def second_hi_def)
  with no(4) q(2) m(2) n(2) k(2) show False unfolding b0 b1(1) b2(1) b3 q(1) m(1) n(1) k(1) by blast
qed

lemma no_surrogate:
  fixes q m n :: nat
  assumes "m < 64" "n < 64" "q = 13 \<longrightarrow> m < 32"
  shows "\<not> (55296 \<le> q * 4096 + m * 64 + n \<and> q * 4096 + m * 64 + n \<le> 57343)"
proof -
  consider "q \<le> 12" | "q = 13" | "14 \<le> q" by linarith
  then show ?thesis using assms by cases auto
qed

lemma decode_bytes_valid: "valid_rune (fst (decode_bytes bs))"
  using decode_bytes_cases [of bs]
  by (elim disjE exE conjE)
     (use no_surrogate in \<open>auto simp: valid_rune_def RuneError_def decode_bytes_2 decode_bytes_3 decode_bytes_4\<close>)

lemma runes_valid: "list_all valid_rune (runes s)"
proof (induction s rule: runes.induct)
  case (1 s)
  show ?case
  proof (cases "s = []")
    case False
    then show ?thesis
      using 1 decode_bytes_valid by (simp add: runes.simps [of s] decode_rune_def)
  qed (simp add: runes.simps)
qed

lemma char_of_space [simp]: "char_of (32 :: nat) = CHR '' ''"
  using char_of_char [of "CHR '' ''"] by simp

lemma space_in_encode_rune: "CHR '' '' \<in> set (encode_rune r) \<Longrightarrow> r = 32 \<and> encode_rune r = '' ''"
proof -
  assume "CHR '' '' \<in> set (encode_rune r)"
  then have "32 \<in> byte_of ` set (encode_rune r)" by (rule rev_image_eqI) simp
  then show ?thesis
    by (auto simp: encode_rune_def encode_bytes_def RuneError_def mod_less split: if_splits)
qed

lemma dropWhile_encode_runes:
  "dropWhile (\<lambda>c. c = CHR '' '') (encode_runes rs) = encode_runes (dropWhile (\<lambda>r. r = 32) rs)"
proof (induction rs)
  case (Cons r rs)
  have sp: "encode_rune 32 = '' ''" by (simp add: encode_rune_def encode_bytes_def)
  obtain c cs where c: "encode_rune r = c # cs" using length_encode_rune(1) [of r] by (cases "encode_rune r") auto
  show ?case
  proof (cases "r = 32")
    case True
    then show ?thesis using Cons sp by simp
  next
    case False
    then have "c \<noteq> CHR '' ''" using space_in_encode_rune [of r] c by auto
    then show ?thesis using False c by simp
  qed
qed simp

lemma dropWhile_rev_encode_runes:
  "dropWhile (\<lambda>c. c = CHR '' '') (rev (encode_runes rs)) = rev (encode_runes (rev (dropWhile (\<lambda>r. r = 32) (rev rs))))"
proof (induction rs rule: rev_induct)
  case (snoc r rs)
  have sp: "encode_rune 32 = '' ''" by (simp add: encode_rune_def encode_bytes_def)
  obtain c cs where c: "rev (encode_rune r) = c # cs"
    using length_encode_rune(1) [of r] by (cases "rev (encode_rune r)") auto
  show ?case
  proof (cases "r = 32")
    case True
    then show ?thesis using snoc sp by simp
  next
    case False
    have "c \<in> set (encode_rune r)" using c by (metis list.set_intros(1) set_rev)
    then have "c \<noteq> CHR '' ''" using space_in_encode_rune [of r] False by auto
    then show ?thesis using False c by simp
  qed
qed simp

definition trim_runes :: "nat list \<Rightarrow> nat list" where
  "trim_runes rs = dropWhile (\<lambda>r. r = 32) (rev (dropWhile (\<lambda>r. r = 32) (rev rs)))"

lemma Trim_encode_runes: "Trim_spaces (encode_runes rs) = encode_runes (trim_runes rs)"
  by (simp add: Trim_spaces_def trim_runes_def dropWhile_rev_encode_runes dropWhile_encode_runes)

lemma set_trim_runes: "set (trim_runes rs) \<subseteq> set rs"
  by (auto simp: trim_runes_def dest!: set_dropWhileD)

lemma trim_runes_ends:
  "trim_runes rs \<noteq> [] \<Longrightarrow> hd (trim_runes rs) \<noteq> 32 \<and> last (trim_runes rs) \<noteq> 32"
proof -
  let ?u = "rev (dropWhile (\<lambda>r. r = 32) (rev rs))"
  assume ne: "trim_runes rs \<noteq> []"
  have "trim_runes rs = []" if "?u = []" unfolding trim_runes_def that by simp
  with ne have "?u \<noteq> []" by blast
  then have "last ?u \<noteq> 32" using hd_dropWhile [of "\<lambda>r. r = 32" "rev rs"] by (simp add: last_rev)
  moreover have "last (trim_runes rs) = last ?u"
    using ne unfolding trim_runes_def by (metis last_appendR takeWhile_dropWhile_id)
  ultimately show ?thesis using ne hd_dropWhile [of "\<lambda>r. r = 32" ?u] by (simp add: trim_runes_def)
qed

lemma trim_runes_id: "rs = [] \<or> hd rs \<noteq> 32 \<and> last rs \<noteq> 32 \<Longrightarrow> trim_runes rs = rs"
proof -
  assume a: "rs = [] \<or> hd rs \<noteq> 32 \<and> last rs \<noteq> 32"
  then have "dropWhile (\<lambda>r. r = 32) (rev rs) = rev rs" by (auto simp: dropWhile_eq_self_iff hd_rev)
  then have "trim_runes rs = dropWhile (\<lambda>r. r = 32) rs" by (simp add: trim_runes_def)
  then show ?thesis using a by (auto simp: dropWhile_eq_self_iff)
qed

lemma trim_runes_idem: "trim_runes (trim_runes rs) = trim_runes rs"
  by (rule trim_runes_id) (use trim_runes_ends in blast)

end
