(* ===== verification/GoRegexp.thy ===== *)
theory GoRegexp
  imports Prelude
begin

text \<open>
  Regular expressions of Go's \<open>regexp\<close> package, as far as the validators use them: anchored patterns
  \<open>^...$\<close> over ASCII character classes with concatenation, \<open>+\<close>, \<open>?\<close> and \<open>*\<close>.  \<open>MatchString\<close> decides by
  derivatives.  The classes contain ASCII characters only, so matching bytes and matching runes
  agree.  Without the flag \<open>m\<close> the anchor \<open>$\<close> matches at the very end of the text only.
\<close>

datatype rx = Never | Empty | Cls "char list" | Cat rx rx | Or rx rx | Many rx

definition Plus :: "rx \<Rightarrow> rx" where "Plus r = Cat r (Many r)"
definition Opt :: "rx \<Rightarrow> rx" where "Opt r = Or r Empty"

fun nullable :: "rx \<Rightarrow> bool" where
  "nullable Never = False"
| "nullable Empty = True"
| "nullable (Cls cs) = False"
| "nullable (Cat r s) = (nullable r \<and> nullable s)"
| "nullable (Or r s) = (nullable r \<or> nullable s)"
| "nullable (Many r) = True"

fun deriv :: "char \<Rightarrow> rx \<Rightarrow> rx" where
  "deriv c Never = Never"
| "deriv c Empty = Never"
| "deriv c (Cls cs) = (if c \<in> set cs then Empty else Never)"
| "deriv c (Cat r s) = (if nullable r then Or (Cat (deriv c r) s) (deriv c s) else Cat (deriv c r) s)"
| "deriv c (Or r s) = Or (deriv c r) (deriv c s)"
| "deriv c (Many r) = Cat (deriv c r) (Many r)"

fun MatchString :: "rx \<Rightarrow> string \<Rightarrow> bool" where
  "MatchString r [] = nullable r"
| "MatchString r (c # cs) = MatchString (deriv c r) cs"

lemma match_Never [simp]: "\<not> MatchString Never s"
  by (induction s) auto

lemma match_Empty [simp]: "MatchString Empty s \<longleftrightarrow> s = []"
  by (cases s) auto

lemma match_Cls [simp]: "MatchString (Cls cs) s \<longleftrightarrow> (\<exists>c \<in> set cs. s = [c])"
  by (cases s) auto

lemma match_Or [simp]: "MatchString (Or r q) s \<longleftrightarrow> MatchString r s \<or> MatchString q s"
  by (induction s arbitrary: r q) auto

lemma split_Cons:
  "(\<exists>u v. c # cs = u @ v \<and> P u \<and> Q v) \<longleftrightarrow> P [] \<and> Q (c # cs) \<or> (\<exists>u v. cs = u @ v \<and> P (c # u) \<and> Q v)"
  by (simp add: Cons_eq_append_conv) blast

lemma match_Cat: "MatchString (Cat r q) s \<longleftrightarrow> (\<exists>u v. s = u @ v \<and> MatchString r u \<and> MatchString q v)"
proof (induction s arbitrary: r)
  case (Cons c cs)
  show ?case unfolding split_Cons using Cons by auto
qed auto

lemma match_Cls_Cat: "MatchString (Cat (Cls cs) q) s \<longleftrightarrow> (\<exists>c v. s = c # v \<and> c \<in> set cs \<and> MatchString q v)"
  unfolding match_Cat match_Cls by (metis append_Cons append_Nil)

lemma match_Many_Cls [simp]: "MatchString (Many (Cls cs)) s \<longleftrightarrow> set s \<subseteq> set cs"
  by (induction s) (auto simp: match_Cat)

lemma match_Plus_Cls: "MatchString (Plus (Cls cs)) s \<longleftrightarrow> s \<noteq> [] \<and> set s \<subseteq> set cs"
  unfolding Plus_def match_Cls_Cat by (cases s) auto

lemma match_Opt [simp]: "MatchString (Opt r) s \<longleftrightarrow> s = [] \<or> MatchString r s"
  by (auto simp: Opt_def)

end
