(* ===== verification/Validation.thy ===== *)
theory Validation
  imports Messages GoStrings GoRegexp
begin

text \<open>
  \<open>internal/protocol/validation.go\<close>: the field validators of every protocol message and
  \<open>SanitizeString\<close>.  A validator takes the message pointer (\<open>None\<close> is \<open>nil\<close>) and the reading of the
  clock its timestamp check makes; \<open>ValidateDataBatch\<close> and \<open>ValidateHeartbeatResponse\<close> make several
  readings, so they take the sequence of readings.  \<open>None\<close> as a result is the \<open>nil\<close> error.
\<close>

definition MaxUsernameLength :: nat where "MaxUsernameLength = 64"
definition MaxPasswordLength :: nat where "MaxPasswordLength = 128"
definition MaxClientIDLength :: nat where "MaxClientIDLength = 64"
definition MaxVersionLength :: nat where "MaxVersionLength = 32"
definition MaxSymbolLength :: nat where "MaxSymbolLength = 16"
definition MaxSymbolsCount :: nat where "MaxSymbolsCount = 100"
definition MaxMetadataEntries :: nat where "MaxMetadataEntries = 20"
definition MaxMetadataKeyLength :: nat where "MaxMetadataKeyLength = 64"
definition MaxMetadataValLength :: nat where "MaxMetadataValLength = 256"
definition MaxMessageLength :: nat where "MaxMessageLength = 512"
definition MaxDetailsLength :: nat where "MaxDetailsLength = 1024"
definition MaxTicksPerBatch :: nat where "MaxTicksPerBatch = 1000"
definition MinPrice :: rat where "MinPrice = 7378697629483821 / 2 ^ 66"
definition MaxPrice :: rat where "MaxPrice = 1000000"
definition MinVolume :: rat where "MinVolume = 0"
definition MaxVolume :: rat where "MaxVolume = 1000000000"
definition MaxTimestampAge :: duration where "MaxTimestampAge = 24 * hour"

lemmas limits = MaxUsernameLength_def MaxPasswordLength_def MaxClientIDLength_def MaxVersionLength_def
  MaxSymbolLength_def MaxSymbolsCount_def MaxMetadataEntries_def MaxMetadataKeyLength_def
  MaxMetadataValLength_def MaxMessageLength_def MaxDetailsLength_def MaxTicksPerBatch_def

definition lower :: string where "lower = ''abcdefghijklmnopqrstuvwxyz''"
definition upper :: string where "upper = ''ABCDEFGHIJKLMNOPQRSTUVWXYZ''"
definition digits :: string where "digits = ''0123456789''"
definition username_chars :: string where "username_chars = lower @ upper @ digits @ ''_-''"
definition symbol_chars :: string where "symbol_chars = upper @ digits @ ''._-''"

definition usernamePattern :: rx where "usernamePattern = Plus (Cls username_chars)"
definition symbolPattern :: rx where "symbolPattern = Plus (Cls symbol_chars)"

definition versionPattern :: rx where
  "versionPattern = Cat (Plus (Cls digits)) (Cat (Cls ''.'') (Cat (Plus (Cls digits))
     (Opt (Cat (Cls ''.'') (Plus (Cls digits))))))"

definition verr :: "string \<Rightarrow> string \<Rightarrow> fval option \<Rightarrow> sentinel \<Rightarrow> go_error option" where
  "verr field msg v e = Some (ValidationError field msg v (E e))"

definition vlen :: "'a list \<Rightarrow> fval option" where
  "vlen xs = Some (VInt (int (length xs)))"

section \<open>Shared checks\<close>

definition validateTimestamp :: "time \<Rightarrow> int \<Rightarrow> string \<Rightarrow> go_error option" where
  "validateTimestamp now ts field =
    (if ts \<le> 0 then verr field ''timestamp must be positive'' (Some (VInt ts)) ErrInvalidTimestamp
     else let nowMs = unix_milli now; maxAge = MaxTimestampAge div millisecond in
     if ts < nowMs - maxAge then verr field ''timestamp too old'' (Some (VInt ts)) ErrInvalidTimestamp
     else let futureThreshold = 5 * (minute div millisecond) in
     if ts > nowMs + futureThreshold then verr field ''timestamp too far in future'' (Some (VInt ts)) ErrInvalidTimestamp
     else None)"

definition indexed :: "string \<Rightarrow> string \<Rightarrow> string" where
  "indexed field i = field @ ''['' @ i @ '']''"

fun validate_entries :: "string \<Rightarrow> metadata \<Rightarrow> go_error option" where
  "validate_entries field [] = None"
| "validate_entries field ((key, val) # rest) =
    (if length key > MaxMetadataKeyLength then verr (indexed field key) ''metadata key too long'' (vlen key) ErrFieldTooLong
     else if length val > MaxMetadataValLength then verr (indexed field key) ''metadata value too long'' (vlen val) ErrFieldTooLong
     else if TrimSpace key = [] then verr (indexed field key) ''metadata key cannot be empty'' None ErrRequiredField
     else validate_entries field rest)"

definition validateMetadata :: "metadata \<Rightarrow> string \<Rightarrow> go_error option" where
  "validateMetadata m field =
    (if length m > MaxMetadataEntries then verr field ''too many metadata entries'' (vlen m) ErrTooManyEntries
     else validate_entries field m)"

section \<open>Validators\<close>

definition ValidateAuthRequest :: "AuthRequest option \<Rightarrow> go_error option" where
  "ValidateAuthRequest r = (case r of
     None \<Rightarrow> verr ''request'' ''request cannot be nil'' None ErrRequiredField
   | Some req \<Rightarrow>
     if TrimSpace (auth_Username req) = [] then verr ''username'' ''username is required'' None ErrRequiredField
     else if length (auth_Username req) > MaxUsernameLength then
       verr ''username'' ''username too long'' (vlen (auth_Username req)) ErrFieldTooLong
     else if \<not> MatchString usernamePattern (auth_Username req) then
       verr ''username'' ''username contains invalid characters'' (Some (VStr (auth_Username req))) ErrInvalidFieldValue
     else if TrimSpace (auth_Password req) = [] then verr ''password'' ''password is required'' None ErrRequiredField
     else if length (auth_Password req) > MaxPasswordLength then
       verr ''password'' ''password too long'' (vlen (auth_Password req)) ErrFieldTooLong
     else if auth_ClientId req \<noteq> [] \<and> length (auth_ClientId req) > MaxClientIDLength then
       verr ''client_id'' ''client ID too long'' (vlen (auth_ClientId req)) ErrFieldTooLong
     else if auth_Version req \<noteq> [] \<and> length (auth_Version req) > MaxVersionLength then
       verr ''version'' ''version too long'' (vlen (auth_Version req)) ErrFieldTooLong
     else if auth_Version req \<noteq> [] \<and> \<not> MatchString versionPattern (auth_Version req) then
       verr ''version'' ''invalid version format'' (Some (VStr (auth_Version req))) ErrInvalidFieldValue
     else None)"

fun validate_symbols :: "nat \<Rightarrow> string list \<Rightarrow> go_error option" where
  "validate_symbols i [] = None"
| "validate_symbols i (symbol # rest) =
    (if TrimSpace symbol = [] then verr (indexed ''symbols'' (show_nat i)) ''symbol cannot be empty'' None ErrRequiredField
     else if length symbol > MaxSymbolLength then
       verr (indexed ''symbols'' (show_nat i)) ''symbol too long'' (vlen symbol) ErrFieldTooLong
     else if \<not> MatchString symbolPattern symbol then
       verr (indexed ''symbols'' (show_nat i)) ''invalid symbol format'' (Some (VStr symbol)) ErrInvalidFieldValue
     else validate_symbols (i + 1) rest)"

definition ValidateSubscribeRequest :: "time \<Rightarrow> SubscribeRequest option \<Rightarrow> go_error option" where
  "ValidateSubscribeRequest now r = (case r of
     None \<Rightarrow> verr ''request'' ''request cannot be nil'' None ErrRequiredField
   | Some req \<Rightarrow>
     if sub_Mode req = SUBSCRIPTION_MODE_UNSPECIFIED then
       verr ''mode'' ''subscription mode is required'' None ErrRequiredField
     else if sub_Mode req \<noteq> SUBSCRIPTION_MODE_SECOND \<and> sub_Mode req \<noteq> SUBSCRIPTION_MODE_MINUTE then
       verr ''mode'' ''invalid subscription mode'' (Some (VMode (sub_Mode req))) ErrInvalidEnum
     else if length (sub_Symbols req) > MaxSymbolsCount then
       verr ''symbols'' ''too many symbols'' (vlen (sub_Symbols req)) ErrTooManyEntries
     else (case validate_symbols 0 (sub_Symbols req) of
       Some e \<Rightarrow> Some e
     | None \<Rightarrow>
       (case if sub_StartTimeMs req \<noteq> 0 then validateTimestamp now (sub_StartTimeMs req) ''start_time_ms'' else None of
         Some e \<Rightarrow> Some e
       | None \<Rightarrow> validateMetadata (sub_Metadata req) ''metadata'')))"

definition ValidateHeartbeatRequest :: "time \<Rightarrow> HeartbeatRequest option \<Rightarrow> go_error option" where
  "ValidateHeartbeatRequest now r = (case r of
     None \<Rightarrow> verr ''request'' ''request cannot be nil'' None ErrRequiredField
   | Some req \<Rightarrow>
     if hb_TimestampMs req = 0 then verr ''timestamp_ms'' ''timestamp is required'' None ErrRequiredField
     else validateTimestamp now (hb_TimestampMs req) ''timestamp_ms'')"

definition out_of_range :: "rat \<Rightarrow> rat \<Rightarrow> f64 \<Rightarrow> bool" where
  "out_of_range lo hi x \<longleftrightarrow> f64_lt x (Fin lo) \<or> f64_gt x (Fin hi)"

definition ValidateTick :: "time \<Rightarrow> Tick option \<Rightarrow> go_error option" where
  "ValidateTick now t = (case t of
     None \<Rightarrow> verr ''tick'' ''tick cannot be nil'' None ErrRequiredField
   | Some tick \<Rightarrow>
     if TrimSpace (tick_Symbol tick) = [] then verr ''symbol'' ''symbol is required'' None ErrRequiredField
     else if length (tick_Symbol tick) > MaxSymbolLength then
       verr ''symbol'' ''symbol too long'' (vlen (tick_Symbol tick)) ErrFieldTooLong
     else if \<not> MatchString symbolPattern (tick_Symbol tick) then
       verr ''symbol'' ''invalid symbol format'' (Some (VStr (tick_Symbol tick))) ErrInvalidFieldValue
     else if tick_TimestampMs tick = 0 then verr ''timestamp_ms'' ''timestamp is required'' None ErrRequiredField
     else (case validateTimestamp now (tick_TimestampMs tick) ''timestamp_ms'' of Some e \<Rightarrow> Some e | None \<Rightarrow>
     if out_of_range MinPrice MaxPrice (tick_Price tick) then
       verr ''price'' ''price out of valid range'' (Some (VFloat (tick_Price tick))) ErrInvalidRange
     else if out_of_range MinVolume MaxVolume (tick_Volume tick) then
       verr ''volume'' ''volume out of valid range'' (Some (VFloat (tick_Volume tick))) ErrInvalidRange
     else if \<not> f64_eq (tick_Bid tick) (Fin 0) \<and> out_of_range MinPrice MaxPrice (tick_Bid tick) then
       verr ''bid'' ''bid price out of valid range'' (Some (VFloat (tick_Bid tick))) ErrInvalidRange
     else if \<not> f64_eq (tick_Ask tick) (Fin 0) \<and> out_of_range MinPrice MaxPrice (tick_Ask tick) then
       verr ''ask'' ''ask price out of valid range'' (Some (VFloat (tick_Ask tick))) ErrInvalidRange
     else if tick_BidSize tick < 0 then
       verr ''bid_size'' ''bid size cannot be negative'' (Some (VInt (tick_BidSize tick))) ErrInvalidRange
     else if tick_AskSize tick < 0 then
       verr ''ask_size'' ''ask size cannot be negative'' (Some (VInt (tick_AskSize tick))) ErrInvalidRange
     else if tick_Mode tick = SUBSCRIPTION_MODE_UNSPECIFIED then
       verr ''mode'' ''subscription mode is required'' None ErrRequiredField
     else if tick_Mode tick \<noteq> SUBSCRIPTION_MODE_SECOND \<and> tick_Mode tick \<noteq> SUBSCRIPTION_MODE_MINUTE then
       verr ''mode'' ''invalid subscription mode'' (Some (VMode (tick_Mode tick))) ErrInvalidEnum
     else validateMetadata (tick_Metadata tick) ''metadata''))"

text \<open>The check of tick \<open>i\<close> reads the clock as \<open>now i\<close>; its error text is embedded in the message.\<close>

fun validate_ticks :: "fmt_env \<Rightarrow> (nat \<Rightarrow> time) \<Rightarrow> nat \<Rightarrow> Tick option list \<Rightarrow> go_error option" where
  "validate_ticks fe now i [] = None"
| "validate_ticks fe now i (tick # rest) = (case ValidateTick (now i) tick of
     Some e \<Rightarrow> Some (ValidationError (indexed ''ticks'' (show_nat i)) (error_text fe e) None e)
   | None \<Rightarrow> validate_ticks fe now (i + 1) rest)"

definition ValidateDataBatch :: "fmt_env \<Rightarrow> (nat \<Rightarrow> time) \<Rightarrow> DataBatch option \<Rightarrow> go_error option" where
  "ValidateDataBatch fe now b = (case b of
     None \<Rightarrow> verr ''batch'' ''batch cannot be nil'' None ErrRequiredField
   | Some batch \<Rightarrow>
     if length (batch_Ticks batch) = 0 then verr ''ticks'' ''batch must contain at least one tick'' None ErrRequiredField
     else if length (batch_Ticks batch) > MaxTicksPerBatch then
       verr ''ticks'' ''too many ticks in batch'' (vlen (batch_Ticks batch)) ErrTooManyEntries
     else (case validate_ticks fe now 0 (batch_Ticks batch) of
       Some e \<Rightarrow> Some e
     | None \<Rightarrow>
       if batch_BatchTimestampMs batch = 0 then
         verr ''batch_timestamp_ms'' ''batch timestamp is required'' None ErrRequiredField
       else validateTimestamp (now (length (batch_Ticks batch))) (batch_BatchTimestampMs batch) ''batch_timestamp_ms''))"

definition ValidateErrorResponse :: "time \<Rightarrow> ErrorResponse option \<Rightarrow> go_error option" where
  "ValidateErrorResponse now r = (case r of
     None \<Rightarrow> verr ''response'' ''response cannot be nil'' None ErrRequiredField
   | Some resp \<Rightarrow>
     if err_Code resp = ERROR_CODE_UNSPECIFIED then verr ''code'' ''error code is required'' None ErrRequiredField
     else if TrimSpace (err_Message resp) = [] then verr ''message'' ''error message is required'' None ErrRequiredField
     else if length (err_Message resp) > MaxMessageLength then
       verr ''message'' ''error message too long'' (vlen (err_Message resp)) ErrFieldTooLong
     else if length (err_Details resp) > MaxDetailsLength then
       verr ''details'' ''error details too long'' (vlen (err_Details resp)) ErrFieldTooLong
     else if err_TimestampMs resp = 0 then verr ''timestamp_ms'' ''timestamp is required'' None ErrRequiredField
     else validateTimestamp now (err_TimestampMs resp) ''timestamp_ms'')"

definition ValidateAckResponse :: "time \<Rightarrow> AckResponse option \<Rightarrow> go_error option" where
  "ValidateAckResponse now r = (case r of
     None \<Rightarrow> verr ''response'' ''response cannot be nil'' None ErrRequiredField
   | Some resp \<Rightarrow>
     if ack_AckType resp = MESSAGE_TYPE_UNSPECIFIED then verr ''ack_type'' ''ack type is required'' None ErrRequiredField
     else if length (ack_Message resp) > MaxMessageLength then
       verr ''message'' ''message too long'' (vlen (ack_Message resp)) ErrFieldTooLong
     else if ack_TimestampMs resp = 0 then verr ''timestamp_ms'' ''timestamp is required'' None ErrRequiredField
     else (case validateTimestamp now (ack_TimestampMs resp) ''timestamp_ms'' of
       Some e \<Rightarrow> Some e
     | None \<Rightarrow> validateMetadata (ack_Metadata resp) ''metadata''))"

definition ValidateHeartbeatResponse :: "(nat \<Rightarrow> time) \<Rightarrow> HeartbeatResponse option \<Rightarrow> go_error option" where
  "ValidateHeartbeatResponse now r = (case r of
     None \<Rightarrow> verr ''response'' ''response cannot be nil'' None ErrRequiredField
   | Some resp \<Rightarrow>
     if hbr_ClientTimestampMs resp = 0 then
       verr ''client_timestamp_ms'' ''client timestamp is required'' None ErrRequiredField
     else (case validateTimestamp (now 0) (hbr_ClientTimestampMs resp) ''client_timestamp_ms'' of
       Some e \<Rightarrow> Some e
     | None \<Rightarrow>
       if hbr_ServerTimestampMs resp = 0 then
         verr ''server_timestamp_ms'' ''server timestamp is required'' None ErrRequiredField
       else validateTimestamp (now 1) (hbr_ServerTimestampMs resp) ''server_timestamp_ms''))"

definition ValidateMessageType :: "u8 \<Rightarrow> go_error option" where
  "ValidateMessageType msgType =
    (if msgType \<in> {MessageTypeAuth, MessageTypeSubscribe, MessageTypeHeartbeat, MessageTypeDataBatch,
       MessageTypeError, MessageTypeACK, MessageTypePong} then None
     else verr ''message_type'' ''unknown message type'' (Some (VType msgType)) ErrInvalidFieldValue)"

definition kept_rune :: "nat \<Rightarrow> bool" where
  "kept_rune r \<longleftrightarrow> 32 \<le> r \<or> r = 10 \<or> r = 9"

definition SanitizeString :: "string \<Rightarrow> string" where
  "SanitizeString input = Trim_spaces (encode_runes (filter kept_rune (runes input)))"

section \<open>What the checks accept\<close>

lemma verr_neq_None [simp]: "verr f m v e \<noteq> None"
  by (simp add: verr_def)

lemma check_None: "(if b then verr f m v e else x) = None \<longleftrightarrow> \<not> b \<and> x = None"
  by simp

lemma chain_None: "(case x of None \<Rightarrow> y | Some e \<Rightarrow> Some e) = None \<longleftrightarrow> x = None \<and> y = None"
  by (simp split: option.split)

lemma mode_check: "m \<noteq> SUBSCRIPTION_MODE_UNSPECIFIED \<and>
    \<not> (m \<noteq> SUBSCRIPTION_MODE_SECOND \<and> m \<noteq> SUBSCRIPTION_MODE_MINUTE) \<longleftrightarrow> m = 1 \<or> m = 2"
  by (auto simp: pb_modes)

definition visible_ascii :: "char \<Rightarrow> bool" where
  "visible_ascii c \<longleftrightarrow> byte_of c < 0x80 \<and> \<not> IsSpace (byte_of c)"

lemma decode_ascii: "byte_of c < (0x80 :: nat) \<Longrightarrow> decode_rune (c # cs) = (byte_of c, 1)"
  by (simp add: decode_rune_def decode_bytes.simps width_def)

lemma TrimSpace_visible:
  assumes "s \<noteq> []" "visible_ascii (hd s)" "visible_ascii (last s)"
  shows "TrimSpace s = s"
proof -
  have "trim_left IsSpace s = s"
    using assms by (cases s) (simp_all add: trim_left.simps [of _ "_ # _"] visible_ascii_def decode_ascii)
  moreover have "trim_right IsSpace s = s"
    using assms by (simp add: trim_right.simps [of _ s] decode_last_rune_def visible_ascii_def)
  ultimately show ?thesis by (simp add: TrimSpace_def)
qed

lemma TrimSpace_class:
  assumes "s \<noteq> []" "set s \<subseteq> set cs" "list_all visible_ascii cs"
  shows "TrimSpace s \<noteq> []"
proof -
  have "visible_ascii c" if "c \<in> set s" for c using that assms by (auto simp: list_all_iff)
  then show ?thesis using TrimSpace_visible [of s] assms(1) by simp
qed

lemma visible_chars: "list_all visible_ascii symbol_chars" "list_all visible_ascii username_chars"
  by (simp_all add: symbol_chars_def username_chars_def lower_def upper_def digits_def visible_ascii_def IsSpace_def)

definition symbol_ok :: "string \<Rightarrow> bool" where
  "symbol_ok s \<longleftrightarrow> 1 \<le> length s \<and> length s \<le> 16 \<and> set s \<subseteq> set symbol_chars"

definition username_ok :: "string \<Rightarrow> bool" where
  "username_ok s \<longleftrightarrow> 1 \<le> length s \<and> length s \<le> 64 \<and> set s \<subseteq> set username_chars"

definition number_ok :: "string \<Rightarrow> bool" where
  "number_ok s \<longleftrightarrow> s \<noteq> [] \<and> set s \<subseteq> set digits"

definition version_ok :: "string \<Rightarrow> bool" where
  "version_ok s \<longleftrightarrow> length s \<le> 32 \<and>
     (\<exists>a b. number_ok a \<and> number_ok b \<and> (s = a @ ''.'' @ b \<or> (\<exists>c. number_ok c \<and> s = a @ ''.'' @ b @ ''.'' @ c)))"

definition timestamp_ok :: "time \<Rightarrow> int \<Rightarrow> bool" where
  "timestamp_ok now ts \<longleftrightarrow> 0 < ts \<and> unix_milli now - 86400000 \<le> ts \<and> ts \<le> unix_milli now + 300000"

definition metadata_ok :: "metadata \<Rightarrow> bool" where
  "metadata_ok m \<longleftrightarrow> length m \<le> 20 \<and>
     (\<forall>(k, v) \<in> set m. length k \<le> 64 \<and> length v \<le> 256 \<and> TrimSpace k \<noteq> [])"

definition mode_ok :: "int \<Rightarrow> bool" where
  "mode_ok m \<longleftrightarrow> m = 1 \<or> m = 2"

definition in_bounds :: "rat \<Rightarrow> rat \<Rightarrow> f64 \<Rightarrow> bool" where
  "in_bounds lo hi x \<longleftrightarrow> x = NaN \<or> finite_between lo hi x"

definition tick_ok :: "time \<Rightarrow> Tick \<Rightarrow> bool" where
  "tick_ok now t \<longleftrightarrow> symbol_ok (tick_Symbol t) \<and> timestamp_ok now (tick_TimestampMs t) \<and>
     in_bounds MinPrice MaxPrice (tick_Price t) \<and> in_bounds MinVolume MaxVolume (tick_Volume t) \<and>
     (tick_Bid t = Fin 0 \<or> in_bounds MinPrice MaxPrice (tick_Bid t)) \<and>
     (tick_Ask t = Fin 0 \<or> in_bounds MinPrice MaxPrice (tick_Ask t)) \<and>
     0 \<le> tick_BidSize t \<and> 0 \<le> tick_AskSize t \<and> mode_ok (tick_Mode t) \<and> metadata_ok (tick_Metadata t)"

lemma symbol_check:
  "TrimSpace s \<noteq> [] \<and> \<not> length s > MaxSymbolLength \<and> MatchString symbolPattern s \<longleftrightarrow> symbol_ok s"
  using TrimSpace_class [OF _ _ visible_chars(1), of s]
  by (auto simp: symbol_ok_def symbolPattern_def match_Plus_Cls limits Suc_le_eq)

lemma username_check:
  "TrimSpace s \<noteq> [] \<and> \<not> length s > MaxUsernameLength \<and> MatchString usernamePattern s \<longleftrightarrow> username_ok s"
  using TrimSpace_class [OF _ _ visible_chars(2), of s]
  by (auto simp: username_ok_def usernamePattern_def match_Plus_Cls limits Suc_le_eq)

lemma match_number: "MatchString (Plus (Cls digits)) s \<longleftrightarrow> number_ok s"
  by (simp add: match_Plus_Cls number_ok_def)

lemma match_dot: "MatchString (Cat (Cls ''.'') q) s \<longleftrightarrow> (\<exists>v. s = ''.'' @ v \<and> MatchString q v)"
  by (auto simp: match_Cls_Cat)

lemma match_number_cat: "MatchString (Cat (Plus (Cls digits)) q) s \<longleftrightarrow> (\<exists>a v. s = a @ v \<and> number_ok a \<and> MatchString q v)"
  by (simp add: match_Cat match_number)

lemma match_version:
  "MatchString versionPattern s \<longleftrightarrow>
     (\<exists>a b. number_ok a \<and> number_ok b \<and> (s = a @ ''.'' @ b \<or> (\<exists>c. number_ok c \<and> s = a @ ''.'' @ b @ ''.'' @ c)))"
  (is "?m \<longleftrightarrow> ?r")
proof
  assume ?m
  then obtain a v b w where "s = a @ ''.'' @ v" "number_ok a" "v = b @ w" "number_ok b"
    "w = [] \<or> MatchString (Cat (Cls ''.'') (Plus (Cls digits))) w"
    unfolding versionPattern_def match_number_cat match_dot match_Opt by blast
  then show ?r unfolding match_dot match_number by auto
next
  assume ?r
  then obtain a b where ab: "number_ok a" "number_ok b"
    and "s = a @ ''.'' @ b @ [] \<or> (\<exists>c. number_ok c \<and> s = a @ ''.'' @ b @ ''.'' @ c)"
    by auto
  then obtain w where "s = a @ ''.'' @ b @ w" "w = [] \<or> (\<exists>c. number_ok c \<and> w = ''.'' @ c)" by blast
  with ab show ?m unfolding versionPattern_def match_number_cat match_dot match_Opt match_number by blast
qed

lemma timestamp_check: "validateTimestamp now ts field = None \<longleftrightarrow> timestamp_ok now ts"
  by (auto simp: validateTimestamp_def Let_def timestamp_ok_def MaxTimestampAge_def duration_defs)

lemma entries_check: "validate_entries field m = None \<longleftrightarrow>
    (\<forall>(k, v) \<in> set m. length k \<le> 64 \<and> length v \<le> 256 \<and> TrimSpace k \<noteq> [])"
  by (induction field m rule: validate_entries.induct) (auto simp: limits)

lemma metadata_check: "validateMetadata m field = None \<longleftrightarrow> metadata_ok m"
  by (auto simp: validateMetadata_def entries_check metadata_ok_def MaxMetadataEntries_def)

lemma symbols_check: "validate_symbols i ss = None \<longleftrightarrow> (\<forall>s \<in> set ss. symbol_ok s)"
proof (induction ss arbitrary: i)
  case (Cons s ss)
  have "validate_symbols i (s # ss) = None \<longleftrightarrow>
      (TrimSpace s \<noteq> [] \<and> \<not> length s > MaxSymbolLength \<and> MatchString symbolPattern s) \<and> validate_symbols (i + 1) ss = None"
    by (simp only: validate_symbols.simps check_None not_not conj_assoc)
  then show ?case unfolding symbol_check Cons.IH by simp
qed simp

lemma range_check: "\<not> out_of_range lo hi x \<longleftrightarrow> in_bounds lo hi x"
  by (simp only: out_of_range_def in_bounds_def in_range_iff)

lemma zero_check: "f64_eq x (Fin 0) \<longleftrightarrow> x = Fin 0"
  by (cases x) auto

lemma timestamp_absorb: "ts \<noteq> 0 \<and> timestamp_ok now ts \<and> P \<longleftrightarrow> timestamp_ok now ts \<and> P"
  by (auto simp: timestamp_ok_def)

lemma zero_or_range: "\<not> (\<not> f64_eq x (Fin 0) \<and> out_of_range lo hi x) \<longleftrightarrow> x = Fin 0 \<or> in_bounds lo hi x"
  using range_check [of lo hi x] zero_check [of x] by blast

lemma nonneg_check: "\<not> (i :: int) < 0 \<longleftrightarrow> 0 \<le> i"
  by (rule not_less)

lemma mode_and: "m \<noteq> SUBSCRIPTION_MODE_UNSPECIFIED \<and>
    \<not> (m \<noteq> SUBSCRIPTION_MODE_SECOND \<and> m \<noteq> SUBSCRIPTION_MODE_MINUTE) \<and> P \<longleftrightarrow> mode_ok m \<and> P"
  using mode_check [of m] by (simp only: mode_ok_def) blast

lemma symbol_and: "TrimSpace s \<noteq> [] \<and> \<not> length s > MaxSymbolLength \<and> MatchString symbolPattern s \<and> P \<longleftrightarrow>
    symbol_ok s \<and> P"
  by (simp only: symbol_check [symmetric] conj_assoc)

lemmas check_iffs = check_None chain_None timestamp_check metadata_check symbols_check
  timestamp_absorb zero_or_range range_check nonneg_check mode_and symbol_and not_not

lemma tick_check: "ValidateTick now (Some t) = None \<longleftrightarrow> tick_ok now t"
  by (simp only: ValidateTick_def option.case check_iffs tick_ok_def)

lemma tick_opt_check: "ValidateTick now u = None \<longleftrightarrow> (\<exists>t. u = Some t \<and> tick_ok now t)"
  by (cases u) (simp_all add: tick_check, simp add: ValidateTick_def verr_def)

lemma ticks_check: "validate_ticks fe now i ts = None \<longleftrightarrow>
    (\<forall>j < length ts. \<exists>t. ts ! j = Some t \<and> tick_ok (now (i + j)) t)"
proof (induction ts arbitrary: i)
  case (Cons u ts)
  have "validate_ticks fe now i (u # ts) = None \<longleftrightarrow>
      ValidateTick (now i) u = None \<and> validate_ticks fe now (i + 1) ts = None"
    by (simp split: option.split)
  then show ?case unfolding Cons.IH tick_opt_check by (simp add: All_less_Suc2)
qed simp

section \<open>Properties\<close>

text \<open>
  C19: \<open>ValidateTick\<close> accepts exactly the ticks with a symbol of one to sixteen characters from
  \<open>[A-Z0-9._-]\<close>, a timestamp at most a day old and at most five minutes ahead, prices and volume in range
  or NaN, non-negative sizes, a known mode and small metadata.
\<close>

theorem ValidateTick_iff: "ValidateTick now u = None \<longleftrightarrow> (\<exists>t. u = Some t \<and> tick_ok now t)"
  by (rule tick_opt_check)

text \<open>
  \<open>ValidateDataBatch\<close> accepts exactly the batches of one to a thousand valid ticks with a recent
  batch timestamp, each check against its own reading of the clock.
\<close>

theorem ValidateDataBatch_iff:
  "ValidateDataBatch fe now b = None \<longleftrightarrow> (\<exists>batch ticks. b = Some batch \<and> batch_Ticks batch = map Some ticks \<and>
     1 \<le> length ticks \<and> length ticks \<le> 1000 \<and> list_all (\<lambda>j. tick_ok (now j) (ticks ! j)) [0..<length ticks] \<and>
     timestamp_ok (now (length ticks)) (batch_BatchTimestampMs batch))"
proof (cases b)
  case (Some batch)
  let ?ts = "batch_Ticks batch"
  have ex: "(\<forall>j < length ?ts. \<exists>t. ?ts ! j = Some t \<and> tick_ok (now j) t) \<longleftrightarrow>
      (\<exists>ticks. ?ts = map Some ticks \<and> (\<forall>j < length ticks. tick_ok (now j) (ticks ! j)))"
  proof
    assume a: "\<forall>j < length ?ts. \<exists>t. ?ts ! j = Some t \<and> tick_ok (now j) t"
    then have "?ts = map Some (map the ?ts)" by (intro nth_equalityI) auto
    moreover have "\<forall>j < length (map the ?ts). tick_ok (now j) (map the ?ts ! j)" using a by force
    ultimately show "\<exists>ticks. ?ts = map Some ticks \<and> (\<forall>j < length ticks. tick_ok (now j) (ticks ! j))" by blast
  qed auto
  have "ValidateDataBatch fe now b = None \<longleftrightarrow> 1 \<le> length ?ts \<and> length ?ts \<le> 1000 \<and>
      (\<forall>j < length ?ts. \<exists>t. ?ts ! j = Some t \<and> tick_ok (now j) t) \<and>
      timestamp_ok (now (length ?ts)) (batch_BatchTimestampMs batch)"
    using timestamp_absorb [of "batch_BatchTimestampMs batch" _ True]
    by (simp add: Some ValidateDataBatch_def check_None chain_None ticks_check timestamp_check limits not_less Suc_le_eq)
  then show ?thesis unfolding ex using Some by (auto simp: list_all_iff)
qed (simp add: ValidateDataBatch_def)

text \<open>
  \<open>ValidateAuthRequest\<close> accepts exactly the requests with a user name of 1 to 64 characters from
  \<open>[a-zA-Z0-9_-]\<close>, a password that is not blank and has at most 128 bytes, a client id of at most 64
  bytes, and a version that is empty or of the form \<open>n.n\<close> or \<open>n.n.n\<close>.
\<close>

theorem ValidateAuthRequest_iff:
  "ValidateAuthRequest r = None \<longleftrightarrow> (\<exists>req. r = Some req \<and> username_ok (auth_Username req) \<and>
     TrimSpace (auth_Password req) \<noteq> [] \<and> length (auth_Password req) \<le> 128 \<and> length (auth_ClientId req) \<le> 64 \<and>
     (auth_Version req = [] \<or> version_ok (auth_Version req)))"
proof (cases r)
  case (Some req)
  have version: "\<not> (auth_Version req \<noteq> [] \<and> length (auth_Version req) > MaxVersionLength) \<and>
      \<not> (auth_Version req \<noteq> [] \<and> \<not> MatchString versionPattern (auth_Version req)) \<longleftrightarrow>
      auth_Version req = [] \<or> version_ok (auth_Version req)"
    by (auto simp: match_version version_ok_def limits)
  have client: "\<not> (auth_ClientId req \<noteq> [] \<and> length (auth_ClientId req) > MaxClientIDLength) \<longleftrightarrow>
      length (auth_ClientId req) \<le> 64"
    by (auto simp: limits)
  have pw: "\<not> length s > MaxPasswordLength \<longleftrightarrow> length s \<le> 128" for s :: string
    by (auto simp: limits)
  have user: "TrimSpace s \<noteq> [] \<and> \<not> length s > MaxUsernameLength \<and> MatchString usernamePattern s \<and> P \<longleftrightarrow>
      username_ok s \<and> P" for s P
    by (simp only: username_check [symmetric] conj_assoc)
  have "ValidateAuthRequest r = None \<longleftrightarrow> username_ok (auth_Username req) \<and>
     TrimSpace (auth_Password req) \<noteq> [] \<and> length (auth_Password req) \<le> 128 \<and> length (auth_ClientId req) \<le> 64 \<and>
     (auth_Version req = [] \<or> version_ok (auth_Version req))"
    unfolding Some ValidateAuthRequest_def
    by (simp only: option.case check_None not_not user client pw version [symmetric]) simp
  then show ?thesis using Some by simp
qed (simp add: ValidateAuthRequest_def)

text \<open>
  C20: \<open>ValidateSubscribeRequest\<close> accepts exactly the requests with a known mode, at most a hundred
  well-formed symbols, no start time or a recent one, and small metadata.
\<close>

theorem ValidateSubscribeRequest_iff:
  "ValidateSubscribeRequest now r = None \<longleftrightarrow> (\<exists>req. r = Some req \<and> mode_ok (sub_Mode req) \<and>
     length (sub_Symbols req) \<le> 100 \<and> list_all symbol_ok (sub_Symbols req) \<and>
     (sub_StartTimeMs req = 0 \<or> timestamp_ok now (sub_StartTimeMs req)) \<and> metadata_ok (sub_Metadata req))"
proof (cases r)
  case (Some req)
  have start: "(if sub_StartTimeMs req \<noteq> 0 then validateTimestamp now (sub_StartTimeMs req) f else None) = None \<longleftrightarrow>
      sub_StartTimeMs req = 0 \<or> timestamp_ok now (sub_StartTimeMs req)" for f
    by (simp add: timestamp_check)
  show ?thesis
    unfolding Some ValidateSubscribeRequest_def
    by (simp only: option.case check_iffs start MaxSymbolsCount_def not_less list_all_iff) simp
qed (simp add: ValidateSubscribeRequest_def)

text \<open>
  A tick whose price, volume, bid and ask are replaced by NaN passes validation whenever the tick
  itself does: every range check compares with \<open><\<close> and \<open>>\<close>, which are false on NaN.
\<close>

theorem ValidateTick_accepts_NaN:
  assumes "ValidateTick now (Some t) = None"
  shows "ValidateTick now (Some (t\<lparr>tick_Price := NaN, tick_Volume := NaN, tick_Bid := NaN, tick_Ask := NaN\<rparr>)) = None"
  using assms by (simp add: tick_check tick_ok_def in_bounds_def)

definition sample_tick :: Tick where
  "sample_tick = \<lparr> tick_Symbol = ''BTC-USD'', tick_TimestampMs = 1700000000000, tick_Price = Fin 42, tick_Volume = Fin 1,
     tick_Bid = Fin 0, tick_Ask = Fin 43, tick_BidSize = 5, tick_AskSize = 0, tick_Mode = 1, tick_Metadata = [] \<rparr>"

lemma sample_tick_ok: "tick_ok (unix_epoch + 1700000000123000000) sample_tick"
  by (simp add: tick_ok_def sample_tick_def symbol_ok_def symbol_chars_def upper_def digits_def timestamp_ok_def
      unix_milli_def in_bounds_def finite_between_def MinPrice_def MaxPrice_def MinVolume_def MaxVolume_def
      mode_ok_def metadata_ok_def)

theorem ValidateTick_accepts_NaN_witness:
  "ValidateTick (unix_epoch + 1700000000123000000)
     (Some (sample_tick\<lparr>tick_Price := NaN, tick_Volume := NaN, tick_Bid := NaN, tick_Ask := NaN\<rparr>)) = None"
  by (rule ValidateTick_accepts_NaN) (simp add: tick_check sample_tick_ok)


end
