(* ===== verification/GoNet.thy ===== *)
theory GoNet
  imports GoErrors
begin

text \<open>
  The parts of the Go packages \<open>strings\<close> and \<open>net\<close> that split network addresses:
  \<open>net.SplitHostPort\<close> with its error values.
\<close>

fun index_byte :: "char \<Rightarrow> string \<Rightarrow> nat option" where
  "index_byte c [] = None"
| "index_byte c (x # xs) = (if x = c then Some 0 else map_option Suc (index_byte c xs))"

fun last_index_byte :: "char \<Rightarrow> string \<Rightarrow> nat option" where
  "last_index_byte c [] = None"
| "last_index_byte c (x # xs) = (case last_index_byte c xs of
     Some i \<Rightarrow> Some (Suc i) | None \<Rightarrow> if x = c then Some 0 else None)"

definition addr_error :: "string \<Rightarrow> string \<Rightarrow> go_error" where
  "addr_error addr why = Errorf (if addr = [] then why else ''address '' @ addr @ '': '' @ why)"

definition SplitHostPort :: "string \<Rightarrow> go_error + string \<times> string" where
  "SplitHostPort hostport = (case last_index_byte CHR '':'' hostport of
     None \<Rightarrow> Inl (addr_error hostport ''missing port in address'')
   | Some i \<Rightarrow>
     (let finish = (\<lambda>host j k.
        if CHR ''['' \<in> set (drop j hostport) then Inl (addr_error hostport (''unexpected '' @ quoted ''['' @ '' in address''))
        else if CHR '']'' \<in> set (drop k hostport) then Inl (addr_error hostport (''unexpected '' @ quoted '']'' @ '' in address''))
        else Inr (host, drop (i + 1) hostport)) in
      if hostport ! 0 = CHR ''['' then
        (case index_byte CHR '']'' hostport of
           None \<Rightarrow> Inl (addr_error hostport (''missing '' @ quoted '']'' @ '' in address''))
         | Some e \<Rightarrow>
           if e + 1 = length hostport then Inl (addr_error hostport ''missing port in address'')
           else if e + 1 = i then finish (take (e - 1) (drop 1 hostport)) 1 (e + 1)
           else if hostport ! (e + 1) = CHR '':'' then Inl (addr_error hostport ''too many colons in address'')
           else Inl (addr_error hostport ''missing port in address''))
      else if CHR '':'' \<in> set (take i hostport) then Inl (addr_error hostport ''too many colons in address'')
      else finish (take i hostport) 0 0))"

lemma index_byte_None [simp]: "index_byte c xs = None \<longleftrightarrow> c \<notin> set xs"
  by (induction xs) auto

lemma last_index_byte_None [simp]: "last_index_byte c xs = None \<longleftrightarrow> c \<notin> set xs"
  by (induction xs) (auto split: option.split)

lemma index_byte_append [simp]: "c \<notin> set xs \<Longrightarrow> index_byte c (xs @ c # ys) = Some (length xs)"
  by (induction xs) auto

lemma last_index_byte_append [simp]: "c \<notin> set ys \<Longrightarrow> last_index_byte c (xs @ c # ys) = Some (length xs)"
  by (induction xs) (auto split: option.split)

text \<open>The two forms the runtime produces for remote addresses: \<open>1.2.3.4:5\<close> and \<open>[::1]:5\<close>.\<close>

lemma SplitHostPort_plain:
  assumes "set host \<inter> {CHR '':'', CHR ''['', CHR '']''} = {}"
    and "set port \<inter> {CHR '':'', CHR ''['', CHR '']''} = {}"
  shows "SplitHostPort (host @ CHR '':'' # port) = Inr (host, port)"
proof -
  have "(host @ CHR '':'' # port) ! 0 \<noteq> CHR ''[''" using assms(1) by (cases host) auto
  then show ?thesis using assms by (auto simp: SplitHostPort_def Let_def)
qed

lemma SplitHostPort_bracketed:
  assumes "set host \<inter> {CHR ''['', CHR '']''} = {}"
    and "set port \<inter> {CHR '':'', CHR ''['', CHR '']''} = {}"
  shows "SplitHostPort (CHR ''['' # host @ CHR '']'' # CHR '':'' # port) = Inr (host, port)"
proof -
  have "last_index_byte CHR '':'' ((CHR ''['' # host @ [CHR '']'']) @ CHR '':'' # port) = Some (length host + 2)"
    using assms(2) by (subst last_index_byte_append) auto
  then have "last_index_byte CHR '':'' (CHR ''['' # host @ CHR '']'' # CHR '':'' # port) = Some (length host + 2)"
    by simp
  moreover have "index_byte CHR '']'' (CHR ''['' # host @ CHR '']'' # CHR '':'' # port) = Some (length host + 1)"
    using assms(1) by simp
  ultimately show ?thesis using assms by (auto simp: SplitHostPort_def Let_def)
qed

end
