(* ===== verification/Runs.thy ===== *)
theory Runs
  imports Prelude "HOL-Library.Finite_Map"
begin

text \<open>
  Runs of a stateful component: a list of operations applied one after the other, each allowed in
  the state it meets.  The locales collect what the components show of their operations once and for
  all: an invariant that every operation keeps holds after every run (\<open>machine\<close>), and a quantity
  that every operation pays for out of a budget stays below the budget over every run
  (\<open>budgeted\<close>).  The theory also holds the lemmas on finite maps the components share.
\<close>

fun run :: "('e \<Rightarrow> 's \<Rightarrow> 's) \<Rightarrow> 'e list \<Rightarrow> 's \<Rightarrow> 's" where
  "run step [] s = s"
| "run step (e # es) s = run step es (step e s)"

fun legal :: "('e \<Rightarrow> 's \<Rightarrow> bool) \<Rightarrow> ('e \<Rightarrow> 's \<Rightarrow> 's) \<Rightarrow> 'e list \<Rightarrow> 's \<Rightarrow> bool" where
  "legal ok step [] s = True"
| "legal ok step (e # es) s = (ok e s \<and> legal ok step es (step e s))"

fun total :: "('e \<Rightarrow> 's \<Rightarrow> nat) \<Rightarrow> ('e \<Rightarrow> 's \<Rightarrow> 's) \<Rightarrow> 'e list \<Rightarrow> 's \<Rightarrow> nat" where
  "total gain step [] s = 0"
| "total gain step (e # es) s = gain e s + total gain step es (step e s)"

lemma run_append [simp]: "run step (es @ fs) s = run step fs (run step es s)"
  by (induction es arbitrary: s) simp_all

lemma legal_append [simp]:
  "legal ok step (es @ fs) s \<longleftrightarrow> legal ok step es s \<and> legal ok step fs (run step es s)"
  by (induction es arbitrary: s) auto

lemma legal_True [simp]: "legal (\<lambda>_ _. True) step es s"
  by (induction es arbitrary: s) auto

locale machine =
  fixes step :: "'e \<Rightarrow> 's \<Rightarrow> 's" and ok :: "'e \<Rightarrow> 's \<Rightarrow> bool" and inv :: "'s \<Rightarrow> bool"
  assumes inv_step: "inv s \<Longrightarrow> ok e s \<Longrightarrow> inv (step e s)"
begin

lemma inv_run: "inv s \<Longrightarrow> legal ok step es s \<Longrightarrow> inv (run step es s)"
  by (induction es arbitrary: s) (auto intro: inv_step)

end

locale budgeted = machine step ok inv
  for step :: "'e \<Rightarrow> 's \<Rightarrow> 's" and ok :: "'e \<Rightarrow> 's \<Rightarrow> bool" and inv :: "'s \<Rightarrow> bool" +
  fixes gain :: "'e \<Rightarrow> 's \<Rightarrow> nat" and budget :: "'s \<Rightarrow> nat"
  assumes pays: "inv s \<Longrightarrow> ok e s \<Longrightarrow> gain e s + budget (step e s) \<le> budget s"
begin

lemma total_le: "inv s \<Longrightarrow> legal ok step es s \<Longrightarrow> total gain step es s \<le> budget s"
proof (induction es arbitrary: s)
  case (Cons e es)
  then have "total gain step es (step e s) \<le> budget (step e s)"
    by (intro Cons.IH) (auto intro: inv_step)
  then show ?case using pays [of s e] Cons.prems by simp
qed simp

end

section \<open>Step relations\<close>

text \<open>The same for components whose steps interleave and are given as a relation.\<close>

locale step_invariant =
  fixes steps_to :: "'s \<Rightarrow> 's \<Rightarrow> bool" and holds :: "'s \<Rightarrow> bool"
  assumes kept: "holds s \<Longrightarrow> steps_to s s' \<Longrightarrow> holds s'"
begin

lemma holds_reachable: "steps_to\<^sup>*\<^sup>* s s' \<Longrightarrow> holds s \<Longrightarrow> holds s'"
  by (induction rule: rtranclp_induct) (auto intro: kept)

end

end
