(* ===== verification/RateLimiter.thy ===== *)
theory RateLimiter
  imports Runs
begin

text \<open>
  \<open>internal/auth/ratelimiter.go\<close>: the limiter of authentication attempts.  \<open>attempts\<close> is the Go map
  from client address to record; the mutex makes every method one step.  \<open>now\<close> is the reading of
  \<open>time.Now()\<close> in the method.  \<open>cleanup\<close> is one tick of the cleanup goroutine.
\<close>

record attemptRecord =
  count :: int
  firstTime :: time
  lastTime :: time
  blocked :: bool
  blockUntil :: time

record RateLimiter =
  maxAttempts :: int
  window :: duration
  attempts :: "(string, attemptRecord) fmap"

definition NewRateLimiter :: "int \<Rightarrow> duration \<Rightarrow> RateLimiter" where
  "NewRateLimiter n w = \<lparr> maxAttempts = n, window = w, attempts = fmempty \<rparr>"

definition put_attempt :: "string \<Rightarrow> attemptRecord \<Rightarrow> RateLimiter \<Rightarrow> RateLimiter" where
  "put_attempt addr r rl = rl\<lparr>attempts := fmupd addr r (attempts rl)\<rparr>"

definition Allow :: "string \<Rightarrow> time \<Rightarrow> RateLimiter \<Rightarrow> bool \<times> RateLimiter" where
  "Allow addr now rl = (case fmlookup (attempts rl) addr of
     None \<Rightarrow>
       (True, put_attempt addr \<lparr> count = 1, firstTime = now, lastTime = now, blocked = False, blockUntil = 0 \<rparr> rl)
   | Some r \<Rightarrow>
       if blocked r \<and> now < blockUntil r then (False, rl)
       else if time_sub now (firstTime r) > window rl then
         (True, put_attempt addr (r\<lparr>count := 1, firstTime := now, lastTime := now, blocked := False\<rparr>) rl)
       else
         let r = r\<lparr>count := wrap64 (count r + 1), lastTime := now\<rparr> in
         if count r > maxAttempts rl then
           (False, put_attempt addr (r\<lparr>blocked := True, blockUntil := now + wrap64 (window rl * 2)\<rparr>) rl)
         else (True, put_attempt addr r rl))"

definition RecordFailure :: "string \<Rightarrow> time \<Rightarrow> RateLimiter \<Rightarrow> RateLimiter" where
  "RecordFailure addr now rl = (case fmlookup (attempts rl) addr of
     None \<Rightarrow> rl
   | Some r \<Rightarrow>
       if count r \<ge> maxAttempts rl then
         put_attempt addr (r\<lparr>blocked := True, blockUntil := now + wrap64 (window rl * 3)\<rparr>) rl
       else rl)"

definition Reset :: "string \<Rightarrow> RateLimiter \<Rightarrow> RateLimiter" where
  "Reset addr rl = rl\<lparr>attempts := fmdrop addr (attempts rl)\<rparr>"

definition stale :: "time \<Rightarrow> RateLimiter \<Rightarrow> string \<Rightarrow> bool" where
  "stale now rl addr = (case fmlookup (attempts rl) addr of
     None \<Rightarrow> False
   | Some r \<Rightarrow> time_sub now (lastTime r) > wrap64 (window rl * 10))"

definition cleanup :: "time \<Rightarrow> RateLimiter \<Rightarrow> RateLimiter" where
  "cleanup now rl = rl\<lparr>attempts := fmfilter (\<lambda>addr. \<not> stale now rl addr) (attempts rl)\<rparr>"

text \<open>
  \<open>GetStats\<close> reads the clock once per record, so the reading is a function of the address.  The
  window is reported as a duration, not as its text.
\<close>

record RateLimiterStats =
  total_tracked :: nat
  blocked_count :: nat
  stats_max_attempts :: int
  stats_window :: duration

definition blocked_at :: "time \<Rightarrow> attemptRecord \<Rightarrow> bool" where
  "blocked_at now r \<longleftrightarrow> blocked r \<and> now < blockUntil r"

definition GetStats :: "(string \<Rightarrow> time) \<Rightarrow> RateLimiter \<Rightarrow> RateLimiterStats" where
  "GetStats now rl = \<lparr>
     total_tracked = fcard (fmdom (attempts rl)),
     blocked_count = fcard (ffilter (\<lambda>addr. case fmlookup (attempts rl) addr of
         None \<Rightarrow> False | Some r \<Rightarrow> blocked_at (now addr) r) (fmdom (attempts rl))),
     stats_max_attempts = maxAttempts rl,
     stats_window = window rl \<rparr>"

lemmas RateLimiter_defs [go_defs] =
  Allow_def RecordFailure_def Reset_def cleanup_def put_attempt_def Let_def

section \<open>Runs\<close>

datatype rl_op = OpAllow string | OpFailure string | OpReset string | OpCleanup

type_synonym rl_state = "time \<times> RateLimiter"

fun rl_apply :: "time \<Rightarrow> rl_op \<Rightarrow> RateLimiter \<Rightarrow> RateLimiter" where
  "rl_apply now (OpAllow addr) rl = snd (Allow addr now rl)"
| "rl_apply now (OpFailure addr) rl = RecordFailure addr now rl"
| "rl_apply now (OpReset addr) rl = Reset addr rl"
| "rl_apply now OpCleanup rl = cleanup now rl"

fun rl_step :: "time \<times> rl_op \<Rightarrow> rl_state \<Rightarrow> rl_state" where
  "rl_step (now, e) (clock, rl) = (now, rl_apply now e rl)"

fun rl_ok :: "time \<times> rl_op \<Rightarrow> rl_state \<Rightarrow> bool" where
  "rl_ok (now, e) (clock, rl) \<longleftrightarrow> clock \<le> now"

text \<open>
  The invariant: a record's times are not in the future, its count stays between one and one more than
  the limit, a record over the limit is blocked for two windows after its last attempt, and no block
  reaches further than three windows ahead.
\<close>

definition rl_config :: "RateLimiter \<Rightarrow> bool" where
  "rl_config rl \<longleftrightarrow> 1 \<le> maxAttempts rl \<and> maxAttempts rl < 2 ^ 63 - 1 \<and> 0 < window rl \<and> window rl * 10 < 2 ^ 63 - 1"

definition attempt_ok :: "time \<Rightarrow> int \<Rightarrow> duration \<Rightarrow> attemptRecord \<Rightarrow> bool" where
  "attempt_ok clock n w r \<longleftrightarrow>
     firstTime r \<le> lastTime r \<and> lastTime r \<le> clock \<and> 1 \<le> count r \<and> count r \<le> n + 1 \<and>
     (count r = n + 1 \<longrightarrow> blocked r \<and> lastTime r + w * 2 \<le> blockUntil r) \<and>
     (blocked r \<longrightarrow> blockUntil r \<le> clock + w * 3)"

definition rl_inv :: "rl_state \<Rightarrow> bool" where
  "rl_inv s \<longleftrightarrow> (case s of (clock, rl) \<Rightarrow> rl_config rl \<and>
     (\<forall>addr r. fmlookup (attempts rl) addr = Some r \<longrightarrow> attempt_ok clock (maxAttempts rl) (window rl) r))"

lemma rl_wraps:
  assumes "rl_config rl"
  shows "wrap64 (window rl * 2) = window rl * 2" "wrap64 (window rl * 3) = window rl * 3"
    "wrap64 (window rl * 10) = window rl * 10"
    "1 \<le> c \<Longrightarrow> c \<le> maxAttempts rl \<Longrightarrow> wrap64 (c + 1) = c + 1"
    "window rl < time_sub t u \<longleftrightarrow> window rl < t - u"
    "window rl * 10 < time_sub t u \<longleftrightarrow> window rl * 10 < t - u"
  using assms by (auto simp: rl_config_def in_i64_def time_sub_gt intro!: wrap64_id)

lemma attempt_ok_mono: "attempt_ok c n w r \<Longrightarrow> c \<le> d \<Longrightarrow> attempt_ok d n w r"
  by (auto simp: attempt_ok_def)

text \<open>In a state that satisfies the invariant, \<open>Allow\<close> never wraps around.\<close>

lemma Allow_Some:
  assumes conf: "rl_config rl" and r: "fmlookup (attempts rl) addr = Some r"
    and ok: "attempt_ok clock (maxAttempts rl) (window rl) r" and "clock \<le> now"
  shows "Allow addr now rl =
    (if blocked_at now r then (False, rl)
     else if window rl < now - firstTime r then
       (True, put_attempt addr (r\<lparr>count := 1, firstTime := now, lastTime := now, blocked := False\<rparr>) rl)
     else if count r < maxAttempts rl then
       (True, put_attempt addr (r\<lparr>count := count r + 1, lastTime := now\<rparr>) rl)
     else (False, put_attempt addr
       (r\<lparr>count := count r + 1, lastTime := now, blocked := True, blockUntil := now + window rl * 2\<rparr>) rl))"
proof (cases "blocked_at now r \<or> window rl < now - firstTime r")
  case False
  have "count r \<noteq> maxAttempts rl + 1"
    using False ok conf by (auto simp: attempt_ok_def blocked_at_def rl_config_def)
  then have "wrap64 (count r + 1) = count r + 1"
    using ok rl_wraps(4) [OF conf] by (auto simp: attempt_ok_def)
  then show ?thesis
    using False r rl_wraps [OF conf] by (auto simp: Allow_def Let_def blocked_at_def)
qed (use r rl_wraps [OF conf] in \<open>auto simp: Allow_def blocked_at_def\<close>)

lemma Allow_None:
  "fmlookup (attempts rl) addr = None \<Longrightarrow> Allow addr now rl =
     (True, put_attempt addr \<lparr> count = 1, firstTime = now, lastTime = now, blocked = False, blockUntil = 0 \<rparr> rl)"
  by (simp add: Allow_def)

lemma put_attempt_simps [simp]:
  "maxAttempts (put_attempt addr r rl) = maxAttempts rl" "window (put_attempt addr r rl) = window rl"
  "fmlookup (attempts (put_attempt addr r rl)) a = (if a = addr then Some r else fmlookup (attempts rl) a)"
  by (simp_all add: put_attempt_def)

lemma rl_config_put [simp]: "rl_config (put_attempt addr r rl) = rl_config rl"
  by (simp add: rl_config_def)

lemma rl_inv_put:
  "rl_inv (clock, rl) \<Longrightarrow> clock \<le> now \<Longrightarrow> attempt_ok now (maxAttempts rl) (window rl) r \<Longrightarrow>
     rl_inv (now, put_attempt addr r rl)"
  by (auto simp: rl_inv_def intro: attempt_ok_mono)

lemma rl_inv_lookup:
  "rl_inv (clock, rl) \<Longrightarrow> fmlookup (attempts rl) addr = Some r \<Longrightarrow>
     attempt_ok clock (maxAttempts rl) (window rl) r"
  by (simp add: rl_inv_def)

lemma rl_inv_mono: "rl_inv (clock, rl) \<Longrightarrow> clock \<le> now \<Longrightarrow> rl_inv (now, rl)"
  by (auto simp: rl_inv_def intro: attempt_ok_mono)

lemma rl_inv_config: "rl_inv (clock, rl) \<Longrightarrow> rl_config rl"
  by (simp add: rl_inv_def)

lemma rl_inv_Allow [inv_intros]:
  assumes inv: "rl_inv (clock, rl)" and "clock \<le> now"
  shows "rl_inv (now, snd (Allow addr now rl))"
proof (cases "fmlookup (attempts rl) addr")
  case None
  have "attempt_ok now (maxAttempts rl) (window rl)
      \<lparr> count = 1, firstTime = now, lastTime = now, blocked = False, blockUntil = 0 \<rparr>"
    using rl_inv_config [OF inv] by (simp add: attempt_ok_def rl_config_def)
  then show ?thesis using None assms by (simp add: Allow_None rl_inv_put)
next
  case (Some r)
  note conf = rl_inv_config [OF inv] and ok = rl_inv_lookup [OF inv Some]
  show ?thesis
    using conf ok assms
    by (auto simp: Allow_Some [OF conf Some ok assms(2)] attempt_ok_def rl_config_def blocked_at_def
        intro!: rl_inv_put intro: rl_inv_mono)
qed

lemma rl_inv_RecordFailure [inv_intros]:
  assumes inv: "rl_inv (clock, rl)" and "clock \<le> now"
  shows "rl_inv (now, RecordFailure addr now rl)"
proof (cases "fmlookup (attempts rl) addr")
  case (Some r)
  note conf = rl_inv_config [OF inv] and ok = rl_inv_lookup [OF inv Some]
  show ?thesis
    using ok conf assms Some rl_wraps [OF conf]
    by (auto simp: RecordFailure_def attempt_ok_def rl_config_def intro!: rl_inv_put intro: rl_inv_mono)
qed (use assms in \<open>auto simp: RecordFailure_def intro: rl_inv_mono\<close>)

lemma rl_inv_Reset [inv_intros]:
  "rl_inv (clock, rl) \<Longrightarrow> clock \<le> now \<Longrightarrow> rl_inv (now, Reset addr rl)"
  by (auto simp: Reset_def rl_inv_def rl_config_def fmlookup_drop intro: attempt_ok_mono split: if_splits)

lemma rl_inv_cleanup [inv_intros]:
  "rl_inv (clock, rl) \<Longrightarrow> clock \<le> now \<Longrightarrow> rl_inv (now, cleanup now rl)"
  by (auto simp: cleanup_def rl_inv_def rl_config_def intro: attempt_ok_mono split: if_splits)

interpretation rl: machine rl_step rl_ok rl_inv
proof
  fix s e
  assume "rl_inv s" "rl_ok e s"
  then show "rl_inv (rl_step e s)"
    by (cases s; cases e; cases "snd e") (auto intro: inv_intros)
qed

section \<open>What the operations keep\<close>

lemma Allow_frame [simp]:
  "a \<noteq> addr \<Longrightarrow> fmlookup (attempts (snd (Allow addr now rl))) a = fmlookup (attempts rl) a"
  "maxAttempts (snd (Allow addr now rl)) = maxAttempts rl" "window (snd (Allow addr now rl)) = window rl"
  by (auto simp: Allow_def Let_def split: option.splits)

lemma RecordFailure_frame [simp]:
  "a \<noteq> addr \<Longrightarrow> fmlookup (attempts (RecordFailure addr now rl)) a = fmlookup (attempts rl) a"
  "maxAttempts (RecordFailure addr now rl) = maxAttempts rl" "window (RecordFailure addr now rl) = window rl"
  by (auto simp: RecordFailure_def split: option.splits)

lemma Reset_frame [simp]:
  "fmlookup (attempts (Reset addr rl)) a = (if a = addr then None else fmlookup (attempts rl) a)"
  "maxAttempts (Reset addr rl) = maxAttempts rl" "window (Reset addr rl) = window rl"
  by (auto simp: Reset_def fmlookup_drop)

lemma cleanup_frame [simp]:
  "fmlookup (attempts (cleanup now rl)) a = (if stale now rl a then None else fmlookup (attempts rl) a)"
  "maxAttempts (cleanup now rl) = maxAttempts rl" "window (cleanup now rl) = window rl"
  by (auto simp: cleanup_def)

lemma stale_Some:
  "rl_config rl \<Longrightarrow> fmlookup (attempts rl) addr = Some r \<Longrightarrow>
     stale now rl addr \<longleftrightarrow> window rl * 10 < now - lastTime r"
  by (simp add: stale_def rl_wraps)

lemma RecordFailure_Some:
  assumes "rl_config rl" "fmlookup (attempts rl) addr = Some r"
  shows "fmlookup (attempts (RecordFailure addr now rl)) addr =
    Some (if maxAttempts rl \<le> count r then r\<lparr>blocked := True, blockUntil := now + window rl * 3\<rparr> else r)"
  using assms by (simp add: RecordFailure_def rl_wraps)

definition rl_same_config :: "int \<Rightarrow> duration \<Rightarrow> rl_state \<Rightarrow> bool" where
  "rl_same_config n w s \<longleftrightarrow> maxAttempts (snd s) = n \<and> window (snd s) = w"

interpretation rl_conf: machine rl_step "\<lambda>_ _. True" "rl_same_config n w" for n w
proof
  fix s e
  assume "rl_same_config n w s"
  then show "rl_same_config n w (rl_step e s)"
    by (cases s; cases e; cases "snd e") (auto simp: rl_same_config_def)
qed

lemma rl_run_config:
  "maxAttempts (snd (run rl_step es s)) = maxAttempts (snd s)" "window (snd (run rl_step es s)) = window (snd s)"
  using rl_conf.inv_run [of "maxAttempts (snd s)" "window (snd s)" s es] by (simp_all add: rl_same_config_def)

lemma rl_inv_New:
  "1 \<le> n \<Longrightarrow> n < 2 ^ 63 - 1 \<Longrightarrow> 0 < w \<Longrightarrow> w * 10 < 2 ^ 63 - 1 \<Longrightarrow> rl_inv (t0, NewRateLimiter n w)"
  by (simp add: rl_inv_def NewRateLimiter_def rl_config_def)

section \<open>The rate bound\<close>

definition rl_admit :: "string \<Rightarrow> time \<times> rl_op \<Rightarrow> rl_state \<Rightarrow> nat" where
  "rl_admit addr e s = (if snd e = OpAllow addr \<and> fst (Allow addr (fst e) (snd s)) then 1 else 0)"

definition rl_ok_in :: "string \<Rightarrow> time \<Rightarrow> time \<times> rl_op \<Rightarrow> rl_state \<Rightarrow> bool" where
  "rl_ok_in addr a e s \<longleftrightarrow> rl_ok e s \<and> a \<le> fst e \<and> fst e \<le> a + window (snd s) \<and> snd e \<noteq> OpReset addr"

definition rl_budget :: "string \<Rightarrow> time \<Rightarrow> rl_state \<Rightarrow> nat" where
  "rl_budget addr a s = (case fmlookup (attempts (snd s)) addr of
      None \<Rightarrow> nat (maxAttempts (snd s))
    | Some r \<Rightarrow> nat (maxAttempts (snd s) - count r) + (if a \<le> firstTime r then 0 else nat (maxAttempts (snd s))))"

lemma rl_budget_pair:
  "rl_budget addr a (clock, rl) = (case fmlookup (attempts rl) addr of
      None \<Rightarrow> nat (maxAttempts rl)
    | Some r \<Rightarrow> nat (maxAttempts rl - count r) + (if a \<le> firstTime r then 0 else nat (maxAttempts rl)))"
  by (simp add: rl_budget_def split: option.split)

lemma budget_Allow:
  assumes inv: "rl_inv (clock, rl)" and now: "clock \<le> now" "a \<le> now" "now \<le> a + window rl"
  shows "rl_admit addr (now, OpAllow addr) (clock, rl) + rl_budget addr a (now, snd (Allow addr now rl))
    \<le> rl_budget addr a (clock, rl)"
proof (cases "fmlookup (attempts rl) addr")
  case None
  then show ?thesis
    using rl_inv_config [OF inv] now by (auto simp: Allow_None rl_admit_def rl_budget_pair rl_config_def)
next
  case (Some r)
  note conf = rl_inv_config [OF inv] and ok = rl_inv_lookup [OF inv Some]
  show ?thesis
    using now conf ok Some
    by (auto simp: rl_admit_def rl_budget_pair attempt_ok_def rl_config_def Allow_Some [OF conf Some ok now(1)])
qed

interpretation rl_rate: budgeted rl_step "rl_ok_in addr a" rl_inv "rl_admit addr" "rl_budget addr a" for addr a
proof
  fix s e
  assume inv: "rl_inv s" and ok: "rl_ok_in addr a e s"
  then show "rl_inv (rl_step e s)" by (auto simp: rl_ok_in_def intro: rl.inv_step)
  obtain clock rl where s: "s = (clock, rl)" by (cases s)
  obtain now f where e: "e = (now, f)" by (cases e)
  have now: "clock \<le> now" "a \<le> now" "now \<le> a + window rl" "f \<noteq> OpReset addr"
    using ok by (auto simp: rl_ok_in_def s e)
  have conf: "rl_config rl" using rl_inv_config inv s by simp
  show "rl_admit addr e s + rl_budget addr a (rl_step e s) \<le> rl_budget addr a s"
  proof (cases f)
    case (OpAllow b)
    then show ?thesis
      using budget_Allow [of clock rl now a addr] inv now
      by (cases "b = addr") (auto simp: s e rl_admit_def rl_budget_pair split: option.split)
  next
    case (OpFailure b)
    then show ?thesis
      using RecordFailure_Some [OF conf, of addr _ now]
      by (cases "b = addr"; cases "fmlookup (attempts rl) addr")
         (auto simp: s e rl_admit_def rl_budget_pair RecordFailure_def split: option.split)
  next
    case OpCleanup
    show ?thesis
    proof (cases "fmlookup (attempts rl) addr")
      case (Some r)
      have "\<not> a \<le> firstTime r" if "window rl * 10 < now - lastTime r"
        using that now conf rl_inv_lookup [OF _ Some] inv s by (fastforce simp: attempt_ok_def rl_config_def)
      then show ?thesis
        using OpCleanup Some stale_Some [OF conf Some, of now] by (auto simp: s e rl_admit_def rl_budget_pair)
    qed (use OpCleanup in \<open>auto simp: s e rl_admit_def rl_budget_pair\<close>)
  qed (use now in \<open>auto simp: s e rl_admit_def rl_budget_pair split: option.split\<close>)
qed

lemma rl_budget_le: "rl_inv (clock, rl) \<Longrightarrow> rl_budget addr a (clock, rl) \<le> 2 * nat (maxAttempts rl)"
  using rl_inv_lookup [of clock rl addr]
  by (cases "fmlookup (attempts rl) addr") (auto simp: rl_budget_pair attempt_ok_def)

section \<open>Lockout\<close>

text \<open>A client that exceeded the limit at \<open>t\<close>, during the two windows that follow.\<close>

definition rl_locked :: "string \<Rightarrow> time \<Rightarrow> rl_state \<Rightarrow> bool" where
  "rl_locked addr t s \<longleftrightarrow> rl_inv s \<and> (\<exists>r. fmlookup (attempts (snd s)) addr = Some r \<and>
     blocked r \<and> t \<le> lastTime r \<and> t + window (snd s) * 2 \<le> blockUntil r \<and> maxAttempts (snd s) < count r)"

definition rl_ok_lock :: "string \<Rightarrow> time \<Rightarrow> time \<times> rl_op \<Rightarrow> rl_state \<Rightarrow> bool" where
  "rl_ok_lock addr t e s \<longleftrightarrow>
     rl_ok e s \<and> t \<le> fst e \<and> fst e < t + window (snd s) * 2 \<and> snd e \<noteq> OpReset addr"

lemma locked_Allow:
  assumes "rl_locked addr t s" "now < t + window (snd s) * 2"
  shows "Allow addr now (snd s) = (False, snd s)"
  using assms by (auto simp: rl_locked_def Allow_def)

interpretation rl_lock: machine rl_step "rl_ok_lock addr t" "rl_locked addr t" for addr t
proof
  fix s e
  assume l: "rl_locked addr t s" and ok: "rl_ok_lock addr t e s"
  obtain clock rl now f where s: "s = (clock, rl)" and e: "e = (now, f)" by (cases s; cases e) auto
  obtain r where r: "fmlookup (attempts rl) addr = Some r" and
    b: "blocked r" "t \<le> lastTime r" "t + window rl * 2 \<le> blockUntil r" "maxAttempts rl < count r"
    using l by (auto simp: rl_locked_def s)
  have inv: "rl_inv (rl_step e s)" using l ok by (auto simp: rl_locked_def rl_ok_lock_def intro: rl.inv_step)
  have conf: "rl_config rl" and now: "t \<le> now" "now < t + window rl * 2" "f \<noteq> OpReset addr"
    using l ok rl_inv_config by (auto simp: rl_locked_def rl_ok_lock_def s e)
  have "\<not> stale now rl addr"
    using stale_Some [OF conf r, of now] b(2) now conf by (simp add: rl_config_def)
  moreover have "fmlookup (attempts (snd (Allow a now rl))) addr = Some r" for a
    using locked_Allow [OF l] now r by (cases "a = addr") (auto simp: s)
  moreover have "\<exists>r'. fmlookup (attempts (RecordFailure a now rl)) addr = Some r' \<and> blocked r' \<and>
      t \<le> lastTime r' \<and> t + window rl * 2 \<le> blockUntil r' \<and> maxAttempts rl < count r'" for a
    using RecordFailure_Some [OF conf r, of now] r b now conf by (cases "a = addr") (auto simp: rl_config_def)
  ultimately show "rl_locked addr t (rl_step e s)"
    using inv r b now unfolding rl_locked_def s e by (cases f) auto
qed

section \<open>Attempts in the first window\<close>

fun allow_all :: "string \<Rightarrow> time list \<Rightarrow> RateLimiter \<Rightarrow> bool list" where
  "allow_all addr [] rl = []"
| "allow_all addr (t # ts) rl = (case Allow addr t rl of (b, rl') \<Rightarrow> b # allow_all addr ts rl')"

lemma allow_all_counts:
  assumes "rl_inv (clock, rl)" "fmlookup (attempts rl) addr = Some r" "firstTime r = t0"
    and "blocked r \<longrightarrow> maxAttempts rl < count r"
    and "sorted ts" "\<forall>t \<in> set ts. clock \<le> t \<and> t \<le> t0 + window rl"
  shows "allow_all addr ts rl = map (\<lambda>i. count r + int i < maxAttempts rl) [0..<length ts]"
  using assms
proof (induction ts arbitrary: clock rl r)
  case (Cons t ts)
  let ?rl = "snd (Allow addr t rl)"
  note conf = rl_inv_config [OF Cons.prems(1)] and ok = rl_inv_lookup [OF Cons.prems(1,2)]
  have t: "clock \<le> t" "t \<le> t0 + window rl" using Cons.prems(6) by auto
  note A = Allow_Some [OF conf Cons.prems(2) ok t(1)]
  have lt: "blocked_at t r \<longleftrightarrow> maxAttempts rl < count r"
    using ok conf t Cons.prems(3,4) by (auto simp: attempt_ok_def blocked_at_def rl_config_def)
  obtain r' where r': "fmlookup (attempts ?rl) addr = Some r'" "firstTime r' = t0"
      "blocked r' \<longrightarrow> maxAttempts rl < count r'"
      "\<And>i. count r' + int i < maxAttempts rl \<longleftrightarrow> count r + int (Suc i) < maxAttempts rl"
  proof (cases "maxAttempts rl < count r")
    case True
    then show ?thesis using that [of r] A Cons.prems(2-4) lt by auto
  next
    case False
    then show ?thesis
      using that [of "r\<lparr>count := count r + 1, lastTime := t\<rparr>"]
        that [of "r\<lparr>count := count r + 1, lastTime := t, blocked := True, blockUntil := t + window rl * 2\<rparr>"]
        A Cons.prems(2-4) t lt
      by (cases "count r < maxAttempts rl") (auto simp: add.assoc)
  qed
  have "allow_all addr ts ?rl = map (\<lambda>i. count r' + int i < maxAttempts rl) [0..<length ts]"
    using Cons.IH [of t ?rl r'] rl_inv_Allow [OF Cons.prems(1) t(1), of addr] r' Cons.prems(5,6) by auto
  moreover have "fst (Allow addr t rl) \<longleftrightarrow> count r < maxAttempts rl"
    using A t lt Cons.prems(3) by auto
  ultimately show ?case
    using r'(4) by (simp add: case_prod_beta map_upt_Suc del: upt_Suc)
qed simp

section \<open>Properties\<close>

text \<open>
  C7: However the operations of the limiter interleave, in any time span of one window a client address
  without a successful login gets at most twice the configured number of attempts through.
\<close>

theorem rate_bound:
  assumes "1 \<le> n" "n < 2 ^ 63 - 1" "0 < w" "w * 10 < 2 ^ 63 - 1"
    and "legal rl_ok rl_step es0 (start, NewRateLimiter n w)"
    and "legal (rl_ok_in addr a) rl_step es (run rl_step es0 (start, NewRateLimiter n w))"
  shows "total (rl_admit addr) rl_step es (run rl_step es0 (start, NewRateLimiter n w)) \<le> 2 * nat n"
proof -
  let ?s = "run rl_step es0 (start, NewRateLimiter n w)"
  have inv: "rl_inv ?s" using assms by (intro rl.inv_run rl_inv_New)
  then have "rl_budget addr a ?s \<le> 2 * nat n"
    using rl_budget_le [of "fst ?s" "snd ?s" addr a] by (simp add: rl_run_config NewRateLimiter_def)
  then show ?thesis using rl_rate.total_le [OF inv assms(6)] by simp
qed

theorem rate_bound_witness:
  "total (rl_admit ''10.0.0.1'') rl_step
     [(100, OpAllow ''10.0.0.1''), (100, OpFailure ''10.0.0.1''), (200, OpAllow ''10.0.0.1'')]
     (run rl_step [(5, OpAllow ''10.0.0.1''), (7, OpAllow ''10.0.0.2'')] (0, NewRateLimiter 1 minute)) \<le> 2 * nat 1"
  by (rule rate_bound [where a = 100])
     (simp_all add: minute_def rl_ok_in_def NewRateLimiter_def Allow_def RecordFailure_def put_attempt_def Let_def
       time_sub_def wrap64_def)

text \<open>
  Within the window that a client's first attempt opens, exactly the first \<open>maxAttempts\<close> attempts are
  let through and all later ones are refused.
\<close>

theorem first_window_exact:
  assumes "rl_inv (clock, rl)" "fmlookup (attempts rl) addr = None"
    and "sorted (start # ts)" "clock \<le> start" "\<forall>t \<in> set ts. t \<le> start + window rl"
  shows "allow_all addr (start # ts) rl = map (\<lambda>i. int i < maxAttempts rl) [0..<length (start # ts)]"
proof -
  let ?r = "\<lparr> count = 1, firstTime = start, lastTime = start, blocked = False, blockUntil = 0 \<rparr>"
  have "allow_all addr ts (put_attempt addr ?r rl) = map (\<lambda>i. count ?r + int i < maxAttempts rl) [0..<length ts]"
    using allow_all_counts [of start "put_attempt addr ?r rl" addr ?r start ts] assms
      rl_inv_Allow [OF assms(1,4), of addr] by (simp add: Allow_None)
  moreover have "1 \<le> maxAttempts rl" using rl_inv_config [OF assms(1)] by (simp add: rl_config_def)
  ultimately show ?thesis using assms(2) by (simp add: Allow_None map_upt_Suc del: upt_Suc)
qed

theorem first_window_exact_witness:
  "allow_all ''10.0.0.1'' [10, 20, 30, 40] (NewRateLimiter 3 minute) = [True, True, True, False]"
  using first_window_exact [of 0 "NewRateLimiter 3 minute" "''10.0.0.1''" 10 "[20, 30, 40]"]
    rl_inv_New [of 3 minute 0] by (simp add: NewRateLimiter_def minute_def upt_rec)



text \<open>
  No client is locked out for good: whatever happened before, an attempt more than three windows after
  the last operation is let through.
\<close>

theorem lockout_ends:
  assumes "1 \<le> n" "n < 2 ^ 63 - 1" "0 < w" "w * 10 < 2 ^ 63 - 1"
    and "legal rl_ok rl_step es (start, NewRateLimiter n w)"
    and "run rl_step es (start, NewRateLimiter n w) = (clock, rl)" "clock + w * 3 < now"
  shows "fst (Allow addr now rl)"
proof (cases "fmlookup (attempts rl) addr")
  case (Some r)
  have inv: "rl_inv (clock, rl)"
    using rl.inv_run [OF rl_inv_New assms(5)] assms(1-4,6) by simp
  have w: "window rl = w"
    using rl_run_config(2) [of es "(start, NewRateLimiter n w)"] assms(6) by (simp add: NewRateLimiter_def)
  note conf = rl_inv_config [OF inv] and ok = rl_inv_lookup [OF inv Some]
  have "\<not> blocked_at now r" "window rl < now - firstTime r"
    using ok w assms(3,7) by (auto simp: attempt_ok_def blocked_at_def)
  then show ?thesis using Allow_Some [OF conf Some ok, of now] assms(3,7) by simp
qed (simp add: Allow_None)

theorem lockout_ends_witness:
  "fst (Allow ''10.0.0.1'' 180000000021 (snd (Allow ''10.0.0.1'' 20 (snd (Allow ''10.0.0.1'' 10 (NewRateLimiter 1 minute))))))"
  using lockout_ends [of 1 minute "[(10, OpAllow ''10.0.0.1''), (20, OpAllow ''10.0.0.1'')]" 0 20 _ 180000000021 "''10.0.0.1''"]
  by (simp add: minute_def)

end
