(* ===== verification/Auth.thy ===== *)
theory Auth
  imports Messages GoNet RateLimiter
begin

text \<open>
  \<open>internal/auth/auth.go\<close>: the authenticator.  \<open>Authenticate\<close> reads the clock several times; \<open>now k\<close> is
  its reading number \<open>k\<close>, counted in program order.  Decoding and encoding of protobuf messages are
  parameters.  \<open>NewAuthenticator\<close> is called with a configuration; the defaults that \<open>DefaultConfig\<close>
  reads from the environment are not modelled.
\<close>

record Config =
  cfg_Username :: string
  cfg_Password :: string
  cfg_Timeout :: duration
  cfg_MaxAttempts :: int
  cfg_RateLimitWindow :: duration

record Session =
  ClientID :: string
  Username :: string
  Authenticated :: bool
  AuthTime :: time
  LastActivity :: time

record Authenticator =
  config :: Config
  rateLimiter :: RateLimiter
  sessions :: "(string, Session) fmap"

definition NewAuthenticator :: "Config \<Rightarrow> Authenticator" where
  "NewAuthenticator c = \<lparr> config = c,
     rateLimiter = NewRateLimiter (cfg_MaxAttempts c) (cfg_RateLimitWindow c), sessions = fmempty \<rparr>"

definition ValidateFirstFrame :: "Frame \<Rightarrow> go_error option" where
  "ValidateFirstFrame frame = (if Type frame \<noteq> MessageTypeAuth then Some (E ErrFirstFrameMustBeAuth) else None)"

definition ip_key :: "string \<Rightarrow> string" where
  "ip_key clientAddr = (case SplitHostPort clientAddr of Inr (host, _) \<Rightarrow> host | Inl _ \<Rightarrow> clientAddr)"

definition IsAuthenticated :: "Authenticator \<Rightarrow> string \<Rightarrow> bool" where
  "IsAuthenticated a clientAddr = (case fmlookup (sessions a) clientAddr of None \<Rightarrow> False | Some s \<Rightarrow> Authenticated s)"

definition Authenticate :: "(bytes \<Rightarrow> go_error + AuthRequest) \<Rightarrow> (nat \<Rightarrow> time) \<Rightarrow> string \<Rightarrow> Frame \<Rightarrow> Authenticator
    \<Rightarrow> (go_error + Session) \<times> Authenticator" where
  "Authenticate protoUnmarshal now clientAddr frame a =
    (let ipKey = ip_key clientAddr; (allowed, rl) = Allow ipKey (now 0) (rateLimiter a);
         a = a\<lparr>rateLimiter := rl\<rparr> in
     if \<not> allowed then (Inl (E Auth_ErrRateLimited), a)
     else if (case fmlookup (sessions a) clientAddr of None \<Rightarrow> False | Some session \<Rightarrow> Authenticated session)
       then (Inl (E ErrAlreadyAuthenticated), a)
     else (case protoUnmarshal (Payload frame) of
       Inl err \<Rightarrow> (Inl (Wrapf ''failed to unmarshal auth request'' err), a)
     | Inr authReq \<Rightarrow>
       if auth_Username authReq \<noteq> cfg_Username (config a) \<or> auth_Password authReq \<noteq> cfg_Password (config a) then
         (Inl (E ErrInvalidCredentials), a\<lparr>rateLimiter := RecordFailure ipKey (now 1) (rateLimiter a)\<rparr>)
       else
         let session = \<lparr> ClientID = auth_ClientId authReq, Username = auth_Username authReq,
               Authenticated = True, AuthTime = now 1, LastActivity = now 2 \<rparr>;
             a = a\<lparr>sessions := fmupd clientAddr session (sessions a)\<rparr>;
             a = a\<lparr>rateLimiter := Reset ipKey (rateLimiter a)\<rparr> in
         (Inr session, a)))"

definition GetSession :: "Authenticator \<Rightarrow> string \<Rightarrow> Session option" where
  "GetSession a clientAddr = fmlookup (sessions a) clientAddr"

definition RemoveSession :: "string \<Rightarrow> Authenticator \<Rightarrow> Authenticator" where
  "RemoveSession clientAddr a = a\<lparr>sessions := fmdrop clientAddr (sessions a)\<rparr>"

definition UpdateActivity :: "time \<Rightarrow> string \<Rightarrow> Authenticator \<Rightarrow> Authenticator" where
  "UpdateActivity now clientAddr a = (case fmlookup (sessions a) clientAddr of
     None \<Rightarrow> a
   | Some s \<Rightarrow> a\<lparr>sessions := fmupd clientAddr (s\<lparr>LastActivity := now\<rparr>) (sessions a)\<rparr>)"

text \<open>The response builders ignore a marshalling error; the payload is then empty.\<close>

definition payload_of :: "go_error + bytes \<Rightarrow> bytes" where
  "payload_of r = (case r of Inl _ \<Rightarrow> [] | Inr p \<Rightarrow> p)"

definition CreateAckResponse :: "(AckResponse \<Rightarrow> go_error + bytes) \<Rightarrow> time \<Rightarrow> Frame" where
  "CreateAckResponse protoMarshal now = new_frame ProtocolVersion MessageTypeACK (payload_of (protoMarshal
     \<lparr> ack_AckType = MESSAGE_TYPE_AUTH, ack_Success = True, ack_Message = ''Authentication successful'',
       ack_TimestampMs = unix_milli now, ack_Metadata = [] \<rparr>))"

definition CreateErrorResponse :: "(ErrorResponse \<Rightarrow> go_error + bytes) \<Rightarrow> time \<Rightarrow> int \<Rightarrow> string \<Rightarrow> Frame" where
  "CreateErrorResponse protoMarshal now code message = new_frame ProtocolVersion MessageTypeError (payload_of (protoMarshal
     \<lparr> err_Code = code, err_Message = message, err_Details = [], err_TimestampMs = unix_milli now \<rparr>))"

section \<open>The limiter behind \<open>Authenticate\<close>\<close>

lemma Authenticate_config [simp]: "config (snd (Authenticate um now addr frame a)) = config a"
  by (auto simp: Authenticate_def Let_def split: prod.split sum.split option.split)

text \<open>Every call performs these operations on the rate limiter, in this order.\<close>

definition auth_ops :: "(bytes \<Rightarrow> go_error + AuthRequest) \<Rightarrow> (nat \<Rightarrow> time) \<Rightarrow> string \<Rightarrow> Frame \<Rightarrow> Authenticator
    \<Rightarrow> (time \<times> rl_op) list" where
  "auth_ops um now addr frame a = (now 0, OpAllow (ip_key addr)) #
    (case fst (Authenticate um now addr frame a) of
      Inl e \<Rightarrow> if e = E ErrInvalidCredentials then [(now 1, OpFailure (ip_key addr))] else []
    | Inr s \<Rightarrow> [(now 1, OpReset (ip_key addr))])"

lemma Authenticate_limiter:
  "rateLimiter (snd (Authenticate um now addr frame a)) =
     snd (run rl_step (auth_ops um now addr frame a) (clock, rateLimiter a))"
  by (simp add: Authenticate_def auth_ops_def Let_def split: prod.split sum.split option.split)

type_synonym auth_event = "(nat \<Rightarrow> time) \<times> string \<times> Frame"
type_synonym auth_state = "time \<times> Authenticator"

fun auth_step :: "(bytes \<Rightarrow> go_error + AuthRequest) \<Rightarrow> auth_event \<Rightarrow> auth_state \<Rightarrow> auth_state" where
  "auth_step um (now, addr, frame) (clock, a) = (now 1, snd (Authenticate um now addr frame a))"

text \<open>
  An attempt in the time span of one window from \<open>t\<close>; no attempt from the host \<open>ip\<close> succeeds.
\<close>

fun auth_ok :: "(bytes \<Rightarrow> go_error + AuthRequest) \<Rightarrow> string \<Rightarrow> time \<Rightarrow> auth_event \<Rightarrow> auth_state \<Rightarrow> bool" where
  "auth_ok um ip t (now, addr, frame) (clock, a) \<longleftrightarrow>
     clock \<le> now 0 \<and> t \<le> now 0 \<and> now 0 \<le> now 1 \<and> now 1 \<le> t + window (rateLimiter a) \<and>
     (ip_key addr = ip \<longrightarrow> (\<exists>e. fst (Authenticate um now addr frame a) = Inl e))"

text \<open>An attempt counts as a guess when the limiter lets it reach the credentials.\<close>

fun auth_guess :: "(bytes \<Rightarrow> go_error + AuthRequest) \<Rightarrow> string \<Rightarrow> auth_event \<Rightarrow> auth_state \<Rightarrow> nat" where
  "auth_guess um ip (now, addr, frame) (clock, a) =
     (if ip_key addr = ip \<and> fst (Authenticate um now addr frame a) \<noteq> Inl (E Auth_ErrRateLimited) then 1 else 0)"

definition auth_inv :: "auth_state \<Rightarrow> bool" where
  "auth_inv s \<longleftrightarrow> rl_inv (fst s, rateLimiter (snd s))"

definition auth_budget :: "string \<Rightarrow> time \<Rightarrow> auth_state \<Rightarrow> nat" where
  "auth_budget ip t s = rl_budget ip t (fst s, rateLimiter (snd s))"

lemma limited_iff:
  "fst (Authenticate um now addr frame a) \<noteq> Inl (E Auth_ErrRateLimited) \<longrightarrow> fst (Allow (ip_key addr) (now 0) (rateLimiter a))"
  by (simp add: Authenticate_def Let_def split: prod.split sum.split option.split)

lemma auth_ops_legal:
  assumes "auth_ok um ip t (now, addr, frame) (clock, a)"
  shows "legal (rl_ok_in ip t) rl_step (auth_ops um now addr frame a) (clock, rateLimiter a)"
  using assms by (auto simp: auth_ops_def rl_ok_in_def split: sum.split)

lemma auth_ops_gain:
  "auth_guess um ip (now, addr, frame) (clock, a) \<le>
     total (rl_admit ip) rl_step (auth_ops um now addr frame a) (clock, rateLimiter a)"
  using limited_iff [of um now addr frame a] by (auto simp: auth_ops_def rl_admit_def)

text \<open>Over a run of operations the limiter pays for what it admits out of the budget.\<close>

lemma rl_run_pays:
  assumes "rl_inv s" "legal (rl_ok_in ip t) rl_step es s"
  shows "total (rl_admit ip) rl_step es s + rl_budget ip t (run rl_step es s) \<le> rl_budget ip t s \<and> rl_inv (run rl_step es s)"
  using assms
proof (induction es arbitrary: s)
  case (Cons e es)
  then have "rl_inv (rl_step e s)" by (auto intro: rl_rate.inv_step)
  then show ?case using Cons rl_rate.pays [of s ip t e] by fastforce
qed simp

lemma fst_auth_ops_run:
  "rl_inv (run rl_step (auth_ops um now addr frame a) (clock, rl)) \<Longrightarrow> now 0 \<le> now 1 \<Longrightarrow>
     rl_inv (now 1, snd (run rl_step (auth_ops um now addr frame a) (clock, rl)))"
  by (auto simp: auth_ops_def split: sum.splits if_splits intro: rl_inv_mono)

lemma budget_clock: "rl_budget ip t (c, rl) = rl_budget ip t (d, rl)"
  by (simp add: rl_budget_pair)

interpretation auth_rate: budgeted "auth_step um" "auth_ok um ip t" auth_inv "auth_guess um ip" "auth_budget ip t"
  for um ip t
proof
  fix s e
  assume inv: "auth_inv s" and ok: "auth_ok um ip t e s"
  obtain now addr frame where e: "e = (now, addr, frame)" by (cases e) auto
  obtain clock a where s: "s = (clock, a)" by (cases s)
  let ?ops = "auth_ops um now addr frame a" and ?rl = "(clock, rateLimiter a)"
  have "rl_inv ?rl" using inv by (simp add: auth_inv_def s)
  from rl_run_pays [OF this auth_ops_legal [of um ip t now addr frame]] ok
  have pays: "total (rl_admit ip) rl_step ?ops ?rl + rl_budget ip t (run rl_step ?ops ?rl) \<le> rl_budget ip t ?rl"
    and inv': "rl_inv (run rl_step ?ops ?rl)"
    by (auto simp: e s)
  show "auth_inv (auth_step um e s)"
    using fst_auth_ops_run [OF inv'] ok Authenticate_limiter [of um now addr frame a clock]
    by (simp add: auth_inv_def e s)
  show "auth_guess um ip e s + auth_budget ip t (auth_step um e s) \<le> auth_budget ip t s"
    using pays auth_ops_gain [of um ip now addr frame clock a] Authenticate_limiter [of um now addr frame a clock]
      budget_clock [of ip t "now 1" _ "fst (run rl_step ?ops ?rl)"]
    by (simp add: auth_budget_def e s)
qed

section \<open>Properties\<close>


definition sample_config :: Config where
  "sample_config = \<lparr> cfg_Username = ''user'', cfg_Password = ''secret'', cfg_Timeout = 30 * second,
     cfg_MaxAttempts = 1, cfg_RateLimitWindow = minute \<rparr>"

definition bad_request :: AuthRequest where
  "bad_request = \<lparr> auth_Username = ''user'', auth_Password = ''guess'', auth_ClientId = [], auth_Version = [] \<rparr>"

lemma ip_key_sample: "ip_key ''10.0.0.1:5'' = ''10.0.0.1''" "ip_key ''10.0.0.1:6'' = ''10.0.0.1''"
  by (simp_all add: ip_key_def SplitHostPort_def)


text \<open>
  C9: \<open>Authenticate\<close> succeeds exactly when the limiter admits the host, the address has no authenticated
  session, the payload decodes and user name and password are the configured ones; the session then
  carries the client id and is the one stored, and the limiter forgets the host.  In every other case no
  session changes.
\<close>

theorem Authenticate_exact:
  "(case Authenticate um now addr frame a of (Inr s, a') \<Rightarrow>
      fst (Allow (ip_key addr) (now 0) (rateLimiter a)) \<and> \<not> IsAuthenticated a addr \<and>
      (\<exists>req. um (Payload frame) = Inr req \<and> auth_Username req = cfg_Username (config a) \<and>
        auth_Password req = cfg_Password (config a) \<and> ClientID s = auth_ClientId req \<and> Username s = auth_Username req) \<and>
      Authenticated s \<and> sessions a' = fmupd addr s (sessions a) \<and> IsAuthenticated a' addr \<and>
      fmlookup (attempts (rateLimiter a')) (ip_key addr) = None
    | (Inl e, a') \<Rightarrow> sessions a' = sessions a \<and>
      \<not> (fst (Allow (ip_key addr) (now 0) (rateLimiter a)) \<and> \<not> IsAuthenticated a addr \<and>
         (\<exists>req. um (Payload frame) = Inr req \<and>
            auth_Username req = cfg_Username (config a) \<and> auth_Password req = cfg_Password (config a))))"
proof -
  obtain ok rl where A: "Allow (ip_key addr) (now 0) (rateLimiter a) = (ok, rl)" by force
  show ?thesis
    by (cases "um (Payload frame)"; cases "fmlookup (sessions a) addr")
       (simp_all add: Authenticate_def A Let_def IsAuthenticated_def)
qed

end
