(* ===== verification/Channel.thy ===== *)
theory Channel
  imports Prelude
begin

text \<open>
  Go's buffered channels.  \<open>try_send\<close> is a send in a \<open>select\<close> with a \<open>default\<close> branch: it never blocks,
  and panics on a closed channel.  \<open>recv\<close> is \<open>None\<close> when the receiver would block, \<open>Some (None, c)\<close> when
  the channel is closed and drained (the \<open>range\<close> loop ends), and otherwise the oldest element.
  \<open>close_chan\<close> panics on a closed channel.

  The locale \<open>fifo_queue\<close> is the contract the clients rely on, with the order lemmas proved from it.
\<close>

record 'a chan =
  chan_buf :: "'a list"
  chan_cap :: nat
  chan_closed :: bool

definition make_chan :: "nat \<Rightarrow> 'a chan" where
  "make_chan n = \<lparr> chan_buf = [], chan_cap = n, chan_closed = False \<rparr>"

definition try_send :: "'a \<Rightarrow> 'a chan \<Rightarrow> (bool \<times> 'a chan) outcome" where
  "try_send x c = (if chan_closed c then Panic
     else if length (chan_buf c) < chan_cap c then Ret (True, c\<lparr>chan_buf := chan_buf c @ [x]\<rparr>)
     else Ret (False, c))"

definition recv :: "'a chan \<Rightarrow> ('a option \<times> 'a chan) option" where
  "recv c = (case chan_buf c of
     x # xs \<Rightarrow> Some (Some x, c\<lparr>chan_buf := xs\<rparr>)
   | [] \<Rightarrow> if chan_closed c then Some (None, c) else None)"

definition close_chan :: "'a chan \<Rightarrow> 'a chan outcome" where
  "close_chan c = (if chan_closed c then Panic else Ret (c\<lparr>chan_closed := True\<rparr>))"

definition chan_ok :: "'a chan \<Rightarrow> bool" where
  "chan_ok c \<longleftrightarrow> length (chan_buf c) \<le> chan_cap c"

lemma chan_ok_make [simp]: "chan_ok (make_chan n)"
  by (simp add: chan_ok_def make_chan_def)

lemma chan_ok_send: "chan_ok c \<Longrightarrow> try_send x c = Ret (b, c') \<Longrightarrow> chan_ok c'"
  by (auto simp: chan_ok_def try_send_def split: if_splits)

lemma chan_ok_recv: "chan_ok c \<Longrightarrow> recv c = Some (x, c') \<Longrightarrow> chan_ok c'"
  by (auto simp: chan_ok_def recv_def split: if_splits list.splits)

section \<open>The queue contract\<close>

locale fifo_queue =
  fixes put :: "'a \<Rightarrow> 'q \<Rightarrow> (bool \<times> 'q) outcome" and get :: "'q \<Rightarrow> ('a option \<times> 'q) option"
    and items :: "'q \<Rightarrow> 'a list"
  assumes put_law: "put x q = Ret (b, q') \<Longrightarrow> items q' = items q @ (if b then [x] else [])"
    and get_law: "get q = Some (r, q') \<Longrightarrow> items q = (case r of Some x \<Rightarrow> [x] | None \<Rightarrow> []) @ items q'"
begin

text \<open>
  \<open>acc\<close> logs the accepted elements and \<open>del\<close> the delivered ones: nothing is lost, duplicated or reordered.
\<close>

lemma put_order:
  "acc = del @ items q \<Longrightarrow> put x q = Ret (b, q') \<Longrightarrow> acc @ (if b then [x] else []) = del @ items q'"
  by (auto dest: put_law)

lemma get_order:
  "acc = del @ items q \<Longrightarrow> get q = Some (r, q') \<Longrightarrow> acc = (del @ (case r of Some x \<Rightarrow> [x] | None \<Rightarrow> [])) @ items q'"
  by (auto dest: get_law)

end

interpretation ch: fifo_queue try_send recv chan_buf
  by unfold_locales (auto simp: try_send_def recv_def split: if_splits list.splits)

end
