(* ===== verification/Config.thy ===== *)
theory Config
  imports Frame
begin

text \<open>
  The server configuration of \<open>internal/server/server.go\<close> with its defaults.  The TLS settings are
  not part of the record.
\<close>

record ServerConfig =
  ListenAddr :: string
  MaxConnections :: int
  ReadTimeout :: duration
  WriteTimeout :: duration
  KeepAlive :: duration
  AllowCIDRs :: "string list"
  BlockCIDRs :: "string list"
  TCPReadBufferSize :: int
  TCPWriteBufferSize :: int
  WriteDeadlineMS :: int
  MaxWriteQueueSize :: int
  MaxMessageSize :: u32
  AuthTimeout :: duration
  HeartbeatInterval :: duration
  HeartbeatTimeout :: duration
  BatchWindow :: duration
  MaxBatchSize :: int

definition DefaultConfig :: ServerConfig where
  "DefaultConfig = \<lparr> ListenAddr = '':8080'', MaxConnections = 100000, ReadTimeout = 30 * second,
     WriteTimeout = 5 * second, KeepAlive = 30 * second, AllowCIDRs = [], BlockCIDRs = [],
     TCPReadBufferSize = 65536, TCPWriteBufferSize = 65536, WriteDeadlineMS = 5000, MaxWriteQueueSize = 1000,
     MaxMessageSize = of_nat DefaultMaxMessageSize, AuthTimeout = 10 * second, HeartbeatInterval = 15 * second,
     HeartbeatTimeout = 20 * second, BatchWindow = 5 * millisecond, MaxBatchSize = 100 \<rparr>"

end
