(* ===== verification/Connection.thy ===== *)
theory Connection
  imports Auth Channel Config
begin

text \<open>
  \<open>internal/server/connection.go\<close>: one client connection.  \<open>Connection\<close> is the Go struct; the reader and
  the writer hold the two directions of the socket.  The methods that take the mutex or use atomic
  operations are single steps; \<open>WriteFrameAsync\<close>, the write loop and \<open>Close\<close> are cut into the steps that
  other goroutines can interleave with, and the method is their composition.  The frame pool, which only
  recycles memory, is not part of the state.
\<close>

record Subscription =
  sub_mode :: int
  CreatedAt :: time

definition NewSubscription :: "time \<Rightarrow> int \<Rightarrow> Subscription" where
  "NewSubscription now mode = \<lparr> sub_mode = mode, CreatedAt = now \<rparr>"

text \<open>\<open>item_done\<close> names the caller of \<open>WriteFrameSync\<close> that waits for the item, if any.\<close>

record WriteQueueItem =
  item_frame :: Frame
  item_deadline :: time
  item_done :: "nat option"

record Connection =
  conn_id :: string
  conn_remote :: string
  conn_reader :: "net_in FrameReader"
  conn_writer :: "net_out FrameWriter"
  conn_config :: ServerConfig
  conn_authenticated :: bool
  conn_session :: "Session option"
  conn_closed :: bool
  conn_sub :: "Subscription option"
  writeQueue :: "WriteQueueItem chan"
  messagesRecv :: u64
  messagesSent :: u64
  bytesRecv :: u64
  bytesSent :: u64
  conn_lastActivity :: time
  writeQueueLen :: int
  readDeadline :: time
  writeDeadline :: time
  net_closed :: bool

text \<open>\<open>make(chan ..., n)\<close> panics on a negative size.\<close>

definition NewConnection :: "(nat \<Rightarrow> time) \<Rightarrow> string \<Rightarrow> net_in \<Rightarrow> net_out \<Rightarrow> ServerConfig \<Rightarrow> Connection outcome" where
  "NewConnection now remote i out cfg =
    (if MaxWriteQueueSize cfg < 0 then Panic
     else Ret \<lparr> conn_id = remote @ ''-'' @ show_int (now 0 - unix_epoch), conn_remote = remote,
       conn_reader = NewFrameReader i (MaxMessageSize cfg), conn_writer = NewFrameWriter out,
       conn_config = cfg, conn_authenticated = False, conn_session = None, conn_closed = False, conn_sub = None,
       writeQueue = make_chan (nat (MaxWriteQueueSize cfg)), messagesRecv = 0, messagesSent = 0, bytesRecv = 0, bytesSent = 0,
       conn_lastActivity = now 1, writeQueueLen = 0, readDeadline = 0, writeDeadline = 0, net_closed = False \<rparr>)"

definition SetAuthenticated :: "Session \<Rightarrow> Connection \<Rightarrow> Connection" where
  "SetAuthenticated session c = c\<lparr>conn_authenticated := True, conn_session := Some session\<rparr>"

definition Conn_IsAuthenticated :: "Connection \<Rightarrow> bool" where
  "Conn_IsAuthenticated c = conn_authenticated c"

definition SetSubscription :: "Subscription \<Rightarrow> Connection \<Rightarrow> go_error option \<times> Connection" where
  "SetSubscription sub c = (if conn_sub c \<noteq> None then (Some (Errorf ''connection already has a subscription''), c)
     else (None, c\<lparr>conn_sub := Some sub\<rparr>))"

definition GetSubscription :: "Connection \<Rightarrow> Subscription option" where
  "GetSubscription c = conn_sub c"

definition SetReadDeadline :: "time \<Rightarrow> Connection \<Rightarrow> Connection" where
  "SetReadDeadline t c = c\<lparr>readDeadline := t\<rparr>"

definition SetWriteDeadline :: "time \<Rightarrow> Connection \<Rightarrow> Connection" where
  "SetWriteDeadline t c = c\<lparr>writeDeadline := t\<rparr>"

text \<open>The frame reader validates the version with its own reading of the clock, \<open>now 0\<close>.\<close>

definition Conn_ReadFrame :: "(nat \<Rightarrow> time) \<Rightarrow> Connection \<Rightarrow> (go_error + Frame) outcome \<times> Connection" where
  "Conn_ReadFrame now c =
    (if conn_closed c then (Ret (Inl (E Net_ErrClosed)), c)
     else (case ReadFrame ReadFull (now 0) (conn_reader c) of
       (Panic, r) \<Rightarrow> (Panic, c\<lparr>conn_reader := r\<rparr>)
     | (Ret (Inl err), r) \<Rightarrow> (Ret (Inl err), c\<lparr>conn_reader := r\<rparr>)
     | (Ret (Inr frame), r) \<Rightarrow> (Ret (Inr frame), c\<lparr>conn_reader := r, messagesRecv := messagesRecv c + 1,
         bytesRecv := bytesRecv c + of_nat (length (Payload frame) + FrameHeaderSize), conn_lastActivity := now 1\<rparr>)))"

section \<open>The write queue\<close>

definition add_queue_len :: "int \<Rightarrow> Connection \<Rightarrow> Connection" where
  "add_queue_len d c = c\<lparr>writeQueueLen := wrap32 (writeQueueLen c + d)\<rparr>"

definition write_deadline :: "time \<Rightarrow> Connection \<Rightarrow> time" where
  "write_deadline now c = now + wrap64 (WriteDeadlineMS (conn_config c) * millisecond)"

definition queue_full :: "Connection \<Rightarrow> bool" where
  "queue_full c \<longleftrightarrow> writeQueueLen c \<ge> MaxWriteQueueSize (conn_config c)"

definition async_check :: "Connection \<Rightarrow> go_error option" where
  "async_check c =
    (if conn_closed c then Some (Errorf ''connection closed'')
     else if queue_full c then Some (Errorf ''write queue full - slow client detected'')
     else None)"

definition async_item :: "time \<Rightarrow> Frame \<Rightarrow> Connection \<Rightarrow> WriteQueueItem" where
  "async_item now frame c = \<lparr> item_frame = frame, item_deadline = write_deadline now c, item_done = None \<rparr>"

definition async_send :: "WriteQueueItem \<Rightarrow> Connection \<Rightarrow> (go_error option \<times> Connection) outcome" where
  "async_send item c = (case try_send item (writeQueue c) of
     Panic \<Rightarrow> Panic
   | Ret (True, q) \<Rightarrow> Ret (None, c\<lparr>writeQueue := q\<rparr>)
   | Ret (False, q) \<Rightarrow> Ret (Some (Errorf ''write queue full''), add_queue_len (-1) c))"

definition WriteFrameAsync :: "time \<Rightarrow> Frame \<Rightarrow> Connection \<Rightarrow> (go_error option \<times> Connection) outcome" where
  "WriteFrameAsync now frame c = (case async_check c of
     Some err \<Rightarrow> Ret (Some err, c)
   | None \<Rightarrow> async_send (async_item now frame c) (add_queue_len 1 c))"

abbreviation Conn_WriteFrame :: "time \<Rightarrow> Frame \<Rightarrow> Connection \<Rightarrow> (go_error option \<times> Connection) outcome" where
  "Conn_WriteFrame \<equiv> WriteFrameAsync"

text \<open>
  \<open>WriteFrameSync\<close> up to the point where it blocks: refused, or counted with an item that still has to
  be queued.  When the queue has room the item goes in and the caller waits on \<open>item_done\<close>; otherwise the
  call ends after the write deadline.
\<close>

definition sync_begin :: "time \<Rightarrow> Frame \<Rightarrow> nat \<Rightarrow> Connection \<Rightarrow> go_error + WriteQueueItem \<times> Connection" where
  "sync_begin now frame caller c =
    (if conn_closed c then Inl (Errorf ''connection closed'')
     else Inr (\<lparr> item_frame = frame, item_deadline = write_deadline now c, item_done = Some caller \<rparr>, add_queue_len 1 c))"

definition sync_timeout :: "Connection \<Rightarrow> go_error \<times> Connection" where
  "sync_timeout c = (Errorf ''write timeout'', add_queue_len (-1) c)"

text \<open>
  One item in the body of \<open>writeLoop\<close>: the error signalled on the item's \<open>done\<close> channel, whether the loop goes on,
  and the connection afterwards.
\<close>

definition write_item :: "time \<Rightarrow> WriteQueueItem \<Rightarrow> Connection \<Rightarrow> go_error option \<times> bool \<times> Connection" where
  "write_item now item c =
    (if conn_closed c then (Some (Errorf ''connection closed''), True, add_queue_len (-1) c)
     else if now > item_deadline item then (Some (Errorf ''write deadline exceeded''), True, add_queue_len (-1) c)
     else let c = SetWriteDeadline (item_deadline item) c; (err, w) = WriteFrame conn_write (item_frame item) (conn_writer c);
              c = c\<lparr>conn_writer := w\<rparr>;
              c = (if err = None then c\<lparr>messagesSent := messagesSent c + 1,
                     bytesSent := bytesSent c + of_nat (length (Payload (item_frame item)) + FrameHeaderSize + CRCSize)\<rparr> else c) in
          (err, err = None, add_queue_len (-1) c))"

text \<open>
  \<open>writeLoop\<close> on what is in the queue now; \<open>now k\<close> is the clock at the \<open>k\<close>-th item.  The result says whether the
  loop is still running (waiting for more items) or has ended.
\<close>

function drain :: "(nat \<Rightarrow> time) \<Rightarrow> nat \<Rightarrow> Connection \<Rightarrow> bool \<times> Connection" where
  "drain now k c = (case recv (writeQueue c) of
     None \<Rightarrow> (True, c)
   | Some (None, q) \<Rightarrow> (False, c\<lparr>writeQueue := q\<rparr>)
   | Some (Some item, q) \<Rightarrow>
     (case write_item (now k) item (c\<lparr>writeQueue := q\<rparr>) of
       (err, True, c') \<Rightarrow> drain now (k + 1) c'
     | (err, False, c') \<Rightarrow> (False, c')))"
  by pat_completeness auto

lemma write_item_queue [simp]: "writeQueue (snd (snd (write_item now item c))) = writeQueue c"
  by (auto simp: write_item_def add_queue_len_def SetWriteDeadline_def Let_def split: prod.split)

lemma recv_shrinks: "recv q = Some (Some x, q') \<Longrightarrow> length (chan_buf q') < length (chan_buf q)"
  by (auto simp: recv_def split: list.splits if_splits)

termination drain
  by (relation "measure (\<lambda>(now, k, c). length (chan_buf (writeQueue c)))")
     (auto dest!: recv_shrinks, metis Connection.select_convs(10) Connection.surjective Connection.update_convs(10) snd_conv write_item_queue)

declare drain.simps [simp del]

text \<open>What every item keeps, the loop keeps.\<close>

lemma drain_keeps:
  assumes item: "\<And>k c item q e go d. P c \<Longrightarrow> recv (writeQueue c) = Some (Some item, q) \<Longrightarrow>
      write_item (now k) item (c\<lparr>writeQueue := q\<rparr>) = (e, go, d) \<Longrightarrow> P d"
  shows "P c \<Longrightarrow> drain now k c = (b, c') \<Longrightarrow> P c'"
proof (induction "length (chan_buf (writeQueue c))" arbitrary: k c rule: less_induct)
  case less
  show ?case
  proof (cases "recv (writeQueue c)")
    case (Some p)
    then obtain x q where p: "recv (writeQueue c) = Some (x, q)" by (cases p) auto
    show ?thesis
    proof (cases x)
      case (Some item)
      obtain e go d where w: "write_item (now k) item (c\<lparr>writeQueue := q\<rparr>) = (e, go, d)" by (rule prod_cases3)
      have "writeQueue d = q" using write_item_queue [of "now k" item "c\<lparr>writeQueue := q\<rparr>"] w by simp
      then have "length (chan_buf (writeQueue d)) < length (chan_buf (writeQueue c))" using recv_shrinks p Some by simp
      from less.hyps [OF this] item [OF less.prems(1) p [unfolded Some] w] show ?thesis
        using less.prems(2) p Some w by (cases go) (auto simp: drain.simps [of now k c])
    next
      case None
      then have "q = writeQueue c" using p by (auto simp: recv_def split: list.splits if_splits)
      then show ?thesis using less.prems p None by (auto simp: drain.simps [of now k c])
    qed
  qed (use less.prems in \<open>auto simp: drain.simps [of now k c]\<close>)
qed

text \<open>
  \<open>Close\<close>: the flag is swapped first, then the queue is closed, then \<open>Close\<close> waits for the write loop and
  closes the socket.
\<close>

definition close_flag :: "Connection \<Rightarrow> bool \<times> Connection" where
  "close_flag c = (if conn_closed c then (False, c) else (True, c\<lparr>conn_closed := True\<rparr>))"

definition close_queue :: "Connection \<Rightarrow> Connection outcome" where
  "close_queue c = (case close_chan (writeQueue c) of Panic \<Rightarrow> Panic | Ret q \<Rightarrow> Ret (c\<lparr>writeQueue := q\<rparr>))"

definition close_net :: "Connection \<Rightarrow> Connection" where
  "close_net c = c\<lparr>net_closed := True,
     conn_writer := (conn_writer c)\<lparr>fw_w := (fw_w (conn_writer c))\<lparr>write_fail := Some (0, E Net_ErrClosed)\<rparr>\<rparr>,
     conn_reader := (conn_reader c)\<lparr>fr_r := \<lparr> segments = [], read_end = E Net_ErrClosed \<rparr>\<rparr>\<rparr>"

definition Close :: "(nat \<Rightarrow> time) \<Rightarrow> Connection \<Rightarrow> Connection outcome" where
  "Close now c = (case close_flag c of
     (False, c) \<Rightarrow> Ret c
   | (True, c) \<Rightarrow> (case close_queue c of Panic \<Rightarrow> Panic | Ret c \<Rightarrow> Ret (close_net (snd (drain now 0 c)))))"

section \<open>Sending messages\<close>

text \<open>Each method reads the clock for the message's timestamp (\<open>now 0\<close>) and then for the write deadline (\<open>now 1\<close>).\<close>

definition SendMessage :: "('m \<Rightarrow> go_error + bytes) \<Rightarrow> time \<Rightarrow> u8 \<Rightarrow> 'm \<Rightarrow> Connection \<Rightarrow> (go_error option \<times> Connection) outcome" where
  "SendMessage protoMarshal now msgType msg c = (case MarshalMessage protoMarshal msgType msg of
     Inl err \<Rightarrow> Ret (Some err, c)
   | Inr frame \<Rightarrow> Conn_WriteFrame now frame c)"

definition SendAuthSuccess :: "protobuf \<Rightarrow> (nat \<Rightarrow> time) \<Rightarrow> Connection \<Rightarrow> (go_error option \<times> Connection) outcome" where
  "SendAuthSuccess pb now c = SendMessage (marshal_Ack pb) (now 1) MessageTypeACK
     \<lparr> ack_AckType = MESSAGE_TYPE_AUTH, ack_Success = True, ack_Message = ''Authentication successful'',
       ack_TimestampMs = unix_milli (now 0), ack_Metadata = [] \<rparr> c"

definition SendAuthError :: "protobuf \<Rightarrow> (nat \<Rightarrow> time) \<Rightarrow> Connection \<Rightarrow> (go_error option \<times> Connection) outcome" where
  "SendAuthError pb now c = SendMessage (marshal_Error pb) (now 1) MessageTypeError
     \<lparr> err_Code = ERROR_CODE_INVALID_AUTH, err_Message = ''Authentication failed'', err_Details = [],
       err_TimestampMs = unix_milli (now 0) \<rparr> c"

definition SendErrorWithDetails :: "protobuf \<Rightarrow> (nat \<Rightarrow> time) \<Rightarrow> int \<Rightarrow> string \<Rightarrow> string \<Rightarrow> Connection
    \<Rightarrow> (go_error option \<times> Connection) outcome" where
  "SendErrorWithDetails pb now code message details c =
    (case MarshalMessage (marshal_Error pb) MessageTypeError
       \<lparr> err_Code = code, err_Message = message, err_Details = details, err_TimestampMs = unix_milli (now 0) \<rparr> of
      Inl err \<Rightarrow> Ret (Some (Wrapf ''failed to marshal error response'' err), c)
    | Inr frame \<Rightarrow> Conn_WriteFrame (now 1) frame c)"

definition SendError :: "protobuf \<Rightarrow> (nat \<Rightarrow> time) \<Rightarrow> int \<Rightarrow> string \<Rightarrow> Connection \<Rightarrow> (go_error option \<times> Connection) outcome" where
  "SendError pb now code message c = SendErrorWithDetails pb now code message [] c"

definition getStandardErrorMessage :: "int \<Rightarrow> string \<times> string" where
  "getStandardErrorMessage code =
    (if code = ERROR_CODE_INVALID_AUTH then (''Authentication failed'', ''Invalid username or password provided'')
     else if code = ERROR_CODE_AUTH_REQUIRED then (''Authentication required'', ''AUTH frame must be the first message sent'')
     else if code = ERROR_CODE_ALREADY_AUTHENTICATED then (''Already authenticated'', ''Connection has already been authenticated'')
     else if code = ERROR_CODE_INVALID_SUBSCRIPTION then (''Invalid subscription request'', ''Subscription mode or parameters are invalid'')
     else if code = ERROR_CODE_ALREADY_SUBSCRIBED then (''Already subscribed'', ''Connection already has an active subscription'')
     else if code = ERROR_CODE_NOT_SUBSCRIBED then (''Not subscribed'', ''No active subscription found for this connection'')
     else if code = ERROR_CODE_HEARTBEAT_TIMEOUT then (''Heartbeat timeout'', ''Client failed to send heartbeat within configured interval'')
     else if code = ERROR_CODE_INVALID_MESSAGE then (''Invalid message format'', ''Message could not be parsed or contains invalid data'')
     else if code = ERROR_CODE_CHECKSUM_FAILED then (''Checksum validation failed'', ''Frame CRC32C checksum does not match calculated value'')
     else if code = ERROR_CODE_PROTOCOL_VERSION then (''Unsupported protocol version'', ''Client protocol version is not supported by server'')
     else if code = ERROR_CODE_MESSAGE_TOO_LARGE then (''Message too large'', ''Message size exceeds maximum allowed limit'')
     else if code = ERROR_CODE_RATE_LIMITED then (''Rate limited'', ''Too many requests sent within the allowed time window'')
     else if code = ERROR_CODE_INTERNAL_ERROR then (''Internal server error'', ''An unexpected error occurred on the server'')
     else (''Unknown error'', ''An unrecognized error code was encountered''))"

definition SendErrorCode :: "protobuf \<Rightarrow> (nat \<Rightarrow> time) \<Rightarrow> int \<Rightarrow> Connection \<Rightarrow> (go_error option \<times> Connection) outcome" where
  "SendErrorCode pb now code c = (case getStandardErrorMessage code of (message, details) \<Rightarrow>
     SendErrorWithDetails pb now code message details c)"

definition SendSubscriptionConfirmed :: "protobuf \<Rightarrow> (nat \<Rightarrow> time) \<Rightarrow> Connection \<Rightarrow> (go_error option \<times> Connection) outcome" where
  "SendSubscriptionConfirmed pb now c = SendMessage (marshal_Ack pb) (now 1) MessageTypeACK
     \<lparr> ack_AckType = MESSAGE_TYPE_SUBSCRIBE, ack_Success = True, ack_Message = ''Subscription confirmed'',
       ack_TimestampMs = unix_milli (now 0), ack_Metadata = [] \<rparr> c"

definition SendPong :: "protobuf \<Rightarrow> (nat \<Rightarrow> time) \<Rightarrow> int \<Rightarrow> u64 \<Rightarrow> Connection \<Rightarrow> (go_error option \<times> Connection) outcome" where
  "SendPong pb now clientTimestamp sequence c = SendMessage (marshal_Pong pb) (now 1) MessageTypePong
     \<lparr> hbr_ClientTimestampMs = clientTimestamp, hbr_ServerTimestampMs = unix_milli (now 0), hbr_Sequence = sequence \<rparr> c"

definition SendDataBatch :: "protobuf \<Rightarrow> (nat \<Rightarrow> time) \<Rightarrow> Tick list \<Rightarrow> Connection \<Rightarrow> (go_error option \<times> Connection) outcome" where
  "SendDataBatch pb now ticks c =
    (if length ticks = 0 then Ret (None, c)
     else let c = c\<lparr>messagesSent := messagesSent c + 1\<rparr>;
              batch = \<lparr> batch_Ticks = map Some ticks, batch_BatchTimestampMs = unix_milli (now 0),
                batch_BatchSequence = ucast (messagesSent c), batch_IsSnapshot = False \<rparr>;
              c = c\<lparr>bytesSent := bytesSent c + of_nat (length ticks * 64)\<rparr> in
          SendMessage (marshal_Batch pb) (now 1) MessageTypeDataBatch batch c)"

text \<open>\<open>GetStats\<close> as a record of the entries of the map it returns.\<close>

record ConnStats =
  st_id :: string
  st_remote_addr :: string
  st_authenticated :: bool
  st_messages_recv :: u64
  st_messages_sent :: u64
  st_bytes_recv :: u64
  st_bytes_sent :: u64
  st_last_activity :: time
  st_has_subscription :: bool

definition Conn_GetStats :: "Connection \<Rightarrow> ConnStats" where
  "Conn_GetStats c = \<lparr> st_id = conn_id c, st_remote_addr = conn_remote c, st_authenticated = Conn_IsAuthenticated c,
     st_messages_recv = messagesRecv c, st_messages_sent = messagesSent c, st_bytes_recv = bytesRecv c,
     st_bytes_sent = bytesSent c, st_last_activity = conn_lastActivity c, st_has_subscription = GetSubscription c \<noteq> None \<rparr>"

lemmas send_defs [go_defs] = SendMessage_def SendAuthSuccess_def SendAuthError_def SendErrorWithDetails_def
  SendError_def SendErrorCode_def SendSubscriptionConfirmed_def SendPong_def MarshalMessage_def

section \<open>What a send does\<close>

text \<open>
  \<open>same_but_queue c c'\<close>: the connection after a send differs only in the write queue and its counter.
\<close>

definition same_but_queue :: "Connection \<Rightarrow> Connection \<Rightarrow> bool" where
  "same_but_queue c c' \<longleftrightarrow> (\<exists>q n. c' = c\<lparr>writeQueue := q, writeQueueLen := n\<rparr> \<and> chan_closed q = chan_closed (writeQueue c))"

lemma same_but_queue_refl [simp]: "same_but_queue c c"
  unfolding same_but_queue_def by (rule exI [of _ "writeQueue c"], rule exI [of _ "writeQueueLen c"]) simp

lemma same_but_queue_trans: "same_but_queue a b \<Longrightarrow> same_but_queue b c \<Longrightarrow> same_but_queue a c"
  unfolding same_but_queue_def by (elim exE) (simp, blast)

lemma same_but_queueD:
  assumes "same_but_queue c c'"
  shows "conn_sub c' = conn_sub c" "conn_authenticated c' = conn_authenticated c" "conn_closed c' = conn_closed c"
    "conn_config c' = conn_config c" "conn_reader c' = conn_reader c" "conn_writer c' = conn_writer c"
    "messagesSent c' = messagesSent c" "conn_session c' = conn_session c" "conn_remote c' = conn_remote c"
    "conn_id c' = conn_id c" "chan_closed (writeQueue c') = chan_closed (writeQueue c)"
  using assms by (auto simp: same_but_queue_def)

lemma WriteFrameAsync_same: "WriteFrameAsync now f c = Ret (e, c') \<Longrightarrow> same_but_queue c c'"
proof -
  have "same_but_queue c (c\<lparr>writeQueueLen := n, writeQueue := q\<rparr>)" if "chan_closed q = chan_closed (writeQueue c)" for n q
    unfolding same_but_queue_def using that by (intro exI [of _ q] exI [of _ n]) simp
  moreover have "same_but_queue c (c\<lparr>writeQueueLen := n\<rparr>)" for n
    unfolding same_but_queue_def by (intro exI [of _ "writeQueue c"] exI [of _ n]) simp
  ultimately show "WriteFrameAsync now f c = Ret (e, c') \<Longrightarrow> same_but_queue c c'"
    by (auto simp: WriteFrameAsync_def async_send_def try_send_def add_queue_len_def
        split: option.splits outcome.splits bool.splits prod.splits if_splits)
qed

lemma SendMessage_same: "SendMessage pm now ty msg c = Ret (e, c') \<Longrightarrow> same_but_queue c c'"
  by (auto simp: SendMessage_def split: sum.splits dest: WriteFrameAsync_same)

lemma SendErrorWithDetails_same: "SendErrorWithDetails pb now code m d c = Ret (e, c') \<Longrightarrow> same_but_queue c c'"
  by (auto simp: SendErrorWithDetails_def split: sum.splits dest: WriteFrameAsync_same)

lemma SendError_same: "SendError pb now code m c = Ret (e, c') \<Longrightarrow> same_but_queue c c'"
  by (simp add: SendError_def SendErrorWithDetails_same)

lemma SendErrorCode_same: "SendErrorCode pb now code c = Ret (e, c') \<Longrightarrow> same_but_queue c c'"
  by (auto simp: SendErrorCode_def split: prod.splits dest: SendErrorWithDetails_same)

end
