(* ===== verification/FloatArith.thy ===== *)
theory FloatArith
  imports Float64 "HOL-Library.Log_Nat"
begin

text \<open>
  Arithmetic on \<open>float64\<close>: the exact rational result rounded to the nearest binary64 number, ties to
  even, with gradual underflow and overflow to the infinities.  Zeros are not signed: the code never
  divides by a negative zero.  Go may fuse a product and a sum on some processors; the model rounds
  after each operation, as on the default amd64 target.
\<close>

text \<open>The exponent of the binade of a non-zero rational: \<open>2 powi binade r \<le> \<bar>r\<bar> < 2 powi (binade r + 1)\<close>.\<close>

definition binade :: "rat \<Rightarrow> int" where
  "binade r = (case quotient_of \<bar>r\<bar> of (n, d) \<Rightarrow>
     let e = int (floorlog 2 (nat n)) - int (floorlog 2 (nat d)) in
     if 2 powi e \<le> \<bar>r\<bar> then e else e - 1)"

definition half_even :: "rat \<Rightarrow> int" where
  "half_even x = (let f = \<lfloor>x\<rfloor>; r = x - of_int f in
     if r < 1 / 2 then f else if r > 1 / 2 then f + 1 else if even f then f else f + 1)"

definition unit_exp :: "rat \<Rightarrow> int" where
  "unit_exp r = max (binade r - 52) (- 1074)"

definition nearest :: "rat \<Rightarrow> rat" where
  "nearest r = (if r = 0 then 0 else of_int (half_even (r / 2 powi unit_exp r)) * 2 powi unit_exp r)"

definition max64 :: rat where
  "max64 = 2 ^ 1024"

definition round64 :: "rat \<Rightarrow> f64" where
  "round64 r = (let x = nearest r in
     if x \<ge> max64 then PInf else if x \<le> - max64 then NInf else Fin x)"

definition f64_of_int :: "int \<Rightarrow> f64" where
  "f64_of_int i = round64 (of_int i)"

fun f64_add :: "f64 \<Rightarrow> f64 \<Rightarrow> f64" where
  "f64_add (Fin a) (Fin b) = round64 (a + b)"
| "f64_add PInf NInf = NaN"
| "f64_add NInf PInf = NaN"
| "f64_add NaN _ = NaN"
| "f64_add _ NaN = NaN"
| "f64_add PInf _ = PInf"
| "f64_add _ PInf = PInf"
| "f64_add NInf _ = NInf"
| "f64_add _ NInf = NInf"

definition f64_inf :: "rat \<Rightarrow> f64" where
  "f64_inf s = (if s > 0 then PInf else if s < 0 then NInf else NaN)"

fun f64_sign :: "f64 \<Rightarrow> rat" where
  "f64_sign (Fin a) = sgn a"
| "f64_sign PInf = 1"
| "f64_sign NInf = - 1"
| "f64_sign NaN = 0"

fun f64_mul :: "f64 \<Rightarrow> f64 \<Rightarrow> f64" where
  "f64_mul (Fin a) (Fin b) = round64 (a * b)"
| "f64_mul x y = f64_inf (f64_sign x * f64_sign y)"

fun f64_div :: "f64 \<Rightarrow> f64 \<Rightarrow> f64" where
  "f64_div (Fin a) (Fin b) = (if b = 0 then f64_inf (sgn a) else round64 (a / b))"
| "f64_div (Fin a) PInf = Fin 0"
| "f64_div (Fin a) NInf = Fin 0"
| "f64_div PInf (Fin b) = (if b < 0 then NInf else PInf)"
| "f64_div NInf (Fin b) = (if b < 0 then PInf else NInf)"
| "f64_div _ _ = NaN"

text \<open>\<open>x >= y\<close> is not the negation of \<open>x < y\<close>: both are false on NaN.\<close>

definition f64_ge :: "f64 \<Rightarrow> f64 \<Rightarrow> bool" where
  "f64_ge x y \<longleftrightarrow> f64_gt x y \<or> f64_eq x y"

text \<open>\<open>int(x)\<close> truncates; outside the range of \<open>int64\<close> the result depends on the processor (\<open>None\<close>).\<close>

fun f64_to_int :: "f64 \<Rightarrow> int option" where
  "f64_to_int (Fin a) = (let i = (if a < 0 then \<lceil>a\<rceil> else \<lfloor>a\<rfloor>) in
     if - (2 ^ 63) \<le> i \<and> i < 2 ^ 63 then Some i else None)"
| "f64_to_int _ = None"

section \<open>Integers up to \<open>2 ^ 53\<close> are exact\<close>

lemma half_even_int [simp]: "half_even (of_int k) = k"
  by (simp add: half_even_def)

lemma half_even_mono: "x \<le> y \<Longrightarrow> half_even x \<le> half_even y"
proof -
  assume le: "x \<le> y"
  then have f: "\<lfloor>x\<rfloor> \<le> \<lfloor>y\<rfloor>" by (rule floor_mono)
  have up: "half_even z \<le> \<lfloor>z\<rfloor> + 1" "\<lfloor>z\<rfloor> \<le> half_even z" for z :: rat
    by (simp_all add: half_even_def Let_def)
  show ?thesis
  proof (cases "\<lfloor>x\<rfloor> = \<lfloor>y\<rfloor>")
    case True
    then show ?thesis using le by (auto simp: half_even_def Let_def)
  next
    case False
    then show ?thesis using f up(1) [of x] up(2) [of y] by linarith
  qed
qed

lemma binade_int:
  assumes "i \<noteq> 0" "\<bar>i\<bar> < 2 ^ 53"
  shows "binade (of_int i) \<le> 52"
proof -
  have q: "quotient_of \<bar>of_int i\<bar> = (\<bar>i\<bar>, 1)"
    by (simp only: of_int_abs [symmetric] quotient_of_int [unfolded Rat.of_int_def])
  have "nat \<bar>i\<bar> < nat (2 ^ 53)" using assms by (intro nat_less_eq_zless [THEN iffD2]) simp_all
  then have "nat \<bar>i\<bar> < 2 ^ 53" by (simp only: nat_power_eq zero_le_numeral nat_numeral)
  then have "floorlog 2 (nat \<bar>i\<bar>) \<le> 53" by (subst floorlog_le_iff) simp_all
  moreover have "floorlog 2 (nat 1) = 1" by (simp add: floorlog_def)
  ultimately show ?thesis unfolding binade_def q prod.case Let_def by (simp split: if_split)
qed

lemma pow53_max64: "2 ^ 53 \<le> max64"
proof -
  have "(53 :: nat) \<le> 1024" by simp
  then show ?thesis unfolding max64_def by (intro power_increasing) (assumption, rule one_le_numeral)
qed

lemma max64_pos: "0 < max64"
  unfolding max64_def by (rule zero_less_power, rule zero_less_numeral)

lemma f64_of_int_exact:
  assumes "\<bar>i\<bar> < 2 ^ 53"
  shows "f64_of_int i = Fin (of_int i)"
proof (cases "i = 0")
  case False
  define e where "e = unit_exp (of_int i)"
  define k where "k = nat (- e)"
  have "e \<le> 0" using binade_int [OF False assms] unfolding e_def unit_exp_def by (intro max.boundedI) linarith+
  then have "e = - int k" by (simp add: k_def)
  then have p: "(2 :: rat) powi e = inverse (2 ^ k)" by (simp only: power_int_minus power_int_of_nat)
  have "of_int i / (2 :: rat) powi e = of_int (i * 2 ^ k)" by (simp only: p of_int_mult of_int_power of_int_numeral divide_inverse inverse_inverse_eq)
  then have h: "half_even (of_int i / 2 powi e) = i * 2 ^ k" by (simp only: half_even_int)
  have "(2 :: rat) ^ k * inverse (2 ^ k) = 1" by (rule right_inverse) simp
  then have n: "nearest (of_int i) = of_int i"
    using False h unfolding p by (simp only: nearest_def e_def [symmetric] p of_int_eq_0_iff if_False of_int_mult of_int_power of_int_numeral mult.assoc mult_1_right)
  have "\<bar>of_int i :: rat\<bar> = of_int \<bar>i\<bar>" by simp
  also have "\<dots> < of_int (2 ^ 53)" using assms by (simp only: of_int_less_iff)
  also have "\<dots> = (2 :: rat) ^ 53" by (simp only: of_int_power of_int_numeral)
  also have "\<dots> \<le> max64" by (rule pow53_max64)
  finally have "\<bar>of_int i :: rat\<bar> < max64" .
  then have "of_int i < max64" "- max64 < of_int i" by (rule abs_less_iff [THEN iffD1, THEN conjunct1]) (use \<open>\<bar>of_int i\<bar> < max64\<close> in linarith)
  then show ?thesis by (simp only: f64_of_int_def round64_def n Let_def not_le [symmetric] if_False)
next
  case True
  show ?thesis using max64_pos by (simp add: True f64_of_int_def round64_def nearest_def)
qed

end
