(* ===== verification/Handler.thy ===== *)
theory Handler
  imports Validation Connection FloatArith
begin

text \<open>
  \<open>internal/server/handler.go\<close>: the handler of one authenticated connection, with the timers it creates.

  A handler method returns \<open>Ret\<close> of its error and the new state, or \<open>Panic\<close>.  A pointer field that may be nil
  is an option; the logger, whose output is not modelled, is the flag \<open>has_logger\<close>, because a call on a nil
  logger panics.  A method reads the clock several times: \<open>now k\<close> is its reading number \<open>k\<close>.
\<close>

section \<open>Timers\<close>

text \<open>
  \<open>time.NewTimer\<close> delivers on a channel, \<open>time.AfterFunc\<close> runs a function in a goroutine of its own.  All
  timers of a handler live in one list, and a \<open>*time.Timer\<close> is an index into it: a timer whose variable is
  overwritten stays in the list.  \<open>tm_when\<close> is \<open>None\<close> once the timer has been stopped or has fired.  As of
  Go 1.23 \<open>Stop\<close> and \<open>Reset\<close> discard a value that has not been received.
\<close>

datatype timer_kind = OnChannel | RunHeartbeatTimeout | RunFlushBatch | RunSubscriptionWarning

record timer =
  tm_kind :: timer_kind
  tm_when :: "time option"

definition new_timer :: "timer_kind \<Rightarrow> time \<Rightarrow> timer list \<Rightarrow> timer list" where
  "new_timer k t ts = ts @ [\<lparr> tm_kind = k, tm_when = Some t \<rparr>]"

definition set_timer :: "time option \<Rightarrow> nat \<Rightarrow> timer list \<Rightarrow> timer list" where
  "set_timer t i ts = ts[i := (ts ! i)\<lparr>tm_when := t\<rparr>]"

definition due :: "time \<Rightarrow> timer \<Rightarrow> bool" where
  "due now tm \<longleftrightarrow> (case tm_when tm of None \<Rightarrow> False | Some t \<Rightarrow> t \<le> now)"

section \<open>The handler\<close>

text \<open>
  \<open>h_server\<close> is the counter \<open>authFailures\<close> of the server the handler belongs to, if any; \<open>generators\<close> are the
  goroutines in \<open>startDataGeneration\<close>, each with its subscription and its counter \<open>i\<close>.
\<close>

record ConnectionHandler =
  h_conn :: Connection
  h_config :: "ServerConfig option"
  lastHeartbeat :: time
  heartbeatTimer :: "nat option"
  h_cancelled :: bool
  h_authenticated :: bool
  pendingBatch :: "Tick list"
  dataChan :: "Tick list chan"
  batchTimer :: "nat option"
  has_logger :: bool
  subscriptionTimer :: "nat option"
  h_server :: "u64 option"
  h_timers :: "timer list"
  generators :: "(Subscription \<times> int) list"

type_synonym handler_result = "(go_error option \<times> ConnectionHandler) outcome"

definition NewConnectionHandler :: "(nat \<Rightarrow> time) \<Rightarrow> Connection \<Rightarrow> ServerConfig \<Rightarrow> u64 option \<Rightarrow> ConnectionHandler" where
  "NewConnectionHandler now conn cfg srv =
     \<lparr> h_conn = conn, h_config = Some cfg, lastHeartbeat = now 1, heartbeatTimer = Some 1, h_cancelled = False,
       h_authenticated = Conn_IsAuthenticated conn, pendingBatch = [], dataChan = make_chan 100, batchTimer = Some 0,
       has_logger = True, subscriptionTimer = None, h_server = srv,
       h_timers = new_timer RunHeartbeatTimeout (now 2 + HeartbeatTimeout cfg)
         (new_timer OnChannel (now 0 + 5 * millisecond) []),
       generators = [] \<rparr>"

definition logged :: "ConnectionHandler \<Rightarrow> 'a outcome \<Rightarrow> 'a outcome" where
  "logged h r = (if has_logger h then r else Panic)"

text \<open>A send whose error is only logged.\<close>

definition send_logged :: "(go_error option \<times> Connection) outcome \<Rightarrow> go_error option \<Rightarrow> ConnectionHandler \<Rightarrow> handler_result" where
  "send_logged r err h = (case r of Panic \<Rightarrow> Panic | Ret (_, c) \<Rightarrow> Ret (err, h\<lparr>h_conn := c\<rparr>))"

text \<open>A send whose error is returned.\<close>

definition send_returned :: "(go_error option \<times> Connection) outcome \<Rightarrow> ConnectionHandler \<Rightarrow> handler_result" where
  "send_returned r h = (case r of Panic \<Rightarrow> Panic | Ret (e, c) \<Rightarrow> Ret (e, h\<lparr>h_conn := c\<rparr>))"

definition handleHeartbeatTimeout :: "(nat \<Rightarrow> time) \<Rightarrow> ConnectionHandler \<Rightarrow> ConnectionHandler outcome" where
  "handleHeartbeatTimeout now h = logged h
    (case Close now (h_conn h) of Panic \<Rightarrow> Panic | Ret c \<Rightarrow> Ret (h\<lparr>h_cancelled := True, h_conn := c\<rparr>))"

text \<open>The comparison with \<open>HeartbeatInterval / 2\<close> only decides whether a warning is logged.\<close>

definition handleHeartbeat :: "protobuf \<Rightarrow> (nat \<Rightarrow> time) \<Rightarrow> Frame \<Rightarrow> ConnectionHandler \<Rightarrow> handler_result" where
  "handleHeartbeat pb now frame h = (case unmarshal_Heartbeat pb (Payload frame) of
     Inl err \<Rightarrow> logged h (Ret (Some (Wrapf ''failed to unmarshal heartbeat'' err), h))
   | Inr hb \<Rightarrow>
     (case ValidateHeartbeatRequest (now 0) (Some hb) of
        Some err \<Rightarrow> logged h (Ret (Some (case errors_as_validation err of
            Some (field, _, _, _) \<Rightarrow> if field = ''timestamp_ms'' then Errorf ''invalid heartbeat timestamp''
              else Wrapf ''heartbeat validation failed'' err
          | None \<Rightarrow> Wrapf ''heartbeat validation failed'' err), h))
      | None \<Rightarrow>
        if lastHeartbeat h \<noteq> 0 \<and> h_config h = None then Panic
        else logged h (
          let h = h\<lparr>lastHeartbeat := now 1\<rparr> in
          (case heartbeatTimer h of
             None \<Rightarrow> send_returned (SendPong pb (\<lambda>k. now (k + 3)) (hb_TimestampMs hb) (hb_Sequence hb) (h_conn h)) h
           | Some i \<Rightarrow> (case h_config h of
               None \<Rightarrow> Panic
             | Some cfg \<Rightarrow>
               let h = h\<lparr>h_timers := set_timer (Some (now 2 + HeartbeatTimeout cfg)) i (h_timers h)\<rparr> in
               send_returned (SendPong pb (\<lambda>k. now (k + 3)) (hb_TimestampMs hb) (hb_Sequence hb) (h_conn h)) h)))))"

definition handleSubscribe :: "protobuf \<Rightarrow> fmt_env \<Rightarrow> (nat \<Rightarrow> time) \<Rightarrow> Frame \<Rightarrow> ConnectionHandler \<Rightarrow> handler_result" where
  "handleSubscribe pb fe now frame h = (case unmarshal_Subscribe pb (Payload frame) of
     Inl err \<Rightarrow> logged h (send_logged (SendErrorWithDetails pb now ERROR_CODE_INVALID_MESSAGE
         ''Invalid subscription request format'' (''Failed to parse subscription request: '' @ error_text fe err) (h_conn h))
       (Some (Wrapf ''failed to unmarshal subscribe'' err)) h)
   | Inr sub \<Rightarrow>
     (case ValidateSubscribeRequest (now 0) (Some sub) of
        Some err \<Rightarrow> logged h (send_logged (SendErrorWithDetails pb (\<lambda>k. now (k + 1)) ERROR_CODE_INVALID_SUBSCRIPTION
            ''Invalid subscription request'' (''Validation failed: '' @ error_text fe err) (h_conn h))
          (Some (Wrapf ''subscription validation failed'' err)) h)
      | None \<Rightarrow> logged h
        (if sub_Mode sub \<noteq> SUBSCRIPTION_MODE_SECOND \<and> sub_Mode sub \<noteq> SUBSCRIPTION_MODE_MINUTE then
           send_logged (SendErrorWithDetails pb (\<lambda>k. now (k + 1)) ERROR_CODE_INVALID_SUBSCRIPTION
             ''Invalid subscription mode''
             (''Mode '' @ quoted (mode_String fe (sub_Mode sub)) @ '' is not supported. Use SECOND or MINUTE'') (h_conn h))
             (Some (E ErrInvalidSubscription)) h
         else (case GetSubscription (h_conn h) of
           Some existingSub \<Rightarrow>
             if sub_mode existingSub \<noteq> sub_Mode sub then
               send_logged (SendErrorWithDetails pb (\<lambda>k. now (k + 1)) ERROR_CODE_INVALID_SUBSCRIPTION
                 ''Subscription mode switching not allowed''
                 (''Already subscribed to '' @ mode_String fe (sub_mode existingSub) @ '' mode. Cannot switch to '' @
                    mode_String fe (sub_Mode sub)) (h_conn h))
                 (Some (Errorf (''subscription mode switching not allowed: already subscribed to '' @
                    mode_String fe (sub_mode existingSub) @ '' mode''))) h
             else send_logged (SendErrorCode pb (\<lambda>k. now (k + 1)) ERROR_CODE_ALREADY_SUBSCRIBED (h_conn h))
                 (Some (E ErrAlreadySubscribed)) h
         | None \<Rightarrow>
           let subscription = NewSubscription (now 1) (sub_Mode sub) in
           (case SetSubscription subscription (h_conn h) of
              (Some err, c) \<Rightarrow> Ret (Some err, h)
            | (None, c) \<Rightarrow>
              let ts = (case subscriptionTimer h of None \<Rightarrow> h_timers h | Some i \<Rightarrow> set_timer None i (h_timers h));
                  h = h\<lparr>h_conn := c, subscriptionTimer := Some (length ts),
                        h_timers := new_timer RunSubscriptionWarning (now 2 + 30 * second) ts\<rparr> in
              (case SendSubscriptionConfirmed pb (\<lambda>k. now (k + 3)) (h_conn h) of
                 Panic \<Rightarrow> Panic
               | Ret (Some err, c) \<Rightarrow> Ret (Some err, h\<lparr>h_conn := c\<rparr>)
               | Ret (None, c) \<Rightarrow> Ret (None, h\<lparr>h_conn := c, generators := generators h @ [(subscription, 0)]\<rparr>)))))))"

definition processFrame :: "protobuf \<Rightarrow> fmt_env \<Rightarrow> (nat \<Rightarrow> time) \<Rightarrow> Frame \<Rightarrow> ConnectionHandler \<Rightarrow> handler_result" where
  "processFrame pb fe now frame h = (case ValidateMessageType (Type frame) of
     Some err \<Rightarrow> logged h (Ret (Some err, h))
   | None \<Rightarrow>
     if Type frame = MessageTypeHeartbeat then handleHeartbeat pb now frame h
     else if Type frame = MessageTypeSubscribe then handleSubscribe pb fe now frame h
     else if Type frame = MessageTypeAuth then Ret (Some (E ErrInvalidSequence), h)
     else Ret (Some (E ErrInvalidMessageType), h))"

section \<open>The message loop\<close>

text \<open>
  The goroutines of \<open>Handle\<close> share the handler, the error channel, and the context that the server passes
  in (\<open>ss_ctx\<close> is its error once it is cancelled).  \<open>ss_hb\<close> and \<open>ss_bt\<close> are the timers created by \<open>Handle\<close>,
  which its deferred calls stop.  \<open>ss_result\<close> is the result of \<open>Handle\<close> once it has returned, \<open>ss_drops\<close> and
  \<open>ss_stopped\<close> belong to the delivery loop.
\<close>

record session_state =
  ss_h :: ConnectionHandler
  ss_err :: "go_error chan"
  ss_ctx :: "go_error option"
  ss_hb :: nat
  ss_bt :: nat
  ss_result :: "go_error option option"
  ss_drops :: int
  ss_stopped :: bool

definition Handle_start :: "(nat \<Rightarrow> time) \<Rightarrow> go_error option \<Rightarrow> ConnectionHandler \<Rightarrow> session_state outcome" where
  "Handle_start now ctx h = (case h_config h of
     None \<Rightarrow> Panic
   | Some cfg \<Rightarrow>
     let hb = length (h_timers h); ts = new_timer OnChannel (now 0 + HeartbeatTimeout cfg) (h_timers h);
         bt = length ts; ts = new_timer OnChannel (now 1 + 5 * millisecond) ts in
     Ret \<lparr> ss_h = h\<lparr>heartbeatTimer := Some hb, batchTimer := Some bt, h_timers := ts\<rparr>, ss_err = make_chan 2, ss_ctx = ctx,
        ss_hb = hb, ss_bt = bt, ss_result = None, ss_drops = 0, ss_stopped = False \<rparr>)"

text \<open>The deferred calls, which run when \<open>Handle\<close> returns.\<close>

definition Handle_return :: "go_error option \<Rightarrow> session_state \<Rightarrow> session_state" where
  "Handle_return r s = s\<lparr>ss_result := Some r,
     ss_h := (ss_h s)\<lparr>h_timers := set_timer None (ss_hb s) (set_timer None (ss_bt s) (h_timers (ss_h s)))\<rparr>\<rparr>"

text \<open>
  The \<open>select\<close> of the loop takes one of its ready cases, and the default only when none is ready.
\<close>

datatype loop_case = CtxDone | HeartbeatC | ErrC | DefaultC

definition heartbeat_due :: "time \<Rightarrow> ConnectionHandler \<Rightarrow> bool" where
  "heartbeat_due now h = (case heartbeatTimer h of None \<Rightarrow> False | Some i \<Rightarrow>
     tm_kind (h_timers h ! i) = OnChannel \<and> due now (h_timers h ! i))"

fun loop_ready :: "time \<Rightarrow> session_state \<Rightarrow> loop_case \<Rightarrow> bool" where
  "loop_ready now s CtxDone = (ss_ctx s \<noteq> None)"
| "loop_ready now s HeartbeatC = heartbeat_due now (ss_h s)"
| "loop_ready now s ErrC = (chan_buf (ss_err s) \<noteq> [])"
| "loop_ready now s DefaultC = (ss_ctx s = None \<and> \<not> heartbeat_due now (ss_h s) \<and> chan_buf (ss_err s) = [])"

text \<open>What the loop does with the error of \<open>ReadFrame\<close>: the message sent to the client and the result.\<close>

definition read_failed :: "protobuf \<Rightarrow> fmt_env \<Rightarrow> (nat \<Rightarrow> time) \<Rightarrow> go_error \<Rightarrow> ConnectionHandler \<Rightarrow> handler_result" where
  "read_failed pb fe now err h =
    (if errors_is err (E Context_Canceled) \<or> errors_is err (E Context_DeadlineExceeded) then Ret (None, h)
     else logged h
       (if errors_is err (E ErrInvalidChecksum) then
          send_logged (SendError pb now ERROR_CODE_CHECKSUM_FAILED ''frame checksum validation failed'' (h_conn h)) (Some err) h
        else if errors_is err (E ErrInvalidMagic) then
          send_logged (SendError pb now ERROR_CODE_INVALID_MESSAGE ''invalid frame format'' (h_conn h)) (Some err) h
        else send_logged (SendError pb now ERROR_CODE_INVALID_MESSAGE (error_text fe err) (h_conn h)) (Some err) h))"

text \<open>What the loop does with a frame: \<open>None\<close> as the first result means that the loop goes on.\<close>

definition handle_frame :: "protobuf \<Rightarrow> fmt_env \<Rightarrow> (nat \<Rightarrow> time) \<Rightarrow> Frame \<Rightarrow> ConnectionHandler
    \<Rightarrow> (go_error option option \<times> ConnectionHandler) outcome" where
  "handle_frame pb fe now frame h =
    (if \<not> h_authenticated h \<and> Type frame \<noteq> MessageTypeAuth then
       (case SendError pb now ERROR_CODE_AUTH_REQUIRED ''first frame must be auth'' (h_conn h) of
          Panic \<Rightarrow> Panic
        | Ret (Some e, c) \<Rightarrow> Ret (Some (Some e), h\<lparr>h_conn := c\<rparr>)
        | Ret (None, c) \<Rightarrow> Ret (Some (Some (Errorf ''first frame must be auth'')), h\<lparr>h_conn := c\<rparr>))
     else (case processFrame pb fe now frame h of
       Panic \<Rightarrow> Panic
     | Ret (None, h) \<Rightarrow> Ret (None, h)
     | Ret (Some err, h) \<Rightarrow>
       if errors_is err (E ErrInvalidSequence) \<and> Type frame = MessageTypeAuth then
         (case SendErrorCode pb (\<lambda>k. now (k + 5)) (if h_authenticated h then ERROR_CODE_ALREADY_AUTHENTICATED
              else ERROR_CODE_AUTH_REQUIRED) (h_conn h) of
            Panic \<Rightarrow> Panic
          | Ret (Some e, c) \<Rightarrow> Ret (Some (Some e), h\<lparr>h_conn := c\<rparr>)
          | Ret (None, c) \<Rightarrow> Ret (Some (Some err), h\<lparr>h_conn := c,
              h_server := (if h_authenticated h then map_option (\<lambda>n. n + 1) (h_server h) else h_server h)\<rparr>))
       else
         (case SendError pb (\<lambda>k. now (k + 5)) ERROR_CODE_INVALID_MESSAGE (error_text fe err) (h_conn h) of
            Panic \<Rightarrow> Panic
          | Ret (Some e, c) \<Rightarrow> Ret (Some (Some e), h\<lparr>h_conn := c\<rparr>)
          | Ret (None, c) \<Rightarrow> Ret (Some (Some err), h\<lparr>h_conn := c\<rparr>))))"

definition read_and_handle :: "protobuf \<Rightarrow> fmt_env \<Rightarrow> (nat \<Rightarrow> time) \<Rightarrow> ConnectionHandler
    \<Rightarrow> (go_error option option \<times> ConnectionHandler) outcome" where
  "read_and_handle pb fe now h = (case h_config h of
     None \<Rightarrow> Panic
   | Some cfg \<Rightarrow>
     (case Conn_ReadFrame (\<lambda>k. now (k + 1)) (SetReadDeadline (now 0 + ReadTimeout cfg) (h_conn h)) of
        (Panic, c) \<Rightarrow> Panic
      | (Ret (Inl err), c) \<Rightarrow> (case read_failed pb fe (\<lambda>k. now (k + 3)) err (h\<lparr>h_conn := c\<rparr>) of
          Panic \<Rightarrow> Panic | Ret (r, h) \<Rightarrow> Ret (Some r, h))
      | (Ret (Inr frame), c) \<Rightarrow> handle_frame pb fe (\<lambda>k. now (k + 3)) frame (h\<lparr>h_conn := c\<rparr>)))"

definition finish_iter :: "(go_error option option \<times> ConnectionHandler) outcome \<Rightarrow> session_state \<Rightarrow> session_state outcome" where
  "finish_iter r s = (case r of
     Panic \<Rightarrow> Panic
   | Ret (None, h) \<Rightarrow> Ret (s\<lparr>ss_h := h\<rparr>)
   | Ret (Some res, h) \<Rightarrow> Ret (Handle_return res (s\<lparr>ss_h := h\<rparr>)))"

text \<open>One iteration of the loop, through the given case of the \<open>select\<close>.\<close>

fun Handle_iter :: "protobuf \<Rightarrow> fmt_env \<Rightarrow> (nat \<Rightarrow> time) \<Rightarrow> loop_case \<Rightarrow> session_state \<Rightarrow> session_state outcome" where
  "Handle_iter pb fe now CtxDone s = Ret (Handle_return (ss_ctx s) s)"
| "Handle_iter pb fe now HeartbeatC s =
    (case SendError pb now ERROR_CODE_HEARTBEAT_TIMEOUT ''heartbeat timeout'' (h_conn (ss_h s)) of
       Panic \<Rightarrow> Panic
     | Ret (_, c) \<Rightarrow> Ret (Handle_return (Some (Errorf ''heartbeat timeout'')) (s\<lparr>ss_h := (ss_h s)\<lparr>h_conn := c\<rparr>\<rparr>)))"
| "Handle_iter pb fe now ErrC s = (case chan_buf (ss_err s) of
     [] \<Rightarrow> Ret s
   | e # es \<Rightarrow> Ret (Handle_return (Some e) (s\<lparr>ss_err := (ss_err s)\<lparr>chan_buf := es\<rparr>\<rparr>)))"
| "Handle_iter pb fe now DefaultC s = finish_iter (read_and_handle pb fe now (ss_h s)) s"

end
