(* ===== verification/Delivery.thy ===== *)
theory Delivery
  imports Handler
begin

text \<open>
  \<open>internal/server/delivery_loop.go\<close> and \<open>startDataGeneration\<close> of \<open>handler.go\<close>: ticks are generated into the
  data channel, filtered by the subscription, collected in the pending batch and flushed to the client when
  the batch window has passed or the batch is full.
\<close>

definition filterTicksBySubscription :: "Tick list \<Rightarrow> ConnectionHandler \<Rightarrow> Tick list" where
  "filterTicksBySubscription ticks h = (case GetSubscription (h_conn h) of
     None \<Rightarrow> []
   | Some subscription \<Rightarrow> filter (\<lambda>tick. tick_Mode tick = sub_mode subscription) ticks)"

text \<open>The non-blocking send on the error channel, which nobody closes.\<close>

definition post_error :: "go_error \<Rightarrow> session_state \<Rightarrow> session_state" where
  "post_error e s = (case try_send e (ss_err s) of Ret (_, ch) \<Rightarrow> s\<lparr>ss_err := ch\<rparr> | Panic \<Rightarrow> s)"

text \<open>
  \<open>flushBatch\<close> in two parts, because the timer goroutine and the delivery loop run it without a lock: sending what is
  pending (the flag says that a batch was sent and has to be cleared), and clearing.
\<close>

definition flush_send :: "protobuf \<Rightarrow> (nat \<Rightarrow> time) \<Rightarrow> session_state \<Rightarrow> (bool \<times> session_state) outcome" where
  "flush_send pb now s =
    (if length (pendingBatch (ss_h s)) = 0 then Ret (False, s)
     else (case SendDataBatch pb now (pendingBatch (ss_h s)) (h_conn (ss_h s)) of
       Panic \<Rightarrow> Panic
     | Ret (Some err, c) \<Rightarrow> Ret (False, post_error err (s\<lparr>ss_h := (ss_h s)\<lparr>h_conn := c\<rparr>\<rparr>))
     | Ret (None, c) \<Rightarrow> Ret (True, s\<lparr>ss_h := (ss_h s)\<lparr>h_conn := c\<rparr>\<rparr>)))"

definition flush_clear :: "session_state \<Rightarrow> session_state" where
  "flush_clear s = s\<lparr>ss_h := (ss_h s)\<lparr>pendingBatch := []\<rparr>\<rparr>"

definition flushBatch :: "protobuf \<Rightarrow> (nat \<Rightarrow> time) \<Rightarrow> session_state \<Rightarrow> session_state outcome" where
  "flushBatch pb now s = (case flush_send pb now s of
     Panic \<Rightarrow> Panic
   | Ret (True, s) \<Rightarrow> Ret (flush_clear s)
   | Ret (False, s) \<Rightarrow> Ret s)"

section \<open>The delivery loop\<close>

definition batch_window :: "ServerConfig \<Rightarrow> duration" where
  "batch_window cfg = (if BatchWindow cfg = 0 then 5 * millisecond else BatchWindow cfg)"

definition max_batch_size :: "ServerConfig \<Rightarrow> int" where
  "max_batch_size cfg = (if MaxBatchSize cfg = 0 then 100 else MaxBatchSize cfg)"

definition maxConsecutiveDrops :: int where "maxConsecutiveDrops = 10"

definition stop_batch_timer :: "ConnectionHandler \<Rightarrow> ConnectionHandler" where
  "stop_batch_timer h = (case batchTimer h of None \<Rightarrow> h | Some i \<Rightarrow> h\<lparr>h_timers := set_timer None i (h_timers h)\<rparr>)"

definition arm_batch_timer :: "time \<Rightarrow> ConnectionHandler \<Rightarrow> ConnectionHandler" where
  "arm_batch_timer t h = (let ts = h_timers (stop_batch_timer h) in
     h\<lparr>h_timers := new_timer RunFlushBatch t ts, batchTimer := Some (length ts)\<rparr>)"

text \<open>
  The case of the loop that receives ticks, up to the flush of a full batch: the ticks that entered the batch, whether the
  batch is full, and the state.
\<close>

definition take_ticks :: "time \<Rightarrow> ServerConfig \<Rightarrow> Tick list \<Rightarrow> session_state \<Rightarrow> Tick list \<times> bool \<times> session_state" where
  "take_ticks now cfg ticks s =
    (let h = ss_h s; filteredTicks = filterTicksBySubscription ticks h in
     if length filteredTicks = 0 then ([], False, s)
     else let h = arm_batch_timer (now + batch_window cfg) (h\<lparr>pendingBatch := pendingBatch h @ filteredTicks\<rparr>);
              full = (int (length (pendingBatch h)) \<ge> max_batch_size cfg);
              h = (if full then stop_batch_timer h else h) in
          (filteredTicks, full, s\<lparr>ss_h := h, ss_drops := 0\<rparr>))"

text \<open>The same in the default branch: no timer, no size check.\<close>

definition take_late :: "Tick list \<Rightarrow> session_state \<Rightarrow> Tick list \<times> session_state" where
  "take_late ticks s = (let h = ss_h s; filteredTicks = filterTicksBySubscription ticks h in
     (filteredTicks, if length filteredTicks > 0 then s\<lparr>ss_h := h\<lparr>pendingBatch := pendingBatch h @ filteredTicks\<rparr>\<rparr> else s))"

text \<open>\<open>len\<close> is the length of the data channel that the innermost branch sees after it found the channel empty.\<close>

definition check_backpressure :: "nat \<Rightarrow> session_state \<Rightarrow> session_state" where
  "check_backpressure len s =
    (if len \<ge> chan_cap (dataChan (ss_h s)) * 3 div 4 then
       let s = s\<lparr>ss_drops := ss_drops s + 1\<rparr> in
       if ss_drops s \<ge> maxConsecutiveDrops
       then (post_error (Errorf ''connection backpressure exceeded threshold'') s)\<lparr>ss_stopped := True\<rparr>
       else s
     else s)"

datatype deliver_case = DCtxDone | DData | DTimerC | DLate | DIdle nat

definition batch_timer_due :: "time \<Rightarrow> ConnectionHandler \<Rightarrow> bool" where
  "batch_timer_due now h = (case batchTimer h of None \<Rightarrow> False | Some i \<Rightarrow>
     tm_kind (h_timers h ! i) = OnChannel \<and> due now (h_timers h ! i))"

text \<open>
  A \<open>select\<close> with no ready case takes its default; the inner \<open>select\<close> may then find data that arrived in
  the meantime (\<open>DLate\<close>).
\<close>

fun deliver_ready :: "time \<Rightarrow> session_state \<Rightarrow> deliver_case \<Rightarrow> bool" where
  "deliver_ready now s DCtxDone = (ss_ctx s \<noteq> None)"
| "deliver_ready now s DData = (chan_buf (dataChan (ss_h s)) \<noteq> [])"
| "deliver_ready now s DTimerC = batch_timer_due now (ss_h s)"
| "deliver_ready now s DLate = (ss_ctx s = None \<and> \<not> batch_timer_due now (ss_h s) \<and> chan_buf (dataChan (ss_h s)) \<noteq> [])"
| "deliver_ready now s (DIdle len) = (ss_ctx s = None \<and> \<not> batch_timer_due now (ss_h s))"

definition pop_data :: "session_state \<Rightarrow> Tick list \<times> session_state" where
  "pop_data s = (case recv (dataChan (ss_h s)) of
     Some (Some ticks, q) \<Rightarrow> (ticks, s\<lparr>ss_h := (ss_h s)\<lparr>dataChan := q\<rparr>\<rparr>)
   | _ \<Rightarrow> ([], s))"

text \<open>One iteration of \<open>deliveryLoop\<close>, with \<open>flushBatch\<close> in one piece.\<close>

definition deliver :: "protobuf \<Rightarrow> (nat \<Rightarrow> time) \<Rightarrow> ServerConfig \<Rightarrow> deliver_case \<Rightarrow> session_state \<Rightarrow> session_state outcome" where
  "deliver pb now cfg c s = (case c of
     DCtxDone \<Rightarrow> Ret (s\<lparr>ss_stopped := True\<rparr>)
   | DData \<Rightarrow> (case pop_data s of (ticks, s) \<Rightarrow> (case take_ticks (now 0) cfg ticks s of
       (_, True, s) \<Rightarrow> flushBatch pb (\<lambda>k. now (k + 1)) s
     | (_, False, s) \<Rightarrow> Ret s))
   | DTimerC \<Rightarrow> flushBatch pb now (s\<lparr>ss_h := stop_batch_timer (ss_h s)\<rparr>)
   | DLate \<Rightarrow> (case pop_data s of (ticks, s) \<Rightarrow> Ret (snd (take_late ticks s)))
   | DIdle len \<Rightarrow> Ret (check_backpressure len s))"

section \<open>Data generation\<close>

definition gen_interval :: "int \<Rightarrow> duration option" where
  "gen_interval mode = (if mode = SUBSCRIPTION_MODE_SECOND then Some second
     else if mode = SUBSCRIPTION_MODE_MINUTE then Some minute else None)"

text \<open>\<open>r\<close> and \<open>v\<close> are the results of \<open>rand.Float64()\<close> and \<open>rand.Intn(1000)\<close>.\<close>

definition generated_tick :: "time \<Rightarrow> f64 \<Rightarrow> int \<Rightarrow> int \<Rightarrow> int \<Rightarrow> Tick" where
  "generated_tick now r v mode i =
     \<lparr> tick_Symbol = ''TICK_'' @ show_int i, tick_TimestampMs = unix_milli now,
       tick_Price = f64_add (Fin 100) (f64_mul r (Fin 10)), tick_Volume = f64_of_int v,
       tick_Bid = Fin 0, tick_Ask = Fin 0, tick_BidSize = 0, tick_AskSize = 0, tick_Mode = mode, tick_Metadata = [] \<rparr>"

text \<open>
  One tick of the goroutine number \<open>g\<close>.  The inner \<open>select\<close> has a default, so it never waits for its \<open>time.After\<close>
  case, and the goroutine never returns.
\<close>

definition generate :: "time \<Rightarrow> f64 \<Rightarrow> int \<Rightarrow> nat \<Rightarrow> ConnectionHandler \<Rightarrow> ConnectionHandler outcome" where
  "generate now r v g h = (case generators h ! g of (subscription, i) \<Rightarrow>
     let h = (case subscriptionTimer h of None \<Rightarrow> h | Some j \<Rightarrow> h\<lparr>h_timers := set_timer None j (h_timers h)\<rparr>) in
     (case try_send [generated_tick now r v (sub_mode subscription) i] (dataChan h) of
        Panic \<Rightarrow> Panic
      | Ret (True, q) \<Rightarrow> Ret (h\<lparr>dataChan := q, generators := (generators h)[g := (subscription, wrap64 (i + 1))]\<rparr>)
      | Ret (False, q) \<Rightarrow> Ret h))"

end
