(* ===== verification/Session.thy ===== *)
theory Session
  imports Delivery Runs
begin

text \<open>
  The goroutines of one authenticated connection, interleaved: the message loop of \<open>Handle\<close>, the delivery loop,
  the goroutines of expired timers, the tick generators, the write loop, the server that cancels the context
  or closes the connection, and time.

  A flush takes two steps, because \<open>flushBatch\<close> runs without a lock both in the delivery loop and in the
  goroutines of batch timers: \<open>se_started\<close> timer goroutines have not yet looked at the batch, \<open>se_inflight\<close> of them have
  sent it and not yet cleared it, and \<open>se_pc\<close> says where the delivery loop is.

  History: \<open>se_taken\<close> are the ticks that entered the pending batch, \<open>se_sent\<close> the batches handed to the
  connection, and \<open>se_overlap\<close> records that some goroutine used the pending batch while another one was between
  sending and clearing it.
\<close>

datatype deliver_pc = Polling | Flushing | Clearing

record sess =
  se_s :: session_state
  se_now :: time
  se_pc :: deliver_pc
  se_started :: nat
  se_inflight :: nat
  se_taken :: "Tick list"
  se_sent :: "Tick list list"
  se_overlap :: bool

abbreviation se_h :: "sess \<Rightarrow> ConnectionHandler" where
  "se_h s \<equiv> ss_h (se_s s)"

abbreviation se_conn :: "sess \<Rightarrow> Connection" where
  "se_conn s \<equiv> h_conn (se_h s)"

abbreviation set_h :: "ConnectionHandler \<Rightarrow> sess \<Rightarrow> sess" where
  "set_h h s \<equiv> s\<lparr>se_s := (se_s s)\<lparr>ss_h := h\<rparr>\<rparr>"

text \<open>The clock readings of a step lie between the time before and the time after it.\<close>

definition clock :: "sess \<Rightarrow> (nat \<Rightarrow> time) \<Rightarrow> time \<Rightarrow> bool" where
  "clock s now t \<longleftrightarrow> (\<forall>k. se_now s \<le> now k \<and> now k \<le> t)"

definition clearing :: "sess \<Rightarrow> nat" where
  "clearing s = se_inflight s + (if se_pc s = Clearing then 1 else 0)"

inductive sess_step :: "protobuf \<Rightarrow> fmt_env \<Rightarrow> ServerConfig \<Rightarrow> sess \<Rightarrow> sess \<Rightarrow> bool" for pb fe cfg where
  message: "clock s now t \<Longrightarrow> ss_result (se_s s) = None \<Longrightarrow> loop_ready (now 0) (se_s s) c \<Longrightarrow>
    Handle_iter pb fe now c (se_s s) = Ret s' \<Longrightarrow>
    sess_step pb fe cfg s (s\<lparr>se_s := s', se_now := t\<rparr>)"
| take_data: "clock s now t \<Longrightarrow> \<not> ss_stopped (se_s s) \<Longrightarrow> se_pc s = Polling \<Longrightarrow> deliver_ready (now 0) (se_s s) DData \<Longrightarrow>
    pop_data (se_s s) = (ticks, s') \<Longrightarrow> take_ticks (now 0) cfg ticks s' = (new, full, s'') \<Longrightarrow>
    sess_step pb fe cfg s (s\<lparr>se_s := s'', se_now := t, se_pc := (if full then Flushing else Polling),
      se_taken := se_taken s @ new, se_overlap := (se_overlap s \<or> clearing s > 0)\<rparr>)"
| take_default: "clock s now t \<Longrightarrow> \<not> ss_stopped (se_s s) \<Longrightarrow> se_pc s = Polling \<Longrightarrow> deliver_ready (now 0) (se_s s) DLate \<Longrightarrow>
    pop_data (se_s s) = (ticks, s') \<Longrightarrow> take_late ticks s' = (new, s'') \<Longrightarrow>
    sess_step pb fe cfg s (s\<lparr>se_s := s'', se_now := t,
      se_taken := se_taken s @ new, se_overlap := (se_overlap s \<or> clearing s > 0)\<rparr>)"
| timer_c: "clock s now t \<Longrightarrow> \<not> ss_stopped (se_s s) \<Longrightarrow> se_pc s = Polling \<Longrightarrow> deliver_ready (now 0) (se_s s) DTimerC \<Longrightarrow>
    sess_step pb fe cfg s ((set_h (stop_batch_timer (se_h s)) s)\<lparr>se_now := t, se_pc := Flushing\<rparr>)"
| idle: "clock s now t \<Longrightarrow> \<not> ss_stopped (se_s s) \<Longrightarrow> se_pc s = Polling \<Longrightarrow> deliver_ready (now 0) (se_s s) (DIdle len) \<Longrightarrow>
    sess_step pb fe cfg s (s\<lparr>se_s := check_backpressure len (se_s s), se_now := t\<rparr>)"
| stop: "\<not> ss_stopped (se_s s) \<Longrightarrow> se_pc s = Polling \<Longrightarrow> ss_ctx (se_s s) \<noteq> None \<Longrightarrow>
    sess_step pb fe cfg s (s\<lparr>se_s := (se_s s)\<lparr>ss_stopped := True\<rparr>\<rparr>)"
| loop_flush: "clock s now t \<Longrightarrow> se_pc s = Flushing \<Longrightarrow> flush_send pb now (se_s s) = Ret (ok, s') \<Longrightarrow>
    sess_step pb fe cfg s (s\<lparr>se_s := s', se_now := t, se_pc := (if ok then Clearing else Polling),
      se_sent := se_sent s @ (if ok then [pendingBatch (se_h s)] else []),
      se_overlap := (se_overlap s \<or> clearing s > 0)\<rparr>)"
| loop_clear: "se_pc s = Clearing \<Longrightarrow>
    sess_step pb fe cfg s (s\<lparr>se_s := flush_clear (se_s s), se_pc := Polling\<rparr>)"
| timer_flush: "clock s now t \<Longrightarrow> se_started s > 0 \<Longrightarrow> flush_send pb now (se_s s) = Ret (ok, s') \<Longrightarrow>
    sess_step pb fe cfg s (s\<lparr>se_s := s', se_now := t, se_started := se_started s - 1,
      se_inflight := se_inflight s + (if ok then 1 else 0),
      se_sent := se_sent s @ (if ok then [pendingBatch (se_h s)] else []),
      se_overlap := (se_overlap s \<or> clearing s > 0)\<rparr>)"
| timer_clear: "se_inflight s > 0 \<Longrightarrow>
    sess_step pb fe cfg s (s\<lparr>se_s := flush_clear (se_s s), se_inflight := se_inflight s - 1\<rparr>)"
| fire_flush: "clock s now t \<Longrightarrow> i < length (h_timers (se_h s)) \<Longrightarrow> tm_kind (h_timers (se_h s) ! i) = RunFlushBatch \<Longrightarrow>
    due (now 0) (h_timers (se_h s) ! i) \<Longrightarrow>
    sess_step pb fe cfg s ((set_h ((se_h s)\<lparr>h_timers := set_timer None i (h_timers (se_h s))\<rparr>) s)
      \<lparr>se_now := t, se_started := se_started s + 1\<rparr>)"
| fire_heartbeat: "clock s now t \<Longrightarrow> i < length (h_timers (se_h s)) \<Longrightarrow> tm_kind (h_timers (se_h s) ! i) = RunHeartbeatTimeout \<Longrightarrow>
    due (now 0) (h_timers (se_h s) ! i) \<Longrightarrow>
    handleHeartbeatTimeout (\<lambda>k. now (k + 1)) ((se_h s)\<lparr>h_timers := set_timer None i (h_timers (se_h s))\<rparr>) = Ret h \<Longrightarrow>
    sess_step pb fe cfg s ((set_h h s)\<lparr>se_now := t\<rparr>)"
| fire_warning: "clock s now t \<Longrightarrow> i < length (h_timers (se_h s)) \<Longrightarrow> tm_kind (h_timers (se_h s) ! i) = RunSubscriptionWarning \<Longrightarrow>
    due (now 0) (h_timers (se_h s) ! i) \<Longrightarrow>
    sess_step pb fe cfg s ((set_h ((se_h s)\<lparr>h_timers := set_timer None i (h_timers (se_h s))\<rparr>) s)\<lparr>se_now := t\<rparr>)"
| gen: "clock s now t \<Longrightarrow> g < length (generators (se_h s)) \<Longrightarrow> gen_interval (sub_mode (fst (generators (se_h s) ! g))) \<noteq> None \<Longrightarrow>
    generate (now 0) r v g (se_h s) = Ret h \<Longrightarrow>
    sess_step pb fe cfg s ((set_h h s)\<lparr>se_now := t\<rparr>)"
| write_loop: "clock s now t \<Longrightarrow>
    sess_step pb fe cfg s ((set_h ((se_h s)\<lparr>h_conn := snd (drain now 0 (se_conn s))\<rparr>) s)\<lparr>se_now := t\<rparr>)"
| cancel: "ss_ctx (se_s s) = None \<Longrightarrow> sess_step pb fe cfg s (s\<lparr>se_s := (se_s s)\<lparr>ss_ctx := Some e\<rparr>\<rparr>)"
| server_close: "clock s now t \<Longrightarrow> Close now (se_conn s) = Ret c \<Longrightarrow>
    sess_step pb fe cfg s ((set_h ((se_h s)\<lparr>h_conn := c\<rparr>) s)\<lparr>se_now := t\<rparr>)"
| pass: "se_now s \<le> t \<Longrightarrow> sess_step pb fe cfg s (s\<lparr>se_now := t\<rparr>)"

inductive_cases sess_stepE: "sess_step pb fe cfg s s'"

text \<open>A handler that \<open>processConnection\<close> creates and runs.\<close>

definition sess_init :: "(nat \<Rightarrow> time) \<Rightarrow> Connection \<Rightarrow> ServerConfig \<Rightarrow> u64 option \<Rightarrow> sess outcome" where
  "sess_init now conn cfg srv = (case Handle_start (\<lambda>k. now (k + 3)) None (NewConnectionHandler now conn cfg srv) of
     Panic \<Rightarrow> Panic
   | Ret s \<Rightarrow> Ret \<lparr> se_s = s, se_now = now 4, se_pc = Polling, se_started = 0, se_inflight = 0, se_taken = [], se_sent = [],
       se_overlap = False \<rparr>)"

section \<open>What each step changes\<close>

lemma set_timer_simps [simp]:
  "length (set_timer t i ts) = length ts"
  "i \<noteq> j \<Longrightarrow> set_timer t i ts ! j = ts ! j"
  by (simp_all add: set_timer_def)

lemma new_timer_simps [simp]:
  "length (new_timer k t ts) = Suc (length ts)"
  "j < length ts \<Longrightarrow> new_timer k t ts ! j = ts ! j"
  by (simp_all add: new_timer_def nth_append)

text \<open>
  \<open>off j h\<close>: no timer variable of the handler holds the timer \<open>j\<close>.  \<open>evolves h h'\<close> is what the operations on the
  handler preserve: the pending batch, a subscription once it is set, the closed flag, and every timer that no variable holds.
\<close>

definition off :: "nat \<Rightarrow> ConnectionHandler \<Rightarrow> bool" where
  "off j h \<longleftrightarrow> j < length (h_timers h) \<and> heartbeatTimer h \<noteq> Some j \<and> batchTimer h \<noteq> Some j \<and> subscriptionTimer h \<noteq> Some j"

definition sub_step :: "Connection \<Rightarrow> Connection \<Rightarrow> bool" where
  "sub_step c c' \<longleftrightarrow> conn_sub c' = conn_sub c \<or>
     (conn_sub c = None \<and> (\<exists>sub. conn_sub c' = Some sub \<and> mode_ok (sub_mode sub)))"

definition conn_step :: "Connection \<Rightarrow> Connection \<Rightarrow> bool" where
  "conn_step c c' \<longleftrightarrow> sub_step c c' \<and> (conn_closed c \<longrightarrow> conn_closed c') \<and>
     (chan_closed (writeQueue c') \<longrightarrow> chan_closed (writeQueue c) \<or> conn_closed c')"

definition evolves :: "ConnectionHandler \<Rightarrow> ConnectionHandler \<Rightarrow> bool" where
  "evolves h h' \<longleftrightarrow> pendingBatch h' = pendingBatch h \<and> has_logger h' = has_logger h \<and> conn_step (h_conn h) (h_conn h') \<and>
     (\<forall>j. off j h \<longrightarrow> off j h' \<and> h_timers h' ! j = h_timers h ! j)"

lemma conn_step_refl [simp]: "conn_step c c"
  by (simp add: conn_step_def sub_step_def)

lemma conn_step_trans: "conn_step a b \<Longrightarrow> conn_step b c \<Longrightarrow> conn_step a c"
  by (auto simp: conn_step_def sub_step_def)

lemma evolves_refl [simp]: "evolves h h"
  by (simp add: evolves_def)

lemma evolves_trans: "evolves a b \<Longrightarrow> evolves b c \<Longrightarrow> evolves a c"
  by (auto simp: evolves_def intro: conn_step_trans)

lemma evolves_conn: "conn_step (h_conn h) c \<Longrightarrow> evolves h (h\<lparr>h_conn := c\<rparr>)"
  by (simp add: evolves_def off_def)

lemma conn_step_sent: "same_but_queue c c' \<Longrightarrow> conn_step c c'"
  by (simp add: conn_step_def sub_step_def same_but_queueD)

lemma evolves_sent: "same_but_queue (h_conn h) c \<Longrightarrow> evolves h (h\<lparr>h_conn := c\<rparr>)"
  by (simp add: evolves_conn conn_step_sent)

lemma evolves_send_logged:
  assumes "send_logged r err h = Ret (e, h')" and "\<And>x c. r = Ret (x, c) \<Longrightarrow> same_but_queue (h_conn h) c"
  shows "evolves h h'"
  using assms by (auto simp: send_logged_def evolves_sent split: outcome.splits)

lemma evolves_send_returned:
  assumes "send_returned r h = Ret (e, h')" and "\<And>x c. r = Ret (x, c) \<Longrightarrow> same_but_queue (h_conn h) c"
  shows "evolves h h'"
  using assms by (auto simp: send_returned_def evolves_sent split: outcome.splits)

lemma SendPong_same: "SendPong pb now ts sq c = Ret (e, c') \<Longrightarrow> same_but_queue c c'"
  by (simp add: SendPong_def SendMessage_same)

lemma SendSubscriptionConfirmed_same: "SendSubscriptionConfirmed pb now c = Ret (e, c') \<Longrightarrow> same_but_queue c c'"
  by (simp add: SendSubscriptionConfirmed_def SendMessage_same)

lemmas sends_same = SendPong_same SendSubscriptionConfirmed_same SendErrorWithDetails_same SendError_same SendErrorCode_same

lemma logged_Ret [simp]: "logged h r = Ret x \<longleftrightarrow> has_logger h \<and> r = Ret x"
  by (simp add: logged_def)

lemma evolves_handleHeartbeat: "handleHeartbeat pb now f h = Ret (e, h') \<Longrightarrow> evolves h h'"
proof -
  assume a: "handleHeartbeat pb now f h = Ret (e, h')"
  have pong: "evolves h h'" if "send_returned (SendPong pb nw ts sq (h_conn h)) k = Ret (e, h')" "evolves h k" "h_conn k = h_conn h" for nw ts sq k
    using evolves_trans [OF that(2) evolves_send_returned [OF that(1)]] that(3) SendPong_same by simp
  have beat: "evolves h (h\<lparr>lastHeartbeat := t\<rparr>)" for t
    by (simp add: evolves_def off_def)
  have reset: "evolves h (h\<lparr>lastHeartbeat := t, h_timers := set_timer w i (h_timers h)\<rparr>)" if "heartbeatTimer h = Some i" for t w i
    using that by (auto simp: evolves_def off_def)
  from a show ?thesis
    by (auto simp: handleHeartbeat_def Let_def split: sum.splits option.splits if_splits intro: beat reset elim!: pong)
qed

lemma evolves_subscribe:
  assumes "same_but_queue ((h_conn h)\<lparr>conn_sub := Some sub\<rparr>) (h_conn h')" "conn_sub (h_conn h) = None" "mode_ok (sub_mode sub)"
    and "ts = (case subscriptionTimer h of None \<Rightarrow> h_timers h | Some i \<Rightarrow> set_timer None i (h_timers h))"
    and "h_timers h' = new_timer k t ts" "subscriptionTimer h' = Some (length ts)"
    and "pendingBatch h' = pendingBatch h" "heartbeatTimer h' = heartbeatTimer h" "batchTimer h' = batchTimer h"
    and "has_logger h' = has_logger h"
  shows "evolves h h'"
  using assms(2-) same_but_queueD(1,3,11) [OF assms(1)]
  by (auto simp: evolves_def conn_step_def sub_step_def off_def split: option.splits)

lemma evolves_handleSubscribe:
  assumes "handleSubscribe pb fe now f h = Ret (e, h')"
  shows "evolves h h'"
proof -
  have failed: "evolves h h'" if "send_logged (SendErrorWithDetails pb nw code m d (h_conn h)) x h = Ret (e, h')" for nw code m d x
    using that by (rule evolves_send_logged) (rule SendErrorWithDetails_same)
  have again: "evolves h h'" if "send_logged (SendErrorCode pb nw code (h_conn h)) x h = Ret (e, h')" for nw code x
    using that by (rule evolves_send_logged) (rule SendErrorCode_same)
  show ?thesis
  proof (cases "unmarshal_Subscribe pb (Payload f)")
    case (Inl err)
    then show ?thesis using assms by (auto simp: handleSubscribe_def intro: failed)
  next
    case (Inr sub)
    show ?thesis
    proof (cases "ValidateSubscribeRequest (now 0) (Some sub)")
      case (Some err)
      then show ?thesis using assms Inr by (auto simp: handleSubscribe_def intro: failed)
    next
      case None
      show ?thesis
      proof (cases "(sub_Mode sub \<noteq> SUBSCRIPTION_MODE_SECOND \<and> sub_Mode sub \<noteq> SUBSCRIPTION_MODE_MINUTE) \<or> conn_sub (h_conn h) \<noteq> None")
        case True
        then show ?thesis using assms Inr None
          by (auto simp: handleSubscribe_def GetSubscription_def split: if_splits intro: failed again)
      next
        case False
        then have m: "mode_ok (sub_mode (NewSubscription (now 1) (sub_Mode sub)))" and n: "conn_sub (h_conn h) = None"
          by (auto simp: mode_ok_def pb_modes NewSubscription_def)
        show ?thesis
          using assms Inr None False n SendSubscriptionConfirmed_same
          by (auto simp: handleSubscribe_def GetSubscription_def SetSubscription_def Let_def
              split: outcome.splits option.splits prod.splits intro!: evolves_subscribe [OF _ n m refl])
      qed
    qed
  qed
qed

lemma evolves_processFrame: "processFrame pb fe now f h = Ret (e, h') \<Longrightarrow> evolves h h'"
  by (auto simp: processFrame_def split: option.splits if_splits
      intro: evolves_handleHeartbeat evolves_handleSubscribe)

lemma evolves_read_failed: "read_failed pb fe now err h = Ret (e, h') \<Longrightarrow> evolves h h'"
  by (auto simp: read_failed_def split: if_splits elim!: evolves_send_logged intro: SendError_same)

lemma evolves_server: "evolves h (h\<lparr>h_server := x\<rparr>)"
  by (simp add: evolves_def off_def)

lemma evolves_handle_frame:
  assumes "handle_frame pb fe now f h = Ret (r, h')"
  shows "evolves h h'"
proof (cases "\<not> h_authenticated h \<and> Type f \<noteq> MessageTypeAuth")
  case True
  then show ?thesis using assms
    by (auto simp: handle_frame_def split: outcome.splits prod.splits option.splits intro: evolves_sent dest: SendError_same)
next
  case False
  then obtain e k where p: "processFrame pb fe now f h = Ret (e, k)"
    using assms by (auto simp: handle_frame_def split: outcome.splits)
  have k: "evolves h k" by (rule evolves_processFrame [OF p])
  have sent: "evolves h (k\<lparr>h_conn := c\<rparr>)" if "same_but_queue (h_conn k) c" for c
    using k evolves_sent [OF that] by (rule evolves_trans)
  have counted: "evolves h (k\<lparr>h_conn := c, h_server := x\<rparr>)" if "same_but_queue (h_conn k) c" for c x
    using sent [OF that] evolves_server by (rule evolves_trans)
  from False assms p k show ?thesis
    by (auto simp: handle_frame_def split: outcome.splits prod.splits option.splits if_splits
        intro!: sent counted dest!: SendError_same SendErrorCode_same)
qed

lemma ReadFrame_conn_parts:
  "Conn_ReadFrame now c = (r, c') \<Longrightarrow> conn_step c c'"
  by (auto simp: Conn_ReadFrame_def conn_step_def sub_step_def split: if_splits outcome.splits sum.splits prod.splits)

lemma evolves_read_and_handle:
  assumes "read_and_handle pb fe now h = Ret (r, h')"
  shows "evolves h h'"
proof -
  obtain cfg x c where c: "Conn_ReadFrame (\<lambda>k. now (k + 1)) (SetReadDeadline (now 0 + ReadTimeout cfg) (h_conn h)) = (x, c)"
      "h_config h = Some cfg"
    using assms by (cases "h_config h") (auto simp: read_and_handle_def split: prod.splits)
  have h: "evolves h (h\<lparr>h_conn := c\<rparr>)"
    using ReadFrame_conn_parts [OF c(1)] by (intro evolves_conn) (simp add: SetReadDeadline_def conn_step_def sub_step_def)
  show ?thesis
    using assms c h
    by (auto simp: read_and_handle_def split: outcome.splits sum.splits prod.splits
        intro: evolves_trans [OF h evolves_read_failed] evolves_trans [OF h evolves_handle_frame])
qed

lemma write_item_conn_parts: "write_item now item c = (e, go, c') \<Longrightarrow> conn_step c c'"
  by (auto simp: write_item_def add_queue_len_def SetWriteDeadline_def conn_step_def sub_step_def Let_def split: if_splits prod.splits)

lemma drain_conn_parts:
  assumes "drain now k c = (b, c')"
  shows "conn_step c c'"
proof (rule drain_keeps [OF _ _ assms, where P = "conn_step c"])
  fix k' d item q e go d'
  assume d: "conn_step c d" and q: "recv (writeQueue d) = Some (Some item, q)"
    and w: "write_item (now k') item (d\<lparr>writeQueue := q\<rparr>) = (e, go, d')"
  have "conn_step d (d\<lparr>writeQueue := q\<rparr>)"
    using q by (auto simp: conn_step_def sub_step_def recv_def split: list.splits if_splits)
  then show "conn_step c d'" using d write_item_conn_parts [OF w] by (blast intro: conn_step_trans)
qed simp

lemma Close_conn_parts:
  assumes "Close now c = Ret c'"
  shows "conn_step c c' \<and> conn_closed c'"
proof (cases "conn_closed c")
  case False
  let ?q = "c\<lparr>conn_closed := True, writeQueue := (writeQueue c)\<lparr>chan_closed := True\<rparr>\<rparr>"
  obtain b d where d: "drain now 0 ?q = (b, d)" by fastforce
  then have "c' = close_net d"
    using assms False by (simp add: Close_def close_flag_def close_queue_def close_chan_def split: if_splits)
  then show ?thesis using drain_conn_parts [OF d] by (auto simp: close_net_def conn_step_def sub_step_def)
qed (use assms in \<open>simp add: Close_def close_flag_def\<close>)

lemma evolves_generate: "generate now r v g h = Ret h' \<Longrightarrow> evolves h h'"
  by (auto simp: generate_def Let_def evolves_def off_def split: prod.splits option.splits outcome.splits bool.splits)

lemma evolves_stop_batch_timer: "evolves h (stop_batch_timer h)"
  by (auto simp: stop_batch_timer_def evolves_def off_def split: option.splits)

section \<open>Sessions\<close>

text \<open>
  \<open>timer_free j s\<close>: no variable of the session holds the timer \<open>j\<close> (the two deferred calls of \<open>Handle\<close> included).
  \<open>sess_evolves\<close> is \<open>evolves\<close> without the pending batch.
\<close>

definition timer_free :: "nat \<Rightarrow> session_state \<Rightarrow> bool" where
  "timer_free j s \<longleftrightarrow> off j (ss_h s) \<and> ss_hb s \<noteq> j \<and> ss_bt s \<noteq> j"

definition sess_evolves :: "session_state \<Rightarrow> session_state \<Rightarrow> bool" where
  "sess_evolves s s' \<longleftrightarrow> conn_step (h_conn (ss_h s)) (h_conn (ss_h s')) \<and> has_logger (ss_h s') = has_logger (ss_h s) \<and>
     (\<forall>j. timer_free j s \<longrightarrow> timer_free j s' \<and> h_timers (ss_h s') ! j = h_timers (ss_h s) ! j)"

lemma sess_evolves_refl [simp]: "sess_evolves s s"
  by (simp add: sess_evolves_def)

lemma sess_evolvesI:
  "evolves (ss_h s) (ss_h s') \<Longrightarrow> ss_hb s' = ss_hb s \<Longrightarrow> ss_bt s' = ss_bt s \<Longrightarrow> sess_evolves s s'"
  by (auto simp: sess_evolves_def evolves_def timer_free_def)

lemma sess_evolves_trans: "sess_evolves a b \<Longrightarrow> sess_evolves b c \<Longrightarrow> sess_evolves a c"
  by (auto simp: sess_evolves_def intro: conn_step_trans)

lemma sess_evolves_return: "sess_evolves s (Handle_return r s)"
  by (auto simp: sess_evolves_def Handle_return_def timer_free_def off_def)

lemma pending_return [simp]: "pendingBatch (ss_h (Handle_return r s)) = pendingBatch (ss_h s)"
  by (simp add: Handle_return_def)

lemma Handle_iter_evolves:
  assumes "Handle_iter pb fe now c s = Ret s'"
  shows "sess_evolves s s' \<and> pendingBatch (ss_h s') = pendingBatch (ss_h s)"
proof (cases c)
  case HeartbeatC
  then obtain e d where d: "SendError pb now ERROR_CODE_HEARTBEAT_TIMEOUT ''heartbeat timeout'' (h_conn (ss_h s)) = Ret (e, d)"
      "s' = Handle_return (Some (Errorf ''heartbeat timeout'')) (s\<lparr>ss_h := (ss_h s)\<lparr>h_conn := d\<rparr>\<rparr>)"
    using assms by (auto split: outcome.splits prod.splits)
  have "sess_evolves s (s\<lparr>ss_h := (ss_h s)\<lparr>h_conn := d\<rparr>\<rparr>)"
    using evolves_sent [OF SendError_same [OF d(1)]] by (intro sess_evolvesI) simp_all
  from sess_evolves_trans [OF this sess_evolves_return] show ?thesis by (simp add: d(2))
next
  case ErrC
  have "sess_evolves s (s\<lparr>ss_err := x\<rparr>)" for x by (rule sess_evolvesI) simp_all
  from sess_evolves_trans [OF this sess_evolves_return] show ?thesis
    using assms ErrC by (auto split: list.splits)
next
  case DefaultC
  then obtain r h where h: "read_and_handle pb fe now (ss_h s) = Ret (r, h)"
    using assms by (cases "read_and_handle pb fe now (ss_h s)") (auto simp: finish_iter_def)
  have e: "sess_evolves s (s\<lparr>ss_h := h\<rparr>)" "pendingBatch h = pendingBatch (ss_h s)"
    using evolves_read_and_handle [OF h] by (auto intro!: sess_evolvesI simp: evolves_def)
  from sess_evolves_trans [OF e(1) sess_evolves_return] e show ?thesis
    using assms DefaultC h by (auto simp: finish_iter_def split: option.splits)
qed (use assms in \<open>auto intro: sess_evolves_return\<close>)

lemma flush_send_evolves:
  assumes "flush_send pb now s = Ret (b, s')"
  shows "sess_evolves s s' \<and> pendingBatch (ss_h s') = pendingBatch (ss_h s) \<and> (b \<longrightarrow> pendingBatch (ss_h s) \<noteq> [])"
proof -
  have "conn_step d c" if "SendDataBatch pb now ts d = Ret (e, c)" for ts e c d
    using that by (auto simp: SendDataBatch_def Let_def conn_step_def sub_step_def split: if_splits
        dest!: SendMessage_same dest: same_but_queueD(1,3,11))
  moreover have p: "ss_h (post_error e s) = ss_h s" "ss_hb (post_error e s) = ss_hb s" "ss_bt (post_error e s) = ss_bt s" for e s
    by (auto simp: post_error_def split: outcome.splits prod.splits)
  ultimately show ?thesis
    using assms by (auto simp: flush_send_def split: if_splits outcome.splits prod.splits option.splits
        intro!: sess_evolvesI evolves_conn)
qed

section \<open>Invariants\<close>

text \<open>The subscription, if any, has a known mode and is the one all pending ticks were filtered by.\<close>

definition matches :: "Connection \<Rightarrow> Tick list \<Rightarrow> bool" where
  "matches c ticks \<longleftrightarrow> list_all (\<lambda>t. \<exists>sub. conn_sub c = Some sub \<and> tick_Mode t = sub_mode sub) ticks"

lemma matches_filter: "matches (h_conn h) (filterTicksBySubscription ticks h)"
  by (cases "conn_sub (h_conn h)") (auto simp: matches_def filterTicksBySubscription_def GetSubscription_def list_all_iff)

lemma matches_sub_step: "sub_step c c' \<Longrightarrow> matches c ticks \<Longrightarrow> matches c' ticks"
  by (auto simp: sub_step_def matches_def list_all_iff)

lemma matches_mode:
  "matches c b \<Longrightarrow> b \<noteq> [] \<Longrightarrow> \<exists>sub. conn_sub c = Some sub \<and> list_all (\<lambda>t. tick_Mode t = sub_mode sub) b"
  by (cases b; cases "conn_sub c") (auto simp: matches_def)

lemma matches_append [simp]: "matches c (xs @ ys) \<longleftrightarrow> matches c xs \<and> matches c ys"
  by (simp add: matches_def)

lemma matches_Nil [simp]: "matches c []"
  by (simp add: matches_def)

definition mode_inv :: "sess \<Rightarrow> bool" where
  "mode_inv s \<longleftrightarrow> (\<forall>sub. conn_sub (se_conn s) = Some sub \<longrightarrow> mode_ok (sub_mode sub)) \<and>
     matches (se_conn s) (pendingBatch (se_h s)) \<and> list_all (\<lambda>b. b \<noteq> [] \<and> matches (se_conn s) b) (se_sent s)"

text \<open>Steps in terms of \<open>sess_evolves\<close>, the pending batch and the history.\<close>

lemma take_ticks_evolves:
  assumes "take_ticks now cfg ticks s = (new, full, s')"
  shows "sess_evolves s s' \<and> pendingBatch (ss_h s') = pendingBatch (ss_h s) @ new \<and> matches (h_conn (ss_h s)) new \<and>
    h_conn (ss_h s') = h_conn (ss_h s)"
proof -
  have "off j (stop_batch_timer (arm_batch_timer t (h\<lparr>pendingBatch := p\<rparr>))) \<and>
      h_timers (stop_batch_timer (arm_batch_timer t (h\<lparr>pendingBatch := p\<rparr>))) ! j = h_timers h ! j \<and>
      off j (arm_batch_timer t (h\<lparr>pendingBatch := p\<rparr>)) \<and>
      h_timers (arm_batch_timer t (h\<lparr>pendingBatch := p\<rparr>)) ! j = h_timers h ! j" if "off j h" for j t h p
    using that by (auto simp: off_def stop_batch_timer_def arm_batch_timer_def Let_def split: option.splits)
  moreover have "h_conn (stop_batch_timer h) = h_conn h" "pendingBatch (stop_batch_timer h) = pendingBatch h"
      "h_conn (arm_batch_timer t h) = h_conn h" "pendingBatch (arm_batch_timer t h) = pendingBatch h"
      "has_logger (stop_batch_timer h) = has_logger h" "has_logger (arm_batch_timer t h) = has_logger h" for t h
    by (simp_all add: stop_batch_timer_def arm_batch_timer_def Let_def split: option.splits)
  ultimately show ?thesis
    using assms matches_filter by (auto simp: take_ticks_def Let_def sess_evolves_def timer_free_def split: if_splits)
qed

lemma take_late_evolves:
  assumes "take_late ticks s = (new, s')"
  shows "sess_evolves s s' \<and> pendingBatch (ss_h s') = pendingBatch (ss_h s) @ new \<and> matches (h_conn (ss_h s)) new \<and>
    h_conn (ss_h s') = h_conn (ss_h s)"
  using assms matches_filter
  by (auto simp: take_late_def Let_def sess_evolves_def timer_free_def off_def split: if_splits)

lemma pop_data_evolves:
  assumes "pop_data s = (ticks, s')"
  shows "sess_evolves s s' \<and> pendingBatch (ss_h s') = pendingBatch (ss_h s) \<and> h_conn (ss_h s') = h_conn (ss_h s)"
  using assms by (auto simp: pop_data_def sess_evolves_def timer_free_def off_def split: option.splits prod.splits)

lemma check_backpressure_evolves [simp]:
  "ss_h (check_backpressure len s) = ss_h s" "ss_hb (check_backpressure len s) = ss_hb s" "ss_bt (check_backpressure len s) = ss_bt s"
  by (auto simp: check_backpressure_def post_error_def Let_def split: outcome.splits prod.splits)

lemma flush_clear_evolves: "sess_evolves s (flush_clear s)" "pendingBatch (ss_h (flush_clear s)) = []"
  "h_conn (ss_h (flush_clear s)) = h_conn (ss_h s)"
  by (simp_all add: flush_clear_def sess_evolves_def timer_free_def off_def)

text \<open>
  \<open>kept_by\<close>: what a step does to the subscription, the closed flag, and a timer that no variable holds: it stays as it is,
  unless it fires.
\<close>

definition kept_by :: "session_state \<Rightarrow> session_state \<Rightarrow> bool" where
  "kept_by s s' \<longleftrightarrow> conn_step (h_conn (ss_h s)) (h_conn (ss_h s')) \<and> has_logger (ss_h s') = has_logger (ss_h s) \<and>
     (\<forall>j. timer_free j s \<longrightarrow> timer_free j s' \<and> tm_kind (h_timers (ss_h s') ! j) = tm_kind (h_timers (ss_h s) ! j) \<and>
        (tm_kind (h_timers (ss_h s) ! j) = RunHeartbeatTimeout \<longrightarrow>
           h_timers (ss_h s') ! j = h_timers (ss_h s) ! j \<or> conn_closed (h_conn (ss_h s'))))"

lemma kept_by_evolves: "sess_evolves s s' \<Longrightarrow> kept_by s s'"
  by (auto simp: sess_evolves_def kept_by_def)

lemma set_timer_nth: "i < length ts \<Longrightarrow> set_timer t i ts ! j = (if i = j then (ts ! j)\<lparr>tm_when := t\<rparr> else ts ! j)"
  by (simp add: set_timer_def)

lemma kept_by_fire:
  assumes "i < length (h_timers (ss_h s))" "tm_kind (h_timers (ss_h s) ! i) \<noteq> RunHeartbeatTimeout"
  shows "kept_by s (s\<lparr>ss_h := (ss_h s)\<lparr>h_timers := set_timer None i (h_timers (ss_h s))\<rparr>\<rparr>)"
  using assms by (auto simp: kept_by_def timer_free_def off_def set_timer_nth)

lemma kept_by_timeout:
  assumes "i < length (h_timers (ss_h s))"
    and "handleHeartbeatTimeout now ((ss_h s)\<lparr>h_timers := set_timer None i (h_timers (ss_h s))\<rparr>) = Ret h"
  shows "kept_by s (s\<lparr>ss_h := h\<rparr>) \<and> conn_closed (h_conn h) \<and> pendingBatch h = pendingBatch (ss_h s)"
proof -
  obtain c where c: "Close now (h_conn (ss_h s)) = Ret c"
      "h = (ss_h s)\<lparr>h_timers := set_timer None i (h_timers (ss_h s)), h_cancelled := True, h_conn := c\<rparr>"
    using assms(2) by (auto simp: handleHeartbeatTimeout_def split: outcome.splits)
  show ?thesis
    using Close_conn_parts [OF c(1)] assms(1) c(2)
    by (auto simp: kept_by_def timer_free_def off_def set_timer_nth)
qed

lemma kept_by_conn:
  "conn_step (h_conn (ss_h s)) c \<Longrightarrow> kept_by s (s\<lparr>ss_h := (ss_h s)\<lparr>h_conn := c\<rparr>\<rparr>)"
  by (intro kept_by_evolves sess_evolvesI) (simp_all add: evolves_conn)

lemma step_kept:
  assumes "sess_step pb fe cfg s s'"
  shows "kept_by (se_s s) (se_s s')"
  using assms
proof cases
  case (message now t c s'')
  then show ?thesis using Handle_iter_evolves by (auto intro: kept_by_evolves)
next
  case (take_data now t ticks s1 new full s2)
  from sess_evolves_trans [of "se_s s" s1 s2] show ?thesis
    using take_data(1) pop_data_evolves [OF take_data(6)] take_ticks_evolves [OF take_data(7)] by (auto intro: kept_by_evolves)
next
  case (take_default now t ticks s1 new s2)
  from sess_evolves_trans [of "se_s s" s1 s2] show ?thesis
    using take_default(1) pop_data_evolves [OF take_default(6)] take_late_evolves [OF take_default(7)] by (auto intro: kept_by_evolves)
next
  case (timer_c now t)
  then show ?thesis by (auto intro!: kept_by_evolves sess_evolvesI evolves_stop_batch_timer)
next
  case (loop_flush now t ok s1)
  then show ?thesis using flush_send_evolves [OF loop_flush(4)] by (auto intro: kept_by_evolves)
next
  case (timer_flush now t ok s1)
  then show ?thesis using flush_send_evolves [OF timer_flush(4)] by (auto intro: kept_by_evolves)
next
  case (fire_flush now t i)
  then show ?thesis by (auto intro: kept_by_fire)
next
  case (fire_warning now t i)
  then show ?thesis by (auto intro: kept_by_fire)
next
  case (fire_heartbeat now t i h)
  then show ?thesis using kept_by_timeout by auto
next
  case (gen now t g r v h)
  then show ?thesis using evolves_generate by (auto intro!: kept_by_evolves sess_evolvesI)
next
  case (write_loop now t)
  then show ?thesis using drain_conn_parts [of now 0 "se_conn s"]
    by (cases "drain now 0 (se_conn s)") (auto intro!: kept_by_conn)
next
  case (server_close now t c)
  then show ?thesis using Close_conn_parts by (auto intro!: kept_by_conn)
qed (auto intro!: kept_by_evolves sess_evolvesI flush_clear_evolves(1))

text \<open>How a step changes the pending batch and the history.\<close>

lemma step_pending:
  assumes "sess_step pb fe cfg s s'"
  obtains (same) "pendingBatch (se_h s') = pendingBatch (se_h s)" "se_taken s' = se_taken s" "se_sent s' = se_sent s"
      "clearing s' = clearing s" "se_overlap s' = se_overlap s"
    | (taken) new where "pendingBatch (se_h s') = pendingBatch (se_h s) @ new" "matches (se_conn s') new"
      "se_taken s' = se_taken s @ new" "se_sent s' = se_sent s" "clearing s' = clearing s"
      "se_overlap s' = (se_overlap s \<or> clearing s > 0)"
    | (sent) "pendingBatch (se_h s') = pendingBatch (se_h s)" "se_taken s' = se_taken s"
      "se_sent s' = se_sent s @ [pendingBatch (se_h s)]" "clearing s' = clearing s + 1"
      "se_overlap s' = (se_overlap s \<or> clearing s > 0)" "pendingBatch (se_h s) \<noteq> []"
    | (failed) "pendingBatch (se_h s') = pendingBatch (se_h s)" "se_taken s' = se_taken s" "se_sent s' = se_sent s"
      "clearing s' = clearing s" "se_overlap s' = (se_overlap s \<or> clearing s > 0)"
    | (cleared) "pendingBatch (se_h s') = []" "se_taken s' = se_taken s" "se_sent s' = se_sent s"
      "clearing s = clearing s' + 1" "se_overlap s' = se_overlap s"
  using assms
proof cases
  case (message now t c s'')
  then show ?thesis using Handle_iter_evolves [OF message(5)] by (intro same) (simp_all add: clearing_def)
next
  case (take_data now t ticks s1 new full s2)
  show ?thesis
    using take_data(1,4) pop_data_evolves [OF take_data(6)] take_ticks_evolves [OF take_data(7)]
    by (intro taken [of new]) (simp_all add: clearing_def)
next
  case (take_default now t ticks s1 new s2)
  show ?thesis
    using take_default(1,4) pop_data_evolves [OF take_default(6)] take_late_evolves [OF take_default(7)]
    by (intro taken [of new]) (simp_all add: clearing_def)
next
  case (loop_flush now t ok s1)
  note f = flush_send_evolves [OF loop_flush(4)]
  show ?thesis
  proof (cases ok)
    case True
    then show ?thesis using f loop_flush by (intro sent) (simp_all add: clearing_def)
  next
    case False
    then show ?thesis using f loop_flush by (intro failed) (simp_all add: clearing_def)
  qed
next
  case (timer_flush now t ok s1)
  note f = flush_send_evolves [OF timer_flush(4)]
  show ?thesis
  proof (cases ok)
    case True
    then show ?thesis using f timer_flush by (intro sent) (simp_all add: clearing_def)
  next
    case False
    then show ?thesis using f timer_flush by (intro failed) (simp_all add: clearing_def)
  qed
next
  case loop_clear
  then show ?thesis by (intro cleared) (simp_all add: flush_clear_evolves clearing_def)
next
  case timer_clear
  then show ?thesis by (intro cleared) (simp_all add: flush_clear_evolves clearing_def)
next
  case (fire_heartbeat now t i h)
  then show ?thesis using kept_by_timeout [OF fire_heartbeat(3,6)] by (intro same) (simp_all add: clearing_def)
next
  case (gen now t g r v h)
  then show ?thesis using evolves_generate [OF gen(5)] by (intro same) (simp_all add: clearing_def evolves_def)
next
  case (timer_c now t)
  then show ?thesis using evolves_stop_batch_timer [of "se_h s"] by (intro same) (simp_all add: clearing_def evolves_def)
next
  case (idle now t len)
  then show ?thesis by (intro same) (simp_all add: clearing_def)
next
  case stop
  then show ?thesis by (intro same) (simp_all add: clearing_def)
next
  case (fire_flush now t i)
  then show ?thesis by (intro same) (simp_all add: clearing_def)
next
  case (fire_warning now t i)
  then show ?thesis by (intro same) (simp_all add: clearing_def)
next
  case (write_loop now t)
  then show ?thesis by (intro same) (simp_all add: clearing_def)
next
  case (cancel e)
  then show ?thesis by (intro same) (simp_all add: clearing_def)
next
  case (server_close now t c)
  then show ?thesis by (intro same) (simp_all add: clearing_def)
next
  case (pass t)
  then show ?thesis by (intro same) (simp_all add: clearing_def)
qed

definition conserved :: "sess \<Rightarrow> bool" where
  "conserved s \<longleftrightarrow> se_overlap s \<or> clearing s \<le> 1 \<and>
     se_taken s = concat (se_sent s) @ (if clearing s = 0 then pendingBatch (se_h s) else [])"

lemma conserved_step: "conserved s \<Longrightarrow> sess_step pb fe cfg s s' \<Longrightarrow> conserved s'"
  by (erule step_pending) (auto simp: conserved_def split: if_splits)

lemma mode_inv_step:
  assumes "mode_inv s" "sess_step pb fe cfg s s'"
  shows "mode_inv s'"
proof -
  have sub: "sub_step (se_conn s) (se_conn s')" using step_kept [OF assms(2)] by (simp add: kept_by_def conn_step_def)
  have keep: "matches (se_conn s) ts \<Longrightarrow> matches (se_conn s') ts" for ts by (rule matches_sub_step [OF sub])
  have mode: "\<forall>x. conn_sub (se_conn s') = Some x \<longrightarrow> mode_ok (sub_mode x)"
    using assms(1) sub by (auto simp: mode_inv_def sub_step_def)
  have old: "matches (se_conn s') (pendingBatch (se_h s))" "list_all (\<lambda>b. b \<noteq> [] \<and> matches (se_conn s') b) (se_sent s)"
    using assms(1) keep by (auto simp: mode_inv_def list_all_iff)
  from assms(2) show ?thesis
    by (rule step_pending) (use old mode in \<open>auto simp: mode_inv_def\<close>)
qed

interpretation cons: step_invariant "sess_step pb fe cfg" conserved for pb fe cfg
  by unfold_locales (rule conserved_step)

interpretation modes: step_invariant "sess_step pb fe cfg" mode_inv for pb fe cfg
  by unfold_locales (rule mode_inv_step)

text \<open>
  The timer that \<open>NewConnectionHandler\<close> starts has index 1.  \<open>Handle\<close> overwrites the variable that holds it, so
  nothing stops it any more.
\<close>

definition doomed :: "time \<Rightarrow> sess \<Rightarrow> bool" where
  "doomed d s \<longleftrightarrow> has_logger (se_h s) \<and> (chan_closed (writeQueue (se_conn s)) \<longrightarrow> conn_closed (se_conn s)) \<and>
     timer_free 1 (se_s s) \<and> tm_kind (h_timers (se_h s) ! 1) = RunHeartbeatTimeout \<and>
     (conn_closed (se_conn s) \<or> tm_when (h_timers (se_h s) ! 1) = Some d)"

lemma doomed_step: "doomed d s \<Longrightarrow> sess_step pb fe cfg s s' \<Longrightarrow> doomed d s'"
  by (drule step_kept) (auto simp: doomed_def kept_by_def conn_step_def)

interpretation doom: step_invariant "sess_step pb fe cfg" "doomed d" for pb fe cfg d
  by unfold_locales (rule doomed_step)

lemma fixed_step: "conn_sub (se_conn s) = Some sub \<Longrightarrow> sess_step pb fe cfg s s' \<Longrightarrow> conn_sub (se_conn s') = Some sub"
  by (drule step_kept) (auto simp: kept_by_def conn_step_def sub_step_def)

interpretation fixed: step_invariant "sess_step pb fe cfg" "\<lambda>s. conn_sub (se_conn s) = Some sub" for pb fe cfg sub
  by unfold_locales (rule fixed_step)

lemma sess_init_parts:
  assumes "sess_init now conn cfg srv = Ret s"
  shows "se_conn s = conn" "pendingBatch (se_h s) = []" "se_taken s = []" "se_sent s = []" "clearing s = 0" "\<not> se_overlap s"
    "has_logger (se_h s)" "timer_free 1 (se_s s)"
    "h_timers (se_h s) ! 1 = \<lparr> tm_kind = RunHeartbeatTimeout, tm_when = Some (now 2 + HeartbeatTimeout cfg) \<rparr>"
  using assms
  by (auto simp: sess_init_def Handle_start_def NewConnectionHandler_def Let_def clearing_def timer_free_def off_def new_timer_def)

lemma Close_Ret: "(chan_closed (writeQueue c) \<longrightarrow> conn_closed c) \<Longrightarrow> \<exists>c'. Close now c = Ret c'"
  by (auto simp: Close_def close_flag_def close_queue_def close_chan_def)

end
