(* ===== verification/GoIP.thy ===== *)
theory GoIP
  imports GoNet
begin

text \<open>
  The part of Go's \<open>net\<close> package that parses and compares IP addresses and networks.  An \<open>IP\<close> is its bytes, 4 of
  them for an IPv4 and 16 for an IPv6 address or an IPv4 address in IPv6 form.  A parser returns \<open>None\<close> where Go
  returns an error.
\<close>

type_synonym ip = bytes

record IPNet =
  net_IP :: ip
  net_Mask :: bytes

section \<open>IPv4\<close>

fun split_byte :: "char \<Rightarrow> string \<Rightarrow> string list" where
  "split_byte c [] = [[]]"
| "split_byte c (x # xs) = (if x = c then [] # split_byte c xs
     else (case split_byte c xs of [] \<Rightarrow> [[x]] | p # ps \<Rightarrow> (x # p) # ps))"

definition is_digit :: "char \<Rightarrow> bool" where
  "is_digit c \<longleftrightarrow> 48 \<le> (of_char c :: nat) \<and> (of_char c :: nat) \<le> 57"

definition digit_value :: "char \<Rightarrow> nat" where
  "digit_value c = of_char c - 48"

definition decimal :: "string \<Rightarrow> nat" where
  "decimal s = foldl (\<lambda>n c. n * 10 + digit_value c) 0 s"

text \<open>An octet has no leading zero and is at most 255.\<close>

definition parse_octet :: "string \<Rightarrow> u8 option" where
  "parse_octet s = (if s \<noteq> [] \<and> list_all is_digit s \<and> (length s = 1 \<or> hd s \<noteq> CHR ''0'') \<and> decimal s \<le> 255
     then Some (of_nat (decimal s)) else None)"

fun those_octets :: "string list \<Rightarrow> bytes option" where
  "those_octets [] = Some []"
| "those_octets (p # ps) = (case parse_octet p of None \<Rightarrow> None | Some b \<Rightarrow> map_option (\<lambda>bs. b # bs) (those_octets ps))"

definition parse_v4 :: "string \<Rightarrow> bytes option" where
  "parse_v4 s = (let ps = split_byte CHR ''.'' s in if length ps = 4 then those_octets ps else None)"

section \<open>IPv6\<close>

definition hex_value :: "char \<Rightarrow> nat option" where
  "hex_value c = (let n = of_char c in
     if 48 \<le> n \<and> n \<le> 57 then Some (n - 48) else if 97 \<le> n \<and> n \<le> 102 then Some (n - 87)
     else if 65 \<le> n \<and> n \<le> 70 then Some (n - 55) else None)"

definition is_hex :: "char \<Rightarrow> bool" where
  "is_hex c \<longleftrightarrow> hex_value c \<noteq> None"

definition hexadecimal :: "string \<Rightarrow> nat" where
  "hexadecimal s = foldl (\<lambda>n c. n * 16 + the (hex_value c)) 0 s"

definition group_bytes :: "nat \<Rightarrow> bytes" where
  "group_bytes n = [of_nat (n div 256), of_nat n]"

text \<open>
  The loop of \<open>netip.parseIPv6\<close>: \<open>got\<close> are the bytes so far and \<open>ell\<close> is the position of the ellipsis.  The result is
  the unread rest with both.
\<close>

function parse_groups :: "string \<Rightarrow> bytes \<Rightarrow> nat option \<Rightarrow> (string \<times> bytes \<times> nat option) option" where
  "parse_groups s got ell = (if length got \<ge> 16 then Some (s, got, ell) else
     let g = takeWhile is_hex s; r = dropWhile is_hex s in
     if g = [] \<or> length g > 4 then None
     else if r \<noteq> [] \<and> hd r = CHR ''.'' then
       (if ell = None \<and> length got \<noteq> 12 \<or> length got + 4 > 16 then None
        else (case parse_v4 s of None \<Rightarrow> None | Some b \<Rightarrow> Some ([], got @ b, ell)))
     else let got = got @ group_bytes (hexadecimal g) in
       if r = [] then Some ([], got, ell)
       else if hd r \<noteq> CHR '':'' \<or> length r = 1 then None
       else let s = tl r in
         if hd s = CHR '':'' then
           (if ell \<noteq> None then None
            else if tl s = [] then Some ([], got, Some (length got))
            else parse_groups (tl s) got (Some (length got)))
         else parse_groups s got ell)"
  by pat_completeness auto

termination parse_groups
  by (relation "measure (\<lambda>(s, got, ell). 16 - length got)") (auto simp: group_bytes_def)

declare parse_groups.simps [simp del]

definition fill_ellipsis :: "bytes \<Rightarrow> nat option \<Rightarrow> bytes option" where
  "fill_ellipsis got ell = (case ell of
     None \<Rightarrow> if length got < 16 then None else Some got
   | Some e \<Rightarrow> if length got < 16 then Some (take e got @ replicate (16 - length got) 0 @ drop e got) else None)"

text \<open>Addresses with a zone are refused by the callers, so \<open>%\<close> makes the text invalid.\<close>

definition parse_v6 :: "string \<Rightarrow> bytes option" where
  "parse_v6 s =
    (if CHR ''%'' \<in> set s then None
     else let (t, ell) = (if take 2 s = ''::'' then (drop 2 s, Some 0) else (s, None)) in
       if ell = Some 0 \<and> t = [] then Some (replicate 16 0)
       else (case parse_groups t [] ell of
         Some ([], got, ell) \<Rightarrow> fill_ellipsis got ell
       | _ \<Rightarrow> None))"

text \<open>\<open>netip.ParseAddr\<close>: the address in 16-byte form and whether it was written as an IPv4 address.\<close>

definition v4InV6Prefix :: bytes where
  "v4InV6Prefix = replicate 10 0 @ [0xFF, 0xFF]"

definition ParseAddr :: "string \<Rightarrow> (bool \<times> bytes) option" where
  "ParseAddr s = (case find (\<lambda>c. c \<in> set ''.:%'') s of
     Some c \<Rightarrow> if c = CHR ''.'' then map_option (\<lambda>b. (True, v4InV6Prefix @ b)) (parse_v4 s)
       else if c = CHR '':'' then map_option (\<lambda>b. (False, b)) (parse_v6 s) else None
   | None \<Rightarrow> None)"

definition ParseIP :: "string \<Rightarrow> ip option" where
  "ParseIP s = map_option snd (ParseAddr s)"

definition To4 :: "ip \<Rightarrow> ip option" where
  "To4 ip = (if length ip = 4 then Some ip
     else if length ip = 16 \<and> take 12 ip = v4InV6Prefix then Some (drop 12 ip) else None)"

section \<open>Networks\<close>

definition mask_byte :: "nat \<Rightarrow> u8" where
  "mask_byte k = (if k \<ge> 8 then 0xFF else not (of_nat (2 ^ (8 - k) - 1)))"

definition CIDRMask :: "nat \<Rightarrow> nat \<Rightarrow> bytes" where
  "CIDRMask ones bits = map (\<lambda>i. mask_byte (ones - 8 * i)) [0..<bits div 8]"

definition ip_mask :: "bytes \<Rightarrow> ip \<Rightarrow> ip" where
  "ip_mask m ip = map2 and ip m"

text \<open>The length of the prefix: decimal digits, below \<open>0xFFFFFF\<close>.\<close>

definition parse_bits :: "string \<Rightarrow> nat option" where
  "parse_bits s = (if s \<noteq> [] \<and> list_all is_digit s \<and> decimal s < 0xFFFFFF then Some (decimal s) else None)"

definition ParseCIDR :: "string \<Rightarrow> (ip \<times> IPNet) option" where
  "ParseCIDR s = (case index_byte CHR ''/'' s of
     None \<Rightarrow> None
   | Some i \<Rightarrow> (case (ParseAddr (take i s), parse_bits (drop (i + 1) s)) of
       (Some (is4, a), Some n) \<Rightarrow>
         (let bits = (if is4 then 32 else 128) in
          if n > bits then None
          else let m = CIDRMask n bits in
            Some (a, \<lparr> net_IP = ip_mask m (if is4 then drop 12 a else a), net_Mask = m \<rparr>))
     | _ \<Rightarrow> None))"

definition networkNumberAndMask :: "IPNet \<Rightarrow> ip \<times> bytes" where
  "networkNumberAndMask n =
    (let ip = (case To4 (net_IP n) of Some x \<Rightarrow> x | None \<Rightarrow> net_IP n); m = net_Mask n in
     if length ip \<noteq> 4 \<and> length ip \<noteq> 16 then ([], [])
     else if length m = 4 then (if length ip = 4 then (ip, m) else ([], []))
     else if length m = 16 then (ip, if length ip = 4 then drop 12 m else m)
     else ([], []))"

definition Contains :: "IPNet \<Rightarrow> ip \<Rightarrow> bool" where
  "Contains n ip =
    (let (nn, m) = networkNumberAndMask n; ip = (case To4 ip of Some x \<Rightarrow> x | None \<Rightarrow> ip) in
     length ip = length nn \<and> ip_mask m nn = ip_mask m ip)"

text \<open>\<open>IP.String\<close> on IPv4 addresses.\<close>

definition v4_String :: "ip \<Rightarrow> string" where
  "v4_String ip = show_nat (unat (ip ! 0)) @ ''.'' @ show_nat (unat (ip ! 1)) @ ''.'' @
     show_nat (unat (ip ! 2)) @ ''.'' @ show_nat (unat (ip ! 3))"

text \<open>
  \<open>IP.String\<close> on the other addresses: eight hexadecimal groups, with the first longest run of at least two zero groups
  written as \<open>::\<close>.
\<close>

definition hex_digit :: "nat \<Rightarrow> char" where
  "hex_digit d = char_of (if d < 10 then 48 + d else 87 + d)"

fun show_hex :: "nat \<Rightarrow> string" where
  "show_hex n = (if n < 16 then [hex_digit n] else show_hex (n div 16) @ [hex_digit (n mod 16)])"

declare show_hex.simps [simp del]

fun groups :: "bytes \<Rightarrow> nat list" where
  "groups (a # b # bs) = (unat a * 256 + unat b) # groups bs"
| "groups _ = []"

definition zeros_at :: "nat list \<Rightarrow> nat \<Rightarrow> nat" where
  "zeros_at gs i = length (takeWhile (\<lambda>g. g = 0) (drop i gs))"

text \<open>The run as its start and end; \<open>best\<close> is the one found so far.\<close>

fun zero_run :: "nat list \<Rightarrow> nat list \<Rightarrow> nat \<times> nat \<Rightarrow> nat \<times> nat" where
  "zero_run gs [] best = best"
| "zero_run gs (i # is) best = (let l = zeros_at gs i in
     zero_run gs is (if l \<ge> 2 \<and> l > snd best - fst best then (i, i + l) else best))"

fun join_groups :: "nat list \<Rightarrow> string" where
  "join_groups [] = []"
| "join_groups [g] = show_hex g"
| "join_groups (g # gs) = show_hex g @ '':'' @ join_groups gs"

definition v6_String :: "ip \<Rightarrow> string" where
  "v6_String ip = (let gs = groups ip; (a, b) = zero_run gs [0..<8] (255, 255) in
     if a = 255 then join_groups gs else join_groups (take a gs) @ ''::'' @ join_groups (drop b gs))"

section \<open>Reading back what \<open>String\<close> prints\<close>

lemma hex_value_hex_digit [simp]: "d < 16 \<Longrightarrow> hex_value (hex_digit d) = Some d"
  by (auto simp: hex_value_def hex_digit_def Let_def)

lemma is_hex_hex_digit [simp]: "d < 16 \<Longrightarrow> is_hex (hex_digit d)"
  by (simp add: is_hex_def)

lemma show_hex_hex: "list_all is_hex (show_hex n)"
  by (induction n rule: show_hex.induct) (subst show_hex.simps, simp)

lemma show_hex_nonempty [simp]: "show_hex n \<noteq> []"
  by (subst show_hex.simps) simp

lemma hexadecimal_snoc: "hexadecimal (s @ [c]) = hexadecimal s * 16 + the (hex_value c)"
  by (simp add: hexadecimal_def)

lemma hexadecimal_show_hex [simp]: "hexadecimal (show_hex n) = n"
proof (induction n rule: show_hex.induct)
  case (1 n)
  then show ?case
    by (subst show_hex.simps) (simp add: hexadecimal_snoc, simp add: hexadecimal_def)
qed

lemma length_show_hex: "n < 16 ^ k \<Longrightarrow> 0 < k \<Longrightarrow> length (show_hex n) \<le> k"
proof (induction k arbitrary: n)
  case (Suc k)
  show ?case
  proof (cases "n < 16")
    case False
    then have "0 < k" using Suc.prems(1) by (cases k) auto
    moreover have "n div 16 < 16 ^ k" using Suc.prems(1) by (simp add: less_mult_imp_div_less mult.commute)
    ultimately show ?thesis using Suc.IH False by (subst show_hex.simps) simp
  qed (subst show_hex.simps, simp)
qed simp

lemma byte_less: "unat (b :: u8) < 256"
  using unsigned_less [of b, where ?'a = nat] by simp

lemma group_bytes_groups: "even (length bs) \<Longrightarrow> concat (map group_bytes (groups bs)) = bs"
proof (induction bs rule: groups.induct)
  case (1 a b bs)
  have "(unat a * 256 + unat b) div 256 = unat a" using byte_less [of b] by simp
  moreover have "of_nat (unat a * 256 + unat b) = b"
  proof -
    have z: "(256 :: u8) = 0" by code_simp
    show ?thesis by (simp only: of_nat_add of_nat_mult of_nat_numeral z mult_zero_right add_0_left) simp
  qed
  ultimately show ?case using 1 by (simp add: group_bytes_def)
qed simp_all

lemma groups_bound: "g \<in> set (groups bs) \<Longrightarrow> g < 65536"
proof (induction bs rule: groups.induct)
  case (1 a b bs)
  have "unat a * 256 + unat b < 65536" using byte_less [of a] byte_less [of b] by simp
  then show ?case using 1 by auto
qed simp_all

lemma length_groups: "length (groups bs) = length bs div 2"
  by (induction bs rule: groups.induct) auto

lemma takeWhile_hex:
  "r = [] \<or> \<not> is_hex (hd r) \<Longrightarrow> takeWhile is_hex (show_hex g @ r) = show_hex g \<and> dropWhile is_hex (show_hex g @ r) = r"
proof -
  have h: "\<And>x. x \<in> set (show_hex g) \<Longrightarrow> is_hex x" using show_hex_hex by (simp add: list_all_iff)
  assume "r = [] \<or> \<not> is_hex (hd r)"
  then have "takeWhile is_hex r = []" "dropWhile is_hex r = r" by (cases r; simp)+
  then show ?thesis using h by (simp add: takeWhile_append2 dropWhile_append2)
qed

lemma not_hex_punct [simp]: "\<not> is_hex CHR '':''" "\<not> is_hex CHR ''.''" "\<not> is_hex CHR ''/''" "\<not> is_hex CHR ''%''"
  by (simp_all add: is_hex_def hex_value_def)

lemma parse_groups_step:
  assumes "g < 65536" "length got < 16" "r = [] \<or> hd r = CHR '':''"
  shows "parse_groups (show_hex g @ r) got ell = (let got = got @ group_bytes g in
       if r = [] then Some ([], got, ell) else if length r = 1 then None
       else if hd (tl r) = CHR '':'' then
         (if ell \<noteq> None then None
          else if tl (tl r) = [] then Some ([], got, Some (length got))
          else parse_groups (tl (tl r)) got (Some (length got)))
       else parse_groups (tl r) got ell)"
proof -
  have "length (show_hex g) \<le> 4" using assms(1) by (intro length_show_hex) simp_all
  moreover have "takeWhile is_hex (show_hex g @ r) = show_hex g" "dropWhile is_hex (show_hex g @ r) = r"
    using takeWhile_hex assms(3) by (metis not_hex_punct(1))+
  ultimately show ?thesis
    using assms(2,3) by (subst parse_groups.simps) (auto simp: Let_def)
qed

lemma hd_show_hex: "hd (show_hex g @ r) \<noteq> CHR '':''"
  using show_hex_hex [of g] by (cases "show_hex g") (auto simp: show_hex_nonempty)

lemma hd_join: "gs \<noteq> [] \<Longrightarrow> join_groups gs \<noteq> [] \<and> hd (join_groups gs @ r) \<noteq> CHR '':''"
  using hd_show_hex by (cases gs rule: join_groups.cases) auto

lemma parse_join:
  "gs \<noteq> [] \<Longrightarrow> list_all (\<lambda>g. g < 65536) gs \<Longrightarrow> length got + 2 * length gs \<le> 16 \<Longrightarrow>
     parse_groups (join_groups gs) got ell = Some ([], got @ concat (map group_bytes gs), ell)"
proof (induction gs arbitrary: got rule: join_groups.induct)
  case (2 g)
  then show ?case using parse_groups_step [of g got "[]"] by simp
next
  case (3 g g' gs)
  have "length (got @ group_bytes g) + 2 * length (g' # gs) \<le> 16" using "3.prems" by (simp add: group_bytes_def)
  note ih = "3.IH" [OF _ _ this]
  have "join_groups (g' # gs) \<noteq> []" "hd (join_groups (g' # gs)) \<noteq> CHR '':''" using hd_join [of "g' # gs" "[]"] by simp_all
  then show ?case
    using "3.prems" ih parse_groups_step [of g got "'':'' @ join_groups (g' # gs)"] by simp
qed simp

lemma parse_join_ellipsis:
  "gs \<noteq> [] \<Longrightarrow> list_all (\<lambda>g. g < 65536) gs \<Longrightarrow> length got + 2 * length gs \<le> 16 \<Longrightarrow>
     parse_groups (join_groups gs @ ''::'' @ r) got None =
       (let got = got @ concat (map group_bytes gs) in
        if r = [] then Some ([], got, Some (length got)) else parse_groups r got (Some (length got)))"
proof (induction gs arbitrary: got rule: join_groups.induct)
  case (2 g)
  then show ?case using parse_groups_step [of g got "''::'' @ r"] by (simp add: Let_def)
next
  case (3 g g' gs)
  have "length (got @ group_bytes g) + 2 * length (g' # gs) \<le> 16" using "3.prems" by (simp add: group_bytes_def)
  note ih = "3.IH" [OF _ _ this]
  have "join_groups (g' # gs) \<noteq> []" "hd (join_groups (g' # gs) @ ''::'' @ r) \<noteq> CHR '':''"
    using hd_join [of "g' # gs" "''::'' @ r"] by blast+
  then show ?case
    using "3.prems" ih parse_groups_step [of g got "'':'' @ join_groups (g' # gs) @ ''::'' @ r"] by (simp add: Let_def)
qed simp

text \<open>The run of zeros that \<open>String\<close> leaves out.\<close>

lemma zero_run_sound:
  assumes "zero_run gs is best = (a, b)" "list_all (\<lambda>i. i < length gs) is"
    and "best = (255, 255) \<or> fst best < length gs \<and> snd best = fst best + zeros_at gs (fst best) \<and> fst best < snd best"
  shows "(a, b) = (255, 255) \<or> a < length gs \<and> b = a + zeros_at gs a \<and> a < b"
  using assms by (induction gs "is" best rule: zero_run.induct) (auto simp: Let_def split: if_splits)

lemma zeros_at_zero: "take (zeros_at gs i) (drop i gs) = replicate (zeros_at gs i) 0"
proof -
  have "takeWhile (\<lambda>g. g = 0) xs = replicate (length (takeWhile (\<lambda>g. g = 0) xs)) 0" for xs :: "nat list"
    by (induction xs) simp_all
  then show ?thesis unfolding zeros_at_def by (metis takeWhile_eq_take)
qed

lemma zeros_at_le: "i < length gs \<Longrightarrow> i + zeros_at gs i \<le> length gs"
  using length_takeWhile_le [of "\<lambda>g. g = 0" "drop i gs"] by (simp add: zeros_at_def)

lemma split_at_run:
  assumes "a < length gs" "b = a + zeros_at gs a"
  shows "gs = take a gs @ replicate (b - a) 0 @ drop b gs"
proof -
  have "drop a gs = take (b - a) (drop a gs) @ drop (b - a) (drop a gs)" by (simp only: append_take_drop_id)
  also have "\<dots> = replicate (b - a) 0 @ drop b gs" using zeros_at_zero [of gs a] assms by (simp add: add.commute)
  finally show ?thesis by (metis append_take_drop_id)
qed

lemma group_bytes_zeros: "concat (map group_bytes (replicate n 0)) = replicate (2 * n) 0"
  by (induction n) (simp_all add: group_bytes_def)

lemma length_group_bytes: "length (concat (map group_bytes gs)) = 2 * length gs"
  by (induction gs) (simp_all add: group_bytes_def)

lemma join_groups_chars: "set (join_groups gs) \<subseteq> {c. is_hex c} \<union> {CHR '':''}"
proof (induction gs rule: join_groups.induct)
  case (2 g)
  then show ?case using show_hex_hex [of g] by (auto simp: list_all_iff)
next
  case (3 g g' gs)
  then show ?case using show_hex_hex [of g] by (auto simp: list_all_iff)
qed simp

lemma v6_String_chars: "c \<in> set (v6_String ip) \<Longrightarrow> is_hex c \<or> c = CHR '':''"
proof -
  have "x \<in> set (join_groups gs) \<Longrightarrow> is_hex x \<or> x = CHR '':''" for x gs using join_groups_chars by blast
  then show "c \<in> set (v6_String ip) \<Longrightarrow> is_hex c \<or> c = CHR '':''"
    by (auto simp: v6_String_def Let_def split: prod.splits if_splits)
qed

lemma parse_v6_String:
  assumes "length ip = 16"
  shows "parse_v6 (v6_String ip) = Some ip"
proof -
  define gs where "gs = groups ip"
  have len: "length gs = 8" using assms by (simp add: gs_def length_groups)
  have bound: "list_all (\<lambda>g. g < 65536) gs" using groups_bound by (auto simp: gs_def list_all_iff)
  have joined: "concat (map group_bytes gs) = ip" using assms group_bytes_groups by (simp add: gs_def)
  obtain a b where run: "zero_run gs [0..<8] (255, 255) = (a, b)" by fastforce
  have ab: "(a, b) = (255, 255) \<or> a < 8 \<and> b = a + zeros_at gs a \<and> a < b"
    using zero_run_sound [OF run] by (simp add: len list_all_iff)
  let ?s = "v6_String ip"
  have no_pct: "CHR ''%'' \<notin> set ?s"
    using v6_String_chars [of "CHR ''%''" ip] not_hex_punct(4) by auto
  show ?thesis
  proof (cases "a = 255")
    case True
    then have s: "?s = join_groups gs" by (simp add: v6_String_def run gs_def [symmetric])
    have "gs \<noteq> []" using len by auto
    then have "take 2 ?s \<noteq> ''::''" using hd_join [of gs "[]"] s by (cases "join_groups gs") auto
    moreover have "parse_groups ?s [] None = Some ([], ip, None)" using parse_join [of gs "[]"] len bound joined s by fastforce
    ultimately show ?thesis using no_pct assms by (simp add: parse_v6_def fill_ellipsis_def)
  next
    case False
    then have b: "a < 8" "b = a + zeros_at gs a" "a < b" "b \<le> 8" using ab zeros_at_le [of a gs] len by auto
    have s: "?s = join_groups (take a gs) @ ''::'' @ join_groups (drop b gs)"
      using False by (simp add: v6_String_def run gs_def [symmetric])
    let ?pre = "concat (map group_bytes (take a gs))" and ?post = "concat (map group_bytes (drop b gs))"
    have "ip = concat (map group_bytes (take a gs @ replicate (b - a) 0 @ drop b gs))"
      using split_at_run [of a gs b] b len joined by simp
    then have ip: "ip = ?pre @ replicate (2 * (b - a)) 0 @ ?post"
      by (simp only: map_append concat_append group_bytes_zeros)
    have lens: "length ?pre = 2 * a" "length ?post = 2 * (8 - b)" using b len by (simp_all add: length_group_bytes)
    have fill: "fill_ellipsis (?pre @ ?post) (Some (2 * a)) = Some ip"
    proof -
      have "2 * a + 2 * (8 - b) < 16" "16 - (2 * a + 2 * (8 - b)) = 2 * (b - a)" using b(1,3,4) by linarith+
      then show ?thesis using lens ip by (simp add: fill_ellipsis_def)
    qed
    have bounds: "list_all (\<lambda>g. g < 65536) (take a gs)" "list_all (\<lambda>g. g < 65536) (drop b gs)"
      using bound set_take_subset [of a gs] set_drop_subset [of b gs] by (auto simp: list_all_iff)
    have post: "b < 8 \<Longrightarrow> parse_groups (join_groups (drop b gs)) ?pre (Some (2 * a)) = Some ([], ?pre @ ?post, Some (2 * a))"
      using parse_join [of "drop b gs" ?pre "Some (2 * a)"] bounds b len lens by simp
    have post_ne: "b < 8 \<Longrightarrow> join_groups (drop b gs) \<noteq> []" using hd_join [of "drop b gs"] len by simp
    show ?thesis
    proof (cases "a = 0")
      case True
      then show ?thesis
        using no_pct s post post_ne fill ip b len by (cases "b < 8") (auto simp: parse_v6_def)
    next
      case pos: False
      then have "take a gs \<noteq> []" using len by auto
      then have hd: "take 2 ?s \<noteq> ''::''"
        using hd_join [of "take a gs" "''::'' @ join_groups (drop b gs)"] s by (cases "join_groups (take a gs)") auto
      have "parse_groups ?s [] None = Some ([], ?pre @ ?post, Some (2 * a))"
        unfolding s using parse_join_ellipsis [OF \<open>take a gs \<noteq> []\<close> bounds(1), of "[]"] post post_ne lens len b
        by (cases "b < 8") (simp_all add: Let_def)
      then show ?thesis using no_pct hd fill by (simp add: parse_v6_def)
    qed
  qed
qed

lemma find_only:
  assumes "c \<in> set s" "P c" and only: "\<And>x. x \<in> set s \<Longrightarrow> P x \<Longrightarrow> x = c"
  shows "find P s = Some c"
proof -
  obtain y where y: "find P s = Some y" using assms(1,2) by (metis find_None_iff option.exhaust)
  then have "y \<in> set s" "P y" by (auto simp: find_Some_iff)
  then show ?thesis using only y by blast
qed

lemma run_or_gap: "(case p of (a, b) \<Rightarrow> if a = n then x else f a b) = x \<or> (\<exists>a b. (case p of (a, b) \<Rightarrow> if a = n then x else f a b) = f a b)"
  by (cases p) auto

lemma v6_String_shape: "v6_String ip = join_groups (groups ip) \<or>
  (\<exists>a b. v6_String ip = join_groups (take a (groups ip)) @ ''::'' @ join_groups (drop b (groups ip)))"
  unfolding v6_String_def Let_def by (rule run_or_gap)

lemma colon_in_join: "2 \<le> length gs \<Longrightarrow> CHR '':'' \<in> set (join_groups gs)"
  by (cases gs rule: join_groups.cases) auto

lemma colon_in_v6_String: "length ip = 16 \<Longrightarrow> CHR '':'' \<in> set (v6_String ip)"
  using v6_String_shape [of ip] colon_in_join [of "groups ip"] by (auto simp: length_groups)

lemma ParseAddr_v6_String: "length ip = 16 \<Longrightarrow> ParseAddr (v6_String ip) = Some (False, ip)"
proof -
  assume l: "length ip = 16"
  have "find (\<lambda>c. c \<in> set ''.:%'') (v6_String ip) = Some CHR '':''"
  proof (rule find_only [OF colon_in_v6_String [OF l]])
    fix x assume "x \<in> set (v6_String ip)" "x \<in> set ''.:%''"
    then show "x = CHR '':''" using v6_String_chars [of x ip] by auto
  qed simp
  then show ?thesis using parse_v6_String [OF l] by (simp add: ParseAddr_def)
qed

lemma is_digit_char [simp]: "d < 10 \<Longrightarrow> is_digit (digit_char d) \<and> digit_value (digit_char d) = d"
  by (simp add: is_digit_def digit_value_def digit_char_def)

lemma decimal_snoc: "decimal (s @ [c]) = decimal s * 10 + digit_value c"
  by (simp add: decimal_def)

lemma show_nat_digits: "list_all is_digit (show_nat n) \<and> show_nat n \<noteq> []"
  by (induction n rule: show_nat.induct) (subst (1 2) show_nat.simps, simp)

lemma decimal_show_nat [simp]: "decimal (show_nat n) = n"
proof (induction n rule: show_nat.induct)
  case (1 n)
  then show ?case by (subst show_nat.simps) (simp add: decimal_snoc, simp add: decimal_def)
qed

lemma show_nat_no_zero: "length (show_nat n) = 1 \<or> hd (show_nat n) \<noteq> CHR ''0''"
proof (induction n rule: show_nat.induct)
  case (1 n)
  show ?case
  proof (cases "n < 10")
    case False
    have "hd (show_nat (n div 10)) \<noteq> CHR ''0''"
    proof (cases "n div 10 < 10")
      case True
      have "0 < n div 10" using False by simp
      then have "digit_value (digit_char (n div 10)) \<noteq> digit_value CHR ''0''"
        using True is_digit_char [of "n div 10"] by (simp add: digit_value_def)
      then have "digit_char (n div 10) \<noteq> CHR ''0''" by metis
      then show ?thesis using True by (subst show_nat.simps) simp
    next
      case big: False
      then have "length (show_nat (n div 10)) \<noteq> 1" using show_nat_digits by (subst show_nat.simps) simp
      then show ?thesis using "1.IH" False by simp
    qed
    then show ?thesis using False show_nat_digits by (subst (2) show_nat.simps) simp
  qed (subst show_nat.simps, simp)
qed

lemma parse_octet_show [simp]: "parse_octet (show_nat (unat b)) = Some b"
  using show_nat_digits [of "unat b"] show_nat_no_zero [of "unat b"] byte_less [of b] by (simp add: parse_octet_def)

lemma split_byte_append: "c \<notin> set p \<Longrightarrow> split_byte c (p @ c # s) = p # split_byte c s"
  by (induction p) auto

lemma split_byte_single: "c \<notin> set p \<Longrightarrow> split_byte c p = [p]"
  by (induction p) auto

lemma no_dot_show_nat: "x \<in> set (show_nat n) \<Longrightarrow> is_digit x"
  using show_nat_digits by (simp add: list_all_iff)

lemma not_digit_punct [simp]: "\<not> is_digit CHR ''.''" "\<not> is_digit CHR '':''" "\<not> is_digit CHR ''/''" "\<not> is_digit CHR ''%''"
  by (simp_all add: is_digit_def)

lemma parse_v4_String:
  assumes "length ip = 4"
  shows "parse_v4 (v4_String ip) = Some ip"
proof -
  obtain a b c d where ip: "ip = [a, b, c, d]" using assms by (auto simp: length_Suc_conv eval_nat_numeral)
  have n: "CHR ''.'' \<notin> set (show_nat k)" for k using no_dot_show_nat not_digit_punct(1) by blast
  have "split_byte CHR ''.'' (v4_String ip) = [show_nat (unat a), show_nat (unat b), show_nat (unat c), show_nat (unat d)]"
    by (simp add: v4_String_def ip split_byte_append n split_byte_single)
  then show ?thesis by (simp add: parse_v4_def ip)
qed

lemma v4_String_chars: "x \<in> set (v4_String ip) \<Longrightarrow> is_digit x \<or> x = CHR ''.''"
  using no_dot_show_nat by (auto simp: v4_String_def)

lemma ParseAddr_v4_String: "length ip = 4 \<Longrightarrow> ParseAddr (v4_String ip) = Some (True, v4InV6Prefix @ ip)"
proof -
  assume l: "length ip = 4"
  have "find (\<lambda>c. c \<in> set ''.:%'') (v4_String ip) = Some CHR ''.''"
  proof (rule find_only)
    fix x assume "x \<in> set (v4_String ip)" "x \<in> set ''.:%''"
    then show "x = CHR ''.''" using v4_String_chars [of x ip] by auto
  qed (simp_all add: v4_String_def)
  then show ?thesis using parse_v4_String [OF l] by (simp add: ParseAddr_def)
qed

end
