(* ===== verification/IpFilter.thy ===== *)
theory IpFilter
  imports GoIP GoStrings
begin

text \<open>
  The address filter of \<open>internal/server/ipfilter.go\<close> and the list splitter of \<open>internal/server/utils.go\<close>.  The lists
  hold \<open>*net.IPNet\<close> pointers, so their entries are optional: the code drops the error of \<open>net.ParseCIDR\<close> for single
  addresses, and calling \<open>Contains\<close> on a nil entry panics.

  The filter is proved to implement its comment: each entry stands for the addresses of its family that begin
  with its first bits.
\<close>

section \<open>Operations\<close>

definition splitAndTrimCSV :: "string \<Rightarrow> string list" where
  "splitAndTrimCSV s = filter (\<lambda>v. v \<noteq> []) (map TrimSpace (split_byte CHR '','' s))"

record IPFilter =
  allow_nets :: "IPNet option list"
  block_nets :: "IPNet option list"

definition normalizeIP :: "ip \<Rightarrow> ip" where
  "normalizeIP ip = (case To4 ip of Some v4 \<Rightarrow> v4 | None \<Rightarrow> ip)"

text \<open>One entry of the list; an entry without text is skipped.\<close>

definition parseCIDR_entry :: "string \<Rightarrow> go_error + IPNet option" where
  "parseCIDR_entry s =
    (if CHR ''/'' \<in> set s then
       (case ParseCIDR s of
          None \<Rightarrow> Inl (Errorf (''invalid CIDR address: '' @ s))
        | Some (ip, n) \<Rightarrow> Inr (Some (case To4 ip of Some v4 \<Rightarrow> n\<lparr> net_IP := v4 \<rparr> | None \<Rightarrow> n)))
     else
       (case ParseIP s of
          None \<Rightarrow> Inl (Errorf (''invalid IP: '' @ s))
        | Some ip \<Rightarrow> (case To4 ip of
             Some v4 \<Rightarrow> Inr (map_option snd (ParseCIDR (v4_String v4 @ ''/32'')))
           | None \<Rightarrow> Inr (map_option snd (ParseCIDR (v6_String ip @ ''/128''))))))"

fun parseCIDRList :: "string list \<Rightarrow> go_error + IPNet option list" where
  "parseCIDRList [] = Inr []"
| "parseCIDRList (raw # items) =
    (let s = TrimSpace raw in
     if s = [] then parseCIDRList items
     else (case parseCIDR_entry s of
       Inl e \<Rightarrow> Inl e
     | Inr n \<Rightarrow> (case parseCIDRList items of Inl e \<Rightarrow> Inl e | Inr ns \<Rightarrow> Inr (n # ns))))"

definition NewIPFilterFromStrings :: "string list \<Rightarrow> string list \<Rightarrow> go_error + IPFilter" where
  "NewIPFilterFromStrings allow block =
    (case parseCIDRList allow of
       Inl e \<Rightarrow> Inl (Wrapf ''invalid allowlist'' e)
     | Inr allowNets \<Rightarrow>
       (case parseCIDRList block of
          Inl e \<Rightarrow> Inl (Wrapf ''invalid blocklist'' e)
        | Inr blockNets \<Rightarrow> Inr \<lparr> allow_nets = allowNets, block_nets = blockNets \<rparr>))"

text \<open>The loops over the lists, which stop at the first match.\<close>

fun any_contains :: "IPNet option list \<Rightarrow> ip \<Rightarrow> bool outcome" where
  "any_contains [] ip = Ret False"
| "any_contains (None # ns) ip = Panic"
| "any_contains (Some n # ns) ip = (if Contains n ip then Ret True else any_contains ns ip)"

definition IPFilter_Allow :: "IPFilter option \<Rightarrow> ip option \<Rightarrow> bool outcome" where
  "IPFilter_Allow f ip = (case f of
     None \<Rightarrow> Ret True
   | Some f \<Rightarrow> (case ip of
       None \<Rightarrow> Ret False
     | Some ip \<Rightarrow>
       (let nip = normalizeIP ip in
        case any_contains (block_nets f) nip of
          Panic \<Rightarrow> Panic
        | Ret True \<Rightarrow> Ret False
        | Ret False \<Rightarrow> if allow_nets f = [] then Ret True else any_contains (allow_nets f) nip)))"

section \<open>What an entry stands for\<close>

text \<open>An address as its bits, the first bit of the network first.\<close>

definition byte_bits :: "u8 \<Rightarrow> bool list" where
  "byte_bits b = map (\<lambda>i. bit b (7 - i)) [0..<8]"

definition addr_bits :: "ip \<Rightarrow> bool list" where
  "addr_bits ip = concat (map byte_bits ip)"

text \<open>
  An entry is an address in its short form with the number of bits that count.  An IPv4 address written in IPv6 form has
  96 bits before it.
\<close>

type_synonym prefix_entry = "ip \<times> nat"

definition covers :: "prefix_entry \<Rightarrow> ip \<Rightarrow> bool" where
  "covers p ip \<longleftrightarrow> length (fst p) = length ip \<and> take (snd p) (addr_bits (fst p)) = take (snd p) (addr_bits ip)"

definition entry_prefix :: "string \<Rightarrow> prefix_entry option" where
  "entry_prefix s = (case index_byte CHR ''/'' s of
     None \<Rightarrow> map_option (\<lambda>ip. (normalizeIP ip, 128)) (ParseIP s)
   | Some i \<Rightarrow> (case (ParseAddr (take i s), parse_bits (drop (i + 1) s)) of
       (Some (is4, a), Some n) \<Rightarrow>
         if n > (if is4 then 32 else 128) then None
         else Some (normalizeIP a, if is4 \<or> To4 a = None then n else n - 96)
     | _ \<Rightarrow> None))"

definition entries :: "string list \<Rightarrow> string list" where
  "entries l = filter (\<lambda>s. s \<noteq> []) (map TrimSpace l)"

definition list_prefixes :: "string list \<Rightarrow> prefix_entry list option" where
  "list_prefixes l = those (map entry_prefix (entries l))"

definition permits :: "prefix_entry list \<Rightarrow> prefix_entry list \<Rightarrow> ip \<Rightarrow> bool" where
  "permits allow block ip \<longleftrightarrow> \<not> (\<exists>p \<in> set block. covers p ip) \<and> (allow = [] \<or> (\<exists>p \<in> set allow. covers p ip))"

section \<open>Masks and prefixes\<close>

lemma length_byte_bits [simp]: "length (byte_bits b) = 8"
  by (simp add: byte_bits_def)

lemma length_addr_bits [simp]: "length (addr_bits ip) = 8 * length ip"
  by (induction ip) (simp_all add: addr_bits_def)

lemma bit_mask_byte: "i < 8 \<Longrightarrow> bit (mask_byte k) i \<longleftrightarrow> 8 \<le> i + k"
proof -
  assume i: "i < 8"
  have "of_nat (2 ^ (8 - k) - 1) = (mask (8 - k) :: u8)" by (simp add: mask_eq_exp_minus_1 of_nat_diff)
  moreover have "(0xFF :: u8) = not (mask (8 - k))" if "8 \<le> k" using that by simp
  ultimately have "mask_byte k = not (mask (8 - k))" by (simp add: mask_byte_def)
  then show ?thesis using i by (auto simp: bit_mask_iff bit_not_iff)
qed

lemma masked_byte: "and x (mask_byte k) = and y (mask_byte k) \<longleftrightarrow> take k (byte_bits x) = take k (byte_bits y)"
proof -
  have "and x (mask_byte k) = and y (mask_byte k) \<longleftrightarrow> (\<forall>i<8. 8 \<le> i + k \<longrightarrow> bit x i = bit y i)"
    by (auto simp: bit_eq_iff bit_and_iff bit_mask_byte)
  also have "\<dots> \<longleftrightarrow> (\<forall>i<8. i < k \<longrightarrow> bit x (7 - i) = bit y (7 - i))" (is "?l \<longleftrightarrow> ?r")
  proof
    assume ?r
    show ?l
    proof (intro allI impI)
      fix i :: nat assume "i < 8" "8 \<le> i + k"
      then have "7 - i < 8" "7 - i < k" "7 - (7 - i) = i" by auto
      then show "bit x i = bit y i" using \<open>?r\<close> by metis
    qed
  qed auto
  also have "\<dots> \<longleftrightarrow> take k (byte_bits x) = take k (byte_bits y)"
    by (auto simp: list_eq_iff_nth_eq byte_bits_def)
  finally show ?thesis .
qed

fun masks :: "nat \<Rightarrow> nat \<Rightarrow> bytes" where
  "masks n 0 = []"
| "masks n (Suc k) = mask_byte n # masks (n - 8) k"

lemma masks_nth: "length (masks n k) = k" "i < k \<Longrightarrow> masks n k ! i = mask_byte (n - 8 * i)"
proof -
  show "length (masks n k) = k" by (induction n k rule: masks.induct) simp_all
  show "i < k \<Longrightarrow> masks n k ! i = mask_byte (n - 8 * i)"
    by (induction n k arbitrary: i rule: masks.induct) (auto simp: nth_Cons split: nat.split)
qed

lemma CIDRMask_masks: "CIDRMask n (8 * k) = masks n k"
  by (rule nth_equalityI) (simp_all add: CIDRMask_def masks_nth)

lemma masked_addr:
  "length a = k \<Longrightarrow> length b = k \<Longrightarrow>
    ip_mask (masks n k) a = ip_mask (masks n k) b \<longleftrightarrow> take n (addr_bits a) = take n (addr_bits b)"
proof (induction n k arbitrary: a b rule: masks.induct)
  case (2 n k)
  obtain x a' y b' where "a = x # a'" "b = y # b'" using 2(2,3) by (cases a; cases b) auto
  then show ?case using 2 masked_byte [of x n y] by (auto simp: ip_mask_def addr_bits_def)
qed (simp add: addr_bits_def)

section \<open>Lengths of parsed addresses\<close>

lemma length_parse_v4: "parse_v4 s = Some b \<Longrightarrow> length b = 4"
proof -
  have "those_octets ps = Some b \<Longrightarrow> length b = length ps" for ps b
    by (induction ps arbitrary: b) (auto split: option.splits)
  then show "parse_v4 s = Some b \<Longrightarrow> length b = 4" by (auto simp: parse_v4_def Let_def split: if_splits)
qed

lemma length_parse_groups:
  "parse_groups s got ell = Some (r, got', ell') \<Longrightarrow> even (length got) \<Longrightarrow> length got \<le> 16 \<Longrightarrow>
    even (length got') \<and> length got' \<le> 16"
proof (induction "16 - length got" arbitrary: s got ell r got' ell' rule: less_induct)
  case less
  have two: "length got + 2 \<le> 16" if "length got < 16" using that less(3) by presburger
  have len: "length (group_bytes g) = 2" for g by (simp add: group_bytes_def)
  have IH: "even (length x) \<and> length x \<le> 16"
    if "parse_groups t (got @ group_bytes g) l = Some (q, x, l')" "length got < 16" for t g l q x l'
    using less(1) [OF _ that(1)] less(3) two [OF that(2)] that(2) by (simp add: len)
  show ?case
    using less(2-4) two IH length_parse_v4 [of s]
    by (subst (asm) parse_groups.simps) (auto simp: Let_def len split: if_splits option.splits)
qed

lemma length_ParseAddr:
  assumes "ParseAddr s = Some (is4, a)"
  shows "length a = 16 \<and> (is4 \<longrightarrow> take 12 a = v4InV6Prefix)"
proof -
  have v6: "length b = 16" if "parse_v6 s = Some b" for b
    using that length_parse_groups
    by (fastforce simp: parse_v6_def fill_ellipsis_def Let_def split: if_splits option.splits list.splits prod.splits)
  have "length v4InV6Prefix = 12" by (simp add: v4InV6Prefix_def)
  then show ?thesis using assms v6 length_parse_v4 [of s]
    by (auto simp: ParseAddr_def split: option.splits if_splits)
qed

section \<open>Entries implement their prefixes\<close>

lemma Contains_prefix:
  assumes "networkNumberAndMask net = (nn, masks n k)" "length nn = k" "length a = k"
    and "ip_mask (masks n k) nn = ip_mask (masks n k) a"
  shows "Contains net ip = covers (a, n) (normalizeIP ip)"
  using assms(2-4) masked_addr [of a k "normalizeIP ip" n]
  by (auto simp: Contains_def assms(1) Let_def covers_def normalizeIP_def)

lemma ip_mask_idem: "length a = length m \<Longrightarrow> ip_mask m (ip_mask m a) = ip_mask m a"
  by (rule nth_equalityI) (simp_all add: ip_mask_def and.assoc)

lemma length_ip_mask [simp]: "length (ip_mask m a) = min (length a) (length m)"
  by (simp add: ip_mask_def)

lemma drop_masks: "drop j (masks n k) = masks (n - 8 * j) (k - j)"
  by (rule nth_equalityI) (simp_all add: masks_nth)

lemma length_masks [simp]: "length (masks n k) = k"
  by (rule masks_nth)

text \<open>Masking an address that is not an IPv4 address in IPv6 form never makes it one.\<close>

lemma To4_masked:
  assumes "length a = 16" "To4 a = None"
  shows "To4 (ip_mask (masks n 16) a) = None"
proof (cases "n \<ge> 96")
  case True
  have "take 12 (ip_mask (masks n 16) a) = take 12 a"
  proof (rule nth_equalityI)
    fix i assume "i < length (take 12 (ip_mask (masks n 16) a))"
    then have "i < 12" by simp
    then have "mask_byte (n - 8 * i) = 0xFF" using True by (simp add: mask_byte_def)
    moreover have "(0xFF :: u8) = - 1" by simp
    ultimately show "take 12 (ip_mask (masks n 16) a) ! i = take 12 a ! i"
      using \<open>i < 12\<close> assms(1) by (simp only: nth_take) (simp add: ip_mask_def masks_nth)
  qed (simp add: assms(1))
  then show ?thesis using assms by (simp add: To4_def split: if_splits)
next
  case False
  then have "\<not> bit (mask_byte (n - 88)) 0" by (simp add: bit_mask_byte)
  then have "\<not> bit (ip_mask (masks n 16) a ! 11) 0"
    using assms(1) by (simp add: ip_mask_def masks_nth bit_and_iff)
  moreover have "bit (v4InV6Prefix ! 11) 0" by (simp add: v4InV6Prefix_def nth_append)
  moreover have "take 12 (ip_mask (masks n 16) a) ! 11 = ip_mask (masks n 16) a ! 11" by simp
  ultimately have "take 12 (ip_mask (masks n 16) a) \<noteq> v4InV6Prefix" by metis
  then show ?thesis using assms(1) by (simp add: To4_def)
qed

lemma To4_short: "length v = 4 \<Longrightarrow> To4 v = Some v"
  by (simp add: To4_def)

lemma To4_length: "To4 a = Some v \<Longrightarrow> length v = 4"
  by (auto simp: To4_def split: if_splits)

lemma network_v4:
  assumes "length v = 4"
  shows "networkNumberAndMask \<lparr> net_IP = v, net_Mask = masks n 4 \<rparr> = (v, masks n 4)"
    "networkNumberAndMask \<lparr> net_IP = v, net_Mask = masks n 16 \<rparr> = (v, masks (n - 96) 4)"
  using assms by (simp_all add: networkNumberAndMask_def To4_short drop_masks Let_def)

lemma network_v6:
  assumes "length a = 16" "To4 a = None"
  shows "networkNumberAndMask \<lparr> net_IP = ip_mask (masks n 16) a, net_Mask = masks n 16 \<rparr>
    = (ip_mask (masks n 16) a, masks n 16)"
  using assms by (simp add: networkNumberAndMask_def To4_masked Let_def)

lemma CIDRMask_sizes: "CIDRMask n 32 = masks n 4" "CIDRMask n 128 = masks n 16"
  using CIDRMask_masks [of n 4] CIDRMask_masks [of n 16] by simp_all

lemma no_slash: "CHR ''/'' \<notin> set (v4_String v)" "CHR ''/'' \<notin> set (v6_String a)"
  using v4_String_chars [of "CHR ''/''" v] v6_String_chars [of "CHR ''/''" a] by auto

lemma ParseCIDR_String:
  assumes "CHR ''/'' \<notin> set t" "ParseAddr t = Some (is4, a)"
  shows "is4 \<Longrightarrow> ParseCIDR (t @ ''/32'') = Some (a, \<lparr> net_IP = ip_mask (masks 32 4) (drop 12 a), net_Mask = masks 32 4 \<rparr>)"
    "\<not> is4 \<Longrightarrow> ParseCIDR (t @ ''/128'') = Some (a, \<lparr> net_IP = ip_mask (masks 128 16) a, net_Mask = masks 128 16 \<rparr>)"
proof -
  have b: "parse_bits ''32'' = Some 32" "parse_bits ''128'' = Some 128"
    by (simp_all add: parse_bits_def decimal_def is_digit_def digit_value_def)
  show "is4 \<Longrightarrow> ParseCIDR (t @ ''/32'') = Some (a, \<lparr> net_IP = ip_mask (masks 32 4) (drop 12 a), net_Mask = masks 32 4 \<rparr>)"
    "\<not> is4 \<Longrightarrow> ParseCIDR (t @ ''/128'') = Some (a, \<lparr> net_IP = ip_mask (masks 128 16) a, net_Mask = masks 128 16 \<rparr>)"
    using assms by (simp_all add: ParseCIDR_def b CIDRMask_sizes Let_def)
qed

lemma entry_v4:
  assumes "length v = 4" "nn = v \<or> nn = ip_mask (masks n 4) v"
  shows "Contains \<lparr> net_IP = nn, net_Mask = masks n 4 \<rparr> ip = covers (v, n) (normalizeIP ip)"
proof (rule Contains_prefix)
  show "networkNumberAndMask \<lparr> net_IP = nn, net_Mask = masks n 4 \<rparr> = (nn, masks n 4)"
    using assms by (intro network_v4) auto
qed (use assms in \<open>auto simp: ip_mask_idem\<close>)

lemma entry_mapped:
  assumes "length v = 4"
  shows "Contains \<lparr> net_IP = v, net_Mask = masks n 16 \<rparr> ip = covers (v, n - 96) (normalizeIP ip)"
  by (rule Contains_prefix) (use assms in \<open>simp_all add: network_v4\<close>)

lemma entry_v6:
  assumes "length a = 16" "To4 a = None"
  shows "Contains \<lparr> net_IP = ip_mask (masks n 16) a, net_Mask = masks n 16 \<rparr> ip = covers (a, n) (normalizeIP ip)"
proof (rule Contains_prefix)
  show "networkNumberAndMask \<lparr> net_IP = ip_mask (masks n 16) a, net_Mask = masks n 16 \<rparr>
    = (ip_mask (masks n 16) a, masks n 16)"
    using assms by (rule network_v6)
qed (use assms in \<open>simp_all add: ip_mask_idem\<close>)

definition stands_for :: "prefix_entry \<Rightarrow> IPNet \<Rightarrow> bool" where
  "stands_for p net \<longleftrightarrow> (\<forall>ip. Contains net ip = covers p (normalizeIP ip))"

text \<open>A single address: the text it is turned into is read back, so the dropped error never occurs.\<close>

lemma single_entry:
  assumes "ParseIP s = Some ip" and that: "CHR ''/'' \<notin> set s"
  shows "\<exists>net. parseCIDR_entry s = Inr (Some net) \<and> stands_for (normalizeIP ip, 128) net"
proof -
  have len: "length ip = 16" using assms length_ParseAddr [of s] by (auto simp: ParseIP_def)
  show ?thesis
  proof (cases "To4 ip")
    case None
    have "ParseCIDR (v6_String ip @ ''/128'') = Some (ip, \<lparr> net_IP = ip_mask (masks 128 16) ip, net_Mask = masks 128 16 \<rparr>)"
      using ParseCIDR_String(2) [OF no_slash(2) ParseAddr_v6_String [OF len]] by simp
    then show ?thesis using assms that None entry_v6 [OF len None]
      by (simp add: parseCIDR_entry_def stands_for_def normalizeIP_def)
  next
    case (Some v)
    have v: "length v = 4" using To4_length [OF Some] .
    have d: "drop 12 (v4InV6Prefix @ v) = v" by (simp add: v4InV6Prefix_def)
    have "ParseCIDR (v4_String v @ ''/32'') =
      Some (v4InV6Prefix @ v, \<lparr> net_IP = ip_mask (masks 32 4) v, net_Mask = masks 32 4 \<rparr>)"
      using ParseCIDR_String(1) [OF no_slash(1) ParseAddr_v4_String [OF v]] unfolding d by simp
    moreover have "covers (v, 32) x = covers (v, 128) x" for x
      using v by (auto simp: covers_def)
    ultimately show ?thesis using assms that Some entry_v4 [OF v, of "ip_mask (masks 32 4) v"]
      by (simp add: parseCIDR_entry_def stands_for_def normalizeIP_def)
  qed
qed

lemma cidr_entry:
  assumes "ParseCIDR s = Some (a, net)" "ParseAddr (take i s) = Some (is4, a)" "parse_bits (drop (i + 1) s) = Some n"
    and "index_byte CHR ''/'' s = Some i"
  shows "stands_for (normalizeIP a, if is4 \<or> To4 a = None then n else n - 96)
    (case To4 a of Some v4 \<Rightarrow> net\<lparr> net_IP := v4 \<rparr> | None \<Rightarrow> net)"
proof -
  have len: "length a = 16" "is4 \<Longrightarrow> To4 a = Some (drop 12 a)"
    using length_ParseAddr [OF assms(2)] by (auto simp: To4_def)
  have net: "net = (if is4 then \<lparr> net_IP = ip_mask (masks n 4) (drop 12 a), net_Mask = masks n 4 \<rparr>
      else \<lparr> net_IP = ip_mask (masks n 16) a, net_Mask = masks n 16 \<rparr>)"
    using assms by (auto simp: ParseCIDR_def CIDRMask_sizes Let_def split: if_splits)
  consider (four) is4 | (mapped) v where "\<not> is4" "To4 a = Some v" | (six) "\<not> is4" "To4 a = None" by fastforce
  then show ?thesis
  proof cases
    case four
    then show ?thesis using net len entry_v4 [of "drop 12 a" "drop 12 a" n] by (simp add: stands_for_def normalizeIP_def)
  next
    case mapped
    then show ?thesis using net entry_mapped [OF To4_length [OF mapped(2)]] by (simp add: stands_for_def normalizeIP_def)
  next
    case six
    then show ?thesis using net entry_v6 [OF len(1)] by (simp add: stands_for_def normalizeIP_def)
  qed
qed

lemma entry_prefix_Some:
  assumes "entry_prefix s = Some p"
  shows "\<exists>net. parseCIDR_entry s = Inr (Some net) \<and> stands_for p net"
proof (cases "index_byte CHR ''/'' s")
  case None
  obtain ip where "ParseIP s = Some ip" "p = (normalizeIP ip, 128)"
    using assms unfolding entry_prefix_def None by auto
  then show ?thesis using single_entry [of s] None by simp
next
  case (Some i)
  then have slash: "CHR ''/'' \<in> set s" using index_byte_None [of "CHR ''/''" s] by force
  obtain is4 a n where p: "ParseAddr (take i s) = Some (is4, a)" "parse_bits (drop (i + 1) s) = Some n"
      "n \<le> (if is4 then 32 else 128)" "p = (normalizeIP a, if is4 \<or> To4 a = None then n else n - 96)"
    using assms Some by (auto simp: entry_prefix_def split: option.splits if_splits)
  obtain net where net: "ParseCIDR s = Some (a, net)" using Some p(1-3) by (simp add: ParseCIDR_def Let_def)
  show ?thesis using cidr_entry [OF net p(1,2) Some] net slash p(4) by (simp add: parseCIDR_entry_def)
qed

lemma entry_prefix_None:
  assumes "entry_prefix s = None"
  shows "\<exists>e. parseCIDR_entry s = Inl e"
proof (cases "index_byte CHR ''/'' s")
  case None
  have "ParseIP s = None" using assms unfolding entry_prefix_def None by simp
  then show ?thesis using None by (simp add: parseCIDR_entry_def)
next
  case (Some i)
  then have slash: "CHR ''/'' \<in> set s" using index_byte_None [of "CHR ''/''" s] by force
  have "ParseCIDR s = None"
    using assms Some by (auto simp: entry_prefix_def ParseCIDR_def Let_def split: option.splits if_splits)
  then show ?thesis using slash by (simp add: parseCIDR_entry_def)
qed

lemma list_prefixes_Cons: "list_prefixes (raw # l) = (if TrimSpace raw = [] then list_prefixes l
   else case entry_prefix (TrimSpace raw) of None \<Rightarrow> None | Some p \<Rightarrow> map_option ((#) p) (list_prefixes l))"
  by (simp add: list_prefixes_def entries_def split: option.split)

lemma parseCIDRList_None: "list_prefixes l = None \<Longrightarrow> \<exists>e. parseCIDRList l = Inl e"
proof (induction l)
  case (Cons raw l)
  show ?case
  proof (cases "entry_prefix (TrimSpace raw)")
    case None
    then show ?thesis using Cons entry_prefix_None [OF None] by (auto simp: list_prefixes_Cons Let_def split: if_splits)
  next
    case (Some p)
    then show ?thesis using Cons entry_prefix_Some [OF Some] by (auto simp: list_prefixes_Cons Let_def split: if_splits)
  qed
qed (simp add: list_prefixes_def entries_def)

lemma parseCIDRList_Some:
  "list_prefixes l = Some ps \<Longrightarrow> \<exists>ns. parseCIDRList l = Inr (map Some ns) \<and> list_all2 stands_for ps ns"
proof (induction l arbitrary: ps)
  case (Cons raw l)
  show ?case
  proof (cases "TrimSpace raw = []")
    case False
    obtain p qs where p: "entry_prefix (TrimSpace raw) = Some p" "list_prefixes l = Some qs" "ps = p # qs"
      using Cons.prems False by (auto simp: list_prefixes_Cons split: option.splits)
    obtain net where net: "parseCIDR_entry (TrimSpace raw) = Inr (Some net)" "stands_for p net"
      using entry_prefix_Some [OF p(1)] by blast
    obtain ns where ns: "parseCIDRList l = Inr (map Some ns)" "list_all2 stands_for qs ns"
      using Cons.IH [OF p(2)] by blast
    have "parseCIDRList (raw # l) = Inr (map Some (net # ns))" using net(1) ns(1) False by simp
    moreover have "list_all2 stands_for ps (net # ns)" using net(2) ns(2) p(3) by simp
    ultimately show ?thesis by blast
  qed (use Cons in \<open>simp add: list_prefixes_Cons\<close>)
qed (simp add: list_prefixes_def entries_def)

lemma normalizeIP_idem [simp]: "normalizeIP (normalizeIP ip) = normalizeIP ip"
  by (cases "To4 ip") (simp_all add: normalizeIP_def To4_short [OF To4_length])

lemma any_contains_covers:
  "list_all2 stands_for ps ns \<Longrightarrow> any_contains (map Some ns) ip = Ret (\<exists>p \<in> set ps. covers p (normalizeIP ip))"
  by (induction ps ns rule: list_all2_induct) (auto simp: stands_for_def)

lemma filter_permits:
  assumes "list_prefixes allow = Some a" "list_prefixes block = Some b"
  shows "\<exists>f. NewIPFilterFromStrings allow block = Inr f \<and>
    (\<forall>ip. IPFilter_Allow (Some f) (Some ip) = Ret (permits a b (normalizeIP ip)))"
proof -
  obtain as where as: "parseCIDRList allow = Inr (map Some as)" "list_all2 stands_for a as"
    using parseCIDRList_Some [OF assms(1)] by blast
  obtain bs where bs: "parseCIDRList block = Inr (map Some bs)" "list_all2 stands_for b bs"
    using parseCIDRList_Some [OF assms(2)] by blast
  have "as = [] \<longleftrightarrow> a = []" using as(2) by auto
  then show ?thesis using as(1) bs(1) any_contains_covers [OF as(2)] any_contains_covers [OF bs(2)]
    by (auto simp: NewIPFilterFromStrings_def IPFilter_Allow_def Let_def permits_def split: bool.split)
qed

text \<open>
  C22: the address filter implements its comment.  When every entry of both lists denotes a prefix, the filter is built,
  holds no nil entry, and lets an address pass exactly when no blocked prefix covers it and, if there is an allow
  list, some allowed prefix does.  When an entry of a list is malformed, building the filter fails.
\<close>

theorem filter_refines_prefixes:
  "case (list_prefixes allow, list_prefixes block) of
     (Some a, Some b) \<Rightarrow> \<exists>f. NewIPFilterFromStrings allow block = Inr f \<and>
       (\<forall>ip. IPFilter_Allow (Some f) (Some ip) = Ret (permits a b (normalizeIP ip)))
   | _ \<Rightarrow> \<exists>e. NewIPFilterFromStrings allow block = Inl e"
proof (cases "list_prefixes allow"; cases "list_prefixes block")
  fix a b assume "list_prefixes allow = Some a" "list_prefixes block = Some b"
  then show ?thesis using filter_permits by simp
qed (use parseCIDRList_None [of allow] parseCIDRList_None [of block] parseCIDRList_Some [of allow] in
  \<open>auto simp: NewIPFilterFromStrings_def split: sum.split\<close>)

end
