(* ===== verification/Ddos.thy ===== *)
theory Ddos
  imports Runs GoIP
begin

text \<open>
  \<open>internal/server/ddos_protection.go\<close>: the connection rate limit per host and the port scan detector.  The mutexes make
  each of \<open>checkConnectionRate\<close>, \<open>IsPortScanning\<close>, \<open>RecordPortAccess\<close> and the two halves of \<open>Cleanup\<close> one step; a remote
  address is its text.  The theory shows that the pruned list of recent connections decides exactly as the full history of
  accepted connections would.
\<close>

section \<open>State\<close>

record ConnectionRateTracker =
  rate_connections :: "time list"
  lastConnection :: time
  rate_attempts :: u64

record ScanTracker =
  ports :: "(int, time) fmap"
  lastAttempt :: time
  scan_total :: int
  consecutive :: int

record PortScanDetector =
  scanAttempts :: "(string, ScanTracker) fmap"
  maxPortsPerIP :: int
  scanTimeWindow :: duration
  consecutiveThresh :: int

record DDoSProtection =
  connectionRates :: "(string, ConnectionRateTracker) fmap"
  maxConnectionsPerIP :: int
  connectionRateWindow :: duration
  maxConnectionsPerSec :: int
  portScanDetector :: PortScanDetector
  blockedConnections :: u64
  rateLimitedConnections :: u64
  portScanAttempts :: u64

definition NewPortScanDetector :: PortScanDetector where
  "NewPortScanDetector = \<lparr> scanAttempts = fmempty, maxPortsPerIP = 20, scanTimeWindow = 5 * minute, consecutiveThresh = 5 \<rparr>"

definition NewDDoSProtection :: DDoSProtection where
  "NewDDoSProtection = \<lparr> connectionRates = fmempty, maxConnectionsPerIP = 100, connectionRateWindow = minute,
     maxConnectionsPerSec = 10, portScanDetector = NewPortScanDetector,
     blockedConnections = 0, rateLimitedConnections = 0, portScanAttempts = 0 \<rparr>"

section \<open>Operations\<close>

definition put_rate :: "string \<Rightarrow> ConnectionRateTracker \<Rightarrow> DDoSProtection \<Rightarrow> DDoSProtection" where
  "put_rate ip tr d = d\<lparr> connectionRates := fmupd ip tr (connectionRates d) \<rparr>"

definition checkConnectionRate :: "string \<Rightarrow> time \<Rightarrow> DDoSProtection \<Rightarrow> bool \<times> DDoSProtection" where
  "checkConnectionRate ip now d =
    (let tr = (case fmlookup (connectionRates d) ip of
           Some tr \<Rightarrow> tr
         | None \<Rightarrow> \<lparr> rate_connections = [], lastConnection = 0, rate_attempts = 0 \<rparr>);
         cutoff = now - connectionRateWindow d;
         tr = tr\<lparr> rate_connections := filter (\<lambda>t. cutoff < t) (rate_connections tr) \<rparr> in
     if int (length (rate_connections tr)) \<ge> maxConnectionsPerSec d then (False, put_rate ip tr d)
     else if rate_connections tr \<noteq> [] \<and> time_sub now (lastConnection tr) < go_div second (maxConnectionsPerSec d)
     then (False, put_rate ip tr d)
     else (True, put_rate ip (tr\<lparr> rate_connections := rate_connections tr @ [now], lastConnection := now,
            rate_attempts := rate_attempts tr + 1 \<rparr>) d))"

definition recent_ports :: "time \<Rightarrow> duration \<Rightarrow> ScanTracker \<Rightarrow> int" where
  "recent_ports now w tr = int (fcard (ffilter (\<lambda>p. case fmlookup (ports tr) p of
     Some t \<Rightarrow> time_sub now t \<le> w | None \<Rightarrow> False) (fmdom (ports tr))))"

definition IsPortScanning :: "string \<Rightarrow> time \<Rightarrow> PortScanDetector \<Rightarrow> bool" where
  "IsPortScanning ip now psd = (case fmlookup (scanAttempts psd) ip of
     None \<Rightarrow> False
   | Some tr \<Rightarrow> recent_ports now (scanTimeWindow psd) tr \<ge> maxPortsPerIP psd \<or> consecutive tr \<ge> consecutiveThresh psd)"

definition psd_RecordPortAccess :: "string \<Rightarrow> int \<Rightarrow> time \<Rightarrow> PortScanDetector \<Rightarrow> PortScanDetector" where
  "psd_RecordPortAccess ip port now psd =
    (let tr = (case fmlookup (scanAttempts psd) ip of
           Some tr \<Rightarrow> tr
         | None \<Rightarrow> \<lparr> ports = fmempty, lastAttempt = 0, scan_total = 0, consecutive = 0 \<rparr>);
         tr = tr\<lparr> ports := fmupd port now (ports tr), scan_total := wrap64 (scan_total tr + 1),
           consecutive := (if time_sub now (lastAttempt tr) \<le> second then wrap64 (consecutive tr + 1) else 1),
           lastAttempt := now \<rparr> in
     psd\<lparr> scanAttempts := fmupd ip tr (scanAttempts psd) \<rparr>)"

definition RecordPortAccess :: "string \<Rightarrow> int \<Rightarrow> time \<Rightarrow> DDoSProtection \<Rightarrow> DDoSProtection" where
  "RecordPortAccess remoteAddr port now d = (case SplitHostPort remoteAddr of
     Inl e \<Rightarrow> d
   | Inr (host, _) \<Rightarrow> d\<lparr> portScanDetector := psd_RecordPortAccess host port now (portScanDetector d) \<rparr>)"

text \<open>The two checks read the clock one after the other.\<close>

definition CheckConnectionAllowed :: "string \<Rightarrow> time \<Rightarrow> time \<Rightarrow> DDoSProtection \<Rightarrow> bool \<times> DDoSProtection" where
  "CheckConnectionAllowed remoteAddr now1 now2 d = (case SplitHostPort remoteAddr of
     Inl e \<Rightarrow> (False, d)
   | Inr (host, _) \<Rightarrow>
     (case ParseIP host of
        None \<Rightarrow> (False, d)
      | Some ip \<Rightarrow>
        if IsPortScanning host now1 (portScanDetector d)
        then (False, d\<lparr> blockedConnections := blockedConnections d + 1 \<rparr>)
        else (case checkConnectionRate host now2 d of
            (True, d) \<Rightarrow> (True, d)
          | (False, d) \<Rightarrow> (False, d\<lparr> rateLimitedConnections := rateLimitedConnections d + 1 \<rparr>))))"

definition rate_stale :: "time \<Rightarrow> DDoSProtection \<Rightarrow> string \<Rightarrow> bool" where
  "rate_stale cutoff d ip = (case fmlookup (connectionRates d) ip of
     Some tr \<Rightarrow> lastConnection tr < cutoff | None \<Rightarrow> False)"

definition scan_stale :: "time \<Rightarrow> PortScanDetector \<Rightarrow> string \<Rightarrow> bool" where
  "scan_stale cutoff psd ip = (case fmlookup (scanAttempts psd) ip of
     Some tr \<Rightarrow> lastAttempt tr < cutoff | None \<Rightarrow> False)"

definition Cleanup :: "time \<Rightarrow> DDoSProtection \<Rightarrow> DDoSProtection" where
  "Cleanup now d =
    (let cutoff = now - hour; psd = portScanDetector d in
     d\<lparr> connectionRates := fmfilter (\<lambda>ip. \<not> rate_stale cutoff d ip) (connectionRates d),
        portScanDetector := psd\<lparr> scanAttempts := fmfilter (\<lambda>ip. \<not> scan_stale cutoff psd ip) (scanAttempts psd) \<rparr> \<rparr>)"

record DDoSMetrics =
  blocked_connections :: u64
  rate_limited_connections :: u64
  port_scan_attempts :: u64
  active_tracked_ips :: nat
  suspicious_ips :: nat
  max_connections_per_ip :: int
  max_connections_per_sec :: int

definition DDoS_GetMetrics :: "DDoSProtection \<Rightarrow> DDoSMetrics" where
  "DDoS_GetMetrics d = \<lparr> blocked_connections = blockedConnections d,
     rate_limited_connections = rateLimitedConnections d, port_scan_attempts = portScanAttempts d,
     active_tracked_ips = fcard (fmdom (connectionRates d)),
     suspicious_ips = fcard (fmdom (scanAttempts (portScanDetector d))),
     max_connections_per_ip = maxConnectionsPerIP d, max_connections_per_sec = maxConnectionsPerSec d \<rparr>"

section \<open>Runs\<close>

text \<open>
  A run with the history of the accepted connections of every host beside it, newest first.  The history is not part of
  the program; it is what the reference decision looks at.
\<close>

datatype ddos_op = Connect string time | Access string int | Clean

type_synonym ddos_state = "time \<times> DDoSProtection \<times> (string \<Rightarrow> time list)"

definition host_of :: "string \<Rightarrow> string" where
  "host_of addr = (case SplitHostPort addr of Inl e \<Rightarrow> [] | Inr (host, _) \<Rightarrow> host)"

fun ddos_step :: "time \<times> ddos_op \<Rightarrow> ddos_state \<Rightarrow> ddos_state" where
  "ddos_step (now, Connect addr scan_now) (clock, d, hist) =
     (case CheckConnectionAllowed addr scan_now now d of (b, d') \<Rightarrow>
        (now, d', if b then hist (host_of addr := now # hist (host_of addr)) else hist))"
| "ddos_step (now, Access addr port) (clock, d, hist) = (now, RecordPortAccess addr port now d, hist)"
| "ddos_step (now, Clean) (clock, d, hist) = (now, Cleanup now d, hist)"

definition ddos_ok :: "time \<times> ddos_op \<Rightarrow> ddos_state \<Rightarrow> bool" where
  "ddos_ok e s \<longleftrightarrow> fst s \<le> fst e"

definition ddos_init :: "time \<Rightarrow> ddos_state" where
  "ddos_init t0 = (t0, NewDDoSProtection, \<lambda>_. [])"

text \<open>The reference decision: under ten connections in the last minute, and the last of those a tenth of a second ago.\<close>

definition log_admits :: "time list \<Rightarrow> time \<Rightarrow> bool" where
  "log_admits h now \<longleftrightarrow> (let recent = filter (\<lambda>t. now - minute < t) h in
     length recent < 10 \<and> (recent \<noteq> [] \<longrightarrow> now - hd recent \<ge> 100 * millisecond))"

text \<open>How the tracker of a host relates to the history of the host.\<close>

definition tracks :: "time \<Rightarrow> time list \<Rightarrow> ConnectionRateTracker option \<Rightarrow> bool" where
  "tracks clock h tr \<longleftrightarrow> (case tr of
     None \<Rightarrow> \<forall>t \<in> set h. t \<le> clock - minute
   | Some tr \<Rightarrow> h \<noteq> [] \<and> lastConnection tr = hd h \<and>
       (\<exists>cut \<le> clock - minute. rate_connections tr = rev (filter (\<lambda>t. cut < t) h)))"

definition history_ok :: "time \<Rightarrow> time list \<Rightarrow> bool" where
  "history_ok clock h \<longleftrightarrow> (\<forall>t \<in> set h. t \<le> clock) \<and> sorted_wrt (\<lambda>a b. 100 * millisecond \<le> a - b) h \<and>
     (\<forall>t. length (filter (\<lambda>x. t - minute < x \<and> x \<le> t) h) \<le> 10)"

definition ddos_inv :: "ddos_state \<Rightarrow> bool" where
  "ddos_inv s \<longleftrightarrow> (case s of (clock, d, hist) \<Rightarrow>
     connectionRateWindow d = minute \<and> maxConnectionsPerSec d = 10 \<and>
     (\<forall>ip. history_ok clock (hist ip) \<and> tracks clock (hist ip) (fmlookup (connectionRates d) ip)))"

section \<open>The decision\<close>

lemma time_consts: "minute = 60000000000" "millisecond = 1000000" "second = 1000000000" "hour = 3600000000000"
  by (simp_all add: duration_defs)

lemma tenth [simp]: "go_div second 10 = 100 * millisecond"
  by (simp add: time_consts)

lemma sub_tenth: "time_sub t u < 100 * millisecond \<longleftrightarrow> t - u < 100 * millisecond"
  by (rule time_sub_less) (simp_all add: time_consts)

lemma filter_filter_cut: "c \<le> d \<Longrightarrow> filter (\<lambda>t. d < t) (filter (\<lambda>t. c < t) h) = filter (\<lambda>t. d < (t :: int)) h"
  by (induction h) auto

lemma recent_hd:
  assumes "sorted_wrt (\<lambda>a b. 100 * millisecond \<le> a - b) (h :: time list)" "filter (\<lambda>t. c < t) h \<noteq> []"
  shows "hd (filter (\<lambda>t. c < t) h) = hd h"
proof (cases h)
  case (Cons x xs)
  have "\<forall>t \<in> set xs. t \<le> x" using assms(1) Cons by (auto simp: time_consts)
  then have "c < x" using assms(2) Cons by (force simp: filter_empty_conv split: if_splits)
  then show ?thesis using Cons by simp
qed (use assms in simp)

text \<open>The tracker after the old connections are dropped.\<close>

definition pruned :: "time \<Rightarrow> ConnectionRateTracker option \<Rightarrow> ConnectionRateTracker" where
  "pruned now tr = (case tr of
     Some tr \<Rightarrow> tr\<lparr> rate_connections := filter (\<lambda>t. now - minute < t) (rate_connections tr) \<rparr>
   | None \<Rightarrow> \<lparr> rate_connections = [], lastConnection = 0, rate_attempts = 0 \<rparr>)"

lemma pruned_recent:
  assumes "tracks clock h tr" "clock \<le> now"
  shows "rate_connections (pruned now tr) = rev (filter (\<lambda>t. now - minute < t) h)"
    "filter (\<lambda>t. now - minute < t) h \<noteq> [] \<Longrightarrow> lastConnection (pruned now tr) = hd h"
proof -
  show "rate_connections (pruned now tr) = rev (filter (\<lambda>t. now - minute < t) h)"
  proof (cases tr)
    case None
    then show ?thesis using assms by (auto simp: tracks_def pruned_def filter_empty_conv)
  next
    case (Some x)
    then obtain cut where c: "cut \<le> clock - minute" "rate_connections x = rev (filter (\<lambda>t. cut < t) h)"
      using assms by (auto simp: tracks_def)
    have "filter (\<lambda>t. now - minute < t) (rev (filter (\<lambda>t. cut < t) h)) = rev (filter (\<lambda>t. now - minute < t) h)"
      using filter_filter_cut [of cut "now - minute" h] c(1) assms(2) by (simp add: rev_filter [symmetric])
    then show ?thesis using Some c(2) by (simp add: pruned_def)
  qed
  show "filter (\<lambda>t. now - minute < t) h \<noteq> [] \<Longrightarrow> lastConnection (pruned now tr) = hd h"
    using assms by (auto simp: tracks_def pruned_def filter_empty_conv split: option.splits)
qed

lemma rate_decision:
  assumes inv: "ddos_inv (clock, d, hist)" and "clock \<le> now"
  shows "checkConnectionRate ip now d =
    (let tr = pruned now (fmlookup (connectionRates d) ip) in
     if log_admits (hist ip) now
     then (True, put_rate ip (tr\<lparr> rate_connections := rate_connections tr @ [now], lastConnection := now,
            rate_attempts := rate_attempts tr + 1 \<rparr>) d)
     else (False, put_rate ip tr d))"
proof -
  let ?tr = "pruned now (fmlookup (connectionRates d) ip)"
  have w: "connectionRateWindow d = minute" "maxConnectionsPerSec d = 10"
    and t: "tracks clock (hist ip) (fmlookup (connectionRates d) ip)" and h: "history_ok clock (hist ip)"
    using inv by (auto simp: ddos_inv_def)
  note p = pruned_recent [OF t assms(2)]
  have s: "sorted_wrt (\<lambda>a b. 100 * millisecond \<le> a - b) (hist ip)" using h by (simp add: history_ok_def)
  have adm: "log_admits (hist ip) now \<longleftrightarrow> \<not> int (length (rate_connections ?tr)) \<ge> 10 \<and>
      \<not> (rate_connections ?tr \<noteq> [] \<and> time_sub now (lastConnection ?tr) < 100 * millisecond)"
    using p recent_hd [OF s, of "now - minute"] by (auto simp: log_admits_def Let_def sub_tenth)
  have "checkConnectionRate ip now d =
      (if int (length (rate_connections ?tr)) \<ge> 10 then (False, put_rate ip ?tr d)
       else if rate_connections ?tr \<noteq> [] \<and> time_sub now (lastConnection ?tr) < 100 * millisecond
       then (False, put_rate ip ?tr d)
       else (True, put_rate ip (?tr\<lparr> rate_connections := rate_connections ?tr @ [now], lastConnection := now,
              rate_attempts := rate_attempts ?tr + 1 \<rparr>) d))"
    by (cases "fmlookup (connectionRates d) ip") (auto simp: checkConnectionRate_def Let_def w pruned_def)
  then show ?thesis using adm by (simp add: Let_def)
qed

section \<open>The invariant\<close>

lemma tracks_mono: "tracks c h tr \<Longrightarrow> c \<le> d \<Longrightarrow> tracks d h tr"
proof (cases tr)
  case (Some x)
  assume t: "tracks c h tr" "c \<le> d"
  then obtain cut where "cut \<le> c - minute" "rate_connections x = rev (filter (\<lambda>t. cut < t) h)"
    by (auto simp: tracks_def Some)
  then show ?thesis using t by (auto simp: tracks_def Some intro!: exI [of _ cut])
qed (force simp: tracks_def)

lemma history_mono: "history_ok c h \<Longrightarrow> c \<le> d \<Longrightarrow> history_ok d h"
  by (auto simp: history_ok_def)

lemma history_admit:
  assumes "history_ok clock h" "clock \<le> now" "log_admits h now"
  shows "history_ok now (now # h)"
proof -
  let ?recent = "filter (\<lambda>t. now - minute < t) h"
  have le: "\<forall>t \<in> set h. t \<le> now" and s: "sorted_wrt (\<lambda>a b. 100 * millisecond \<le> a - b) h"
    using assms by (auto simp: history_ok_def)
  have "100 * millisecond \<le> now - t" if t: "t \<in> set h" for t
  proof (cases "now - minute < t")
    case True
    then have r: "?recent \<noteq> []" using t by (auto simp: filter_empty_conv)
    then have "100 * millisecond \<le> now - hd h"
      using assms(3) recent_hd [OF s r] by (simp add: log_admits_def Let_def)
    moreover have "t \<le> hd h" using s t by (cases h) (auto simp: time_consts)
    ultimately show ?thesis by simp
  qed (simp add: time_consts)
  moreover have "length (filter (\<lambda>x. t - minute < x \<and> x \<le> t) (now # h)) \<le> 10" for t
  proof (cases "now \<le> t")
    case True
    then have "length (filter (\<lambda>x. t - minute < x \<and> x \<le> t) h) \<le> length ?recent"
      by (induction h) auto
    then show ?thesis using assms(3) by (simp add: log_admits_def Let_def)
  qed (use assms(1) in \<open>simp add: history_ok_def\<close>)
  ultimately show ?thesis using le s by (simp add: history_ok_def)
qed

lemma tracks_admit:
  assumes "tracks clock h tr" "clock \<le> now"
  shows "tracks now (now # h) (Some ((pruned now tr)
    \<lparr> rate_connections := rate_connections (pruned now tr) @ [now], lastConnection := now, rate_attempts := k \<rparr>))"
  using pruned_recent(1) [OF assms] by (auto simp: tracks_def time_consts intro!: exI [of _ "now - minute"])

lemma tracks_refuse:
  assumes "tracks clock h tr" "clock \<le> now" "\<not> log_admits h now"
  shows "tracks now h (Some (pruned now tr))"
proof -
  have "filter (\<lambda>t. now - minute < t) h \<noteq> []" using assms(3) by (auto simp: log_admits_def Let_def)
  then show ?thesis using pruned_recent [OF assms(1,2)]
    by (auto simp: tracks_def intro!: exI [of _ "now - minute"])
qed

lemma put_rate_simps [simp]:
  "fmlookup (connectionRates (put_rate ip tr d)) a = (if a = ip then Some tr else fmlookup (connectionRates d) a)"
  "connectionRateWindow (put_rate ip tr d) = connectionRateWindow d"
  "maxConnectionsPerSec (put_rate ip tr d) = maxConnectionsPerSec d"
  "portScanDetector (put_rate ip tr d) = portScanDetector d"
  by (auto simp: put_rate_def)

lemma ddos_inv_mono: "ddos_inv (clock, d, hist) \<Longrightarrow> clock \<le> now \<Longrightarrow> ddos_inv (now, d, hist)"
  by (auto simp: ddos_inv_def intro: tracks_mono history_mono)

lemma ddos_inv_rate [inv_intros]:
  assumes inv: "ddos_inv (clock, d, hist)" and now: "clock \<le> now"
  shows "ddos_inv (now, snd (checkConnectionRate ip now d),
    if fst (checkConnectionRate ip now d) then hist (ip := now # hist ip) else hist)"
proof -
  have h: "history_ok clock (hist ip)" and t: "tracks clock (hist ip) (fmlookup (connectionRates d) ip)"
    using inv by (auto simp: ddos_inv_def)
  have others: "ddos_inv (now, d, hist)" using ddos_inv_mono [OF inv now] .
  show ?thesis
  proof (cases "log_admits (hist ip) now")
    case True
    then show ?thesis using others history_admit [OF h now True] tracks_admit [OF t now]
      by (simp add: rate_decision [OF inv now] ddos_inv_def Let_def)
  next
    case False
    then show ?thesis using others tracks_refuse [OF t now False]
      by (simp add: rate_decision [OF inv now] ddos_inv_def Let_def)
  qed
qed

lemma ddos_inv_counters [simp]:
  "ddos_inv (clock, d\<lparr> blockedConnections := k \<rparr>, hist) = ddos_inv (clock, d, hist)"
  "ddos_inv (clock, d\<lparr> rateLimitedConnections := k \<rparr>, hist) = ddos_inv (clock, d, hist)"
  "ddos_inv (clock, d\<lparr> portScanDetector := p \<rparr>, hist) = ddos_inv (clock, d, hist)"
  by (simp_all add: ddos_inv_def)

lemma ddos_inv_Check [inv_intros]:
  assumes inv: "ddos_inv (clock, d, hist)" and now: "clock \<le> now"
  shows "ddos_inv (ddos_step (now, Connect addr t1) (clock, d, hist))"
  using ddos_inv_mono [OF inv now] ddos_inv_rate [OF inv now, of "host_of addr"]
  by (auto simp: CheckConnectionAllowed_def host_of_def split: sum.split option.split prod.split bool.split)

lemma ddos_inv_Cleanup [inv_intros]:
  assumes inv: "ddos_inv (clock, d, hist)" and now: "clock \<le> now"
  shows "ddos_inv (now, Cleanup now d, hist)"
proof -
  have "tracks now (hist ip) None"
    if stale: "rate_stale (now - hour) d ip" for ip
  proof -
    obtain tr where tr: "fmlookup (connectionRates d) ip = Some tr" "lastConnection tr < now - hour"
      using stale by (auto simp: rate_stale_def split: option.splits)
    then have "hd (hist ip) < now - hour" "hist ip \<noteq> []" "history_ok clock (hist ip)"
      using inv by (auto simp: ddos_inv_def tracks_def dest: spec [of _ ip])
    then show ?thesis by (cases "hist ip") (force simp: tracks_def history_ok_def time_consts)+
  qed
  then show ?thesis using ddos_inv_mono [OF inv now] by (auto simp: ddos_inv_def Cleanup_def Let_def)
qed

interpretation ddos: machine ddos_step ddos_ok ddos_inv
proof
  fix s e
  assume inv: "ddos_inv s" and ok: "ddos_ok e s"
  obtain clock d hist where s: "s = (clock, d, hist)" by (cases s)
  obtain now f where e: "e = (now, f)" by (cases e)
  have now: "clock \<le> now" using ok by (simp add: ddos_ok_def s e)
  show "ddos_inv (ddos_step e s)"
  proof (cases f)
    case (Connect addr t1)
    then show ?thesis unfolding s e using ddos_inv_Check [OF inv [unfolded s] now] by simp
  next
    case (Access addr port)
    then show ?thesis using ddos_inv_mono [OF inv [unfolded s] now]
      by (simp add: s e RecordPortAccess_def split: sum.split prod.split)
  next
    case Clean
    then show ?thesis using ddos_inv_Cleanup [OF inv [unfolded s] now] by (simp add: s e)
  qed
qed

lemma ddos_inv_init: "ddos_inv (ddos_init t0)"
  by (simp add: ddos_inv_def ddos_init_def NewDDoSProtection_def tracks_def history_ok_def)

section \<open>Properties\<close>

text \<open>
  C23: in every run with a clock that does not go back, the protection decides on a connection exactly as the full
  history of the accepted connections of its host would: the address has a host that is an IP address, the host is not
  taken for a scanner, under ten connections were accepted from it in the last minute and the last of those at
  least a tenth of a second ago.  Dropping old times and idle trackers changes no decision.
\<close>

theorem rate_limit_equivalent:
  assumes "legal ddos_ok ddos_step es (ddos_init t0)" "run ddos_step es (ddos_init t0) = (clock, d, hist)" "clock \<le> now"
  shows "fst (CheckConnectionAllowed addr t1 now d) \<longleftrightarrow> (case SplitHostPort addr of
      Inl e \<Rightarrow> False
    | Inr (host, port) \<Rightarrow> ParseIP host \<noteq> None \<and> \<not> IsPortScanning host t1 (portScanDetector d) \<and>
        log_admits (hist host) now)"
proof -
  have inv: "ddos_inv (clock, d, hist)" using ddos.inv_run [OF ddos_inv_init assms(1)] assms(2) by simp
  show ?thesis
    by (auto simp: CheckConnectionAllowed_def rate_decision [OF inv assms(3)] Let_def
        split: sum.split option.split prod.split bool.split if_splits)
qed

text \<open>
  C24: in every run the connections accepted from one host are at least a tenth of a second apart, and at most ten of
  them fall into any minute, whatever other hosts do and whenever the cleanup runs.
\<close>

theorem connections_per_minute:
  assumes "legal ddos_ok ddos_step es (ddos_init t0)" "run ddos_step es (ddos_init t0) = (clock, d, hist)"
  shows "length (filter (\<lambda>x. t - minute < x \<and> x \<le> t) (hist ip)) \<le> 10 \<and>
    sorted_wrt (\<lambda>a b. 100 * millisecond \<le> a - b) (hist ip)"
  using ddos.inv_run [OF ddos_inv_init assms(1)] assms(2) by (simp add: ddos_inv_def history_ok_def)

section \<open>A run\<close>

definition sample_events :: "(time \<times> ddos_op) list" where
  "sample_events = [(100, Connect ''1.2.3.4:5'' 100), (200, Connect ''1.2.3.4:6'' 200), (300, Clean)]"

lemma sample_hosts:
  "SplitHostPort ''1.2.3.4:5'' = Inr (''1.2.3.4'', ''5'')" "SplitHostPort ''1.2.3.4:6'' = Inr (''1.2.3.4'', ''6'')"
  "ParseIP ''1.2.3.4'' = Some (v4InV6Prefix @ [1, 2, 3, 4])"
  by code_simp+

lemma sample_hist:
  "\<exists>d. run ddos_step sample_events (ddos_init 0) = (300, d, (\<lambda>_. []) (''1.2.3.4'' := [100])) \<and>
     fmlookup (scanAttempts (portScanDetector d)) ''1.2.3.4'' = None"
  by (simp add: sample_events_def ddos_init_def CheckConnectionAllowed_def sample_hosts IsPortScanning_def
      checkConnectionRate_def NewDDoSProtection_def NewPortScanDetector_def put_rate_def host_of_def time_consts
      Cleanup_def Let_def time_sub_def)

lemma sample_legal: "legal ddos_ok ddos_step sample_events (ddos_init 0)"
  by (simp add: sample_events_def ddos_init_def ddos_ok_def split: prod.split)

theorem rate_limit_equivalent_witness:
  "\<exists>clock d hist. legal ddos_ok ddos_step sample_events (ddos_init 0) \<and>
     run ddos_step sample_events (ddos_init 0) = (clock, d, hist) \<and> clock \<le> 1000000000 \<and>
     \<not> fst (CheckConnectionAllowed ''1.2.3.4:5'' 400 400 d) \<and>
     fst (CheckConnectionAllowed ''1.2.3.4:5'' 1000000000 1000000000 d)"
proof -
  obtain d where d: "run ddos_step sample_events (ddos_init 0) = (300, d, (\<lambda>_. []) (''1.2.3.4'' := [100]))"
      "fmlookup (scanAttempts (portScanDetector d)) ''1.2.3.4'' = None"
    using sample_hist by blast
  have "\<not> fst (CheckConnectionAllowed ''1.2.3.4:5'' 400 400 d)"
    using rate_limit_equivalent [OF sample_legal d(1), of 400 "''1.2.3.4:5''" 400] d(2)
    by (simp add: sample_hosts IsPortScanning_def log_admits_def time_consts)
  moreover have "fst (CheckConnectionAllowed ''1.2.3.4:5'' 1000000000 1000000000 d)"
    using rate_limit_equivalent [OF sample_legal d(1), of 1000000000 "''1.2.3.4:5''" 1000000000] d(2)
    by (simp add: sample_hosts IsPortScanning_def log_admits_def time_consts)
  ultimately show ?thesis using d(1) sample_legal by auto
qed

theorem connections_per_minute_witness:
  "\<exists>clock d hist. run ddos_step sample_events (ddos_init 0) = (clock, d, hist) \<and> hist ''1.2.3.4'' = [100] \<and>
     length (filter (\<lambda>x. 300 - minute < x \<and> x \<le> 300) (hist ''1.2.3.4'')) \<le> 10"
proof -
  obtain d where d: "run ddos_step sample_events (ddos_init 0) = (300, d, (\<lambda>_. []) (''1.2.3.4'' := [100]))"
    using sample_hist by blast
  have "length (filter (\<lambda>x. 300 - minute < x \<and> x \<le> 300) (((\<lambda>_. []) (''1.2.3.4'' := [100])) ''1.2.3.4'')) \<le> 10"
    using connections_per_minute [OF sample_legal d] by blast
  then show ?thesis using d by auto
qed

end
