(* ===== verification/Resources.thy ===== *)
theory Resources
  imports FloatArith GoErrors Runs
begin

text \<open>
  \<open>internal/server/resource_monitor.go\<close> and \<open>internal/server/resource_breach_handler.go\<close>.  What the runtime and the
  system report (allocated bytes, goroutines, the descriptor limit, the clock) are arguments.  An alert is
  handed to every registered handler in a goroutine of its own: \<open>rm_spawned\<close> lists those goroutines, a handler being
  a number.  The checks run in one goroutine each, so a check is one step.
\<close>

section \<open>Formatting\<close>

text \<open>\<open>%.1f\<close> and \<open>%.2f\<close>: the exact value rounded to one or two decimals, ties to even.\<close>

definition pad_left :: "nat \<Rightarrow> string \<Rightarrow> string" where
  "pad_left n s = replicate (n - length s) CHR ''0'' @ s"

fun fmt_fixed :: "nat \<Rightarrow> f64 \<Rightarrow> string" where
  "fmt_fixed p (Fin r) = (let k = nat (half_even (\<bar>r\<bar> * 10 ^ p)) in
     (if r < 0 then ''-'' else []) @ show_nat (k div 10 ^ p) @ ''.'' @ pad_left p (show_nat (k mod 10 ^ p)))"
| "fmt_fixed p PInf = ''+Inf''"
| "fmt_fixed p NInf = ''-Inf''"
| "fmt_fixed p NaN = ''NaN''"

section \<open>Resource monitor\<close>

datatype AlertLevel = AlertLevelInfo | AlertLevelWarning | AlertLevelCritical

record ResourceAlert =
  alert_Type :: string
  alert_Level :: AlertLevel
  alert_Message :: string
  alert_Current :: int
  alert_Limit :: int
  alert_Usage :: f64
  alert_Timestamp :: time

record ResourceLimits =
  lim_MaxMemoryMB :: int
  lim_MaxFileDescriptors :: int
  lim_MaxGoroutines :: int
  lim_MaxConnections :: int
  lim_WarningThreshold :: f64
  lim_CriticalThreshold :: f64

record ResourceMonitor =
  maxMemoryMB :: int
  maxFileDescriptors :: int
  maxGoroutines :: int
  rm_maxConnections :: int
  currentMemoryMB :: int
  currentFDs :: int
  currentGoroutines :: int
  currentConnections :: int
  memoryBreaches :: u64
  fdBreaches :: u64
  goroutineBreaches :: u64
  connectionBreaches :: u64
  warningThreshold :: f64
  criticalThreshold :: f64
  alertHandlers :: "nat list"
  rm_spawned :: "(nat \<times> ResourceAlert) list"

definition NewResourceMonitor :: "ResourceLimits \<Rightarrow> ResourceMonitor" where
  "NewResourceMonitor l = \<lparr> maxMemoryMB = lim_MaxMemoryMB l, maxFileDescriptors = lim_MaxFileDescriptors l,
     maxGoroutines = lim_MaxGoroutines l, rm_maxConnections = lim_MaxConnections l,
     currentMemoryMB = 0, currentFDs = 0, currentGoroutines = 0, currentConnections = 0,
     memoryBreaches = 0, fdBreaches = 0, goroutineBreaches = 0, connectionBreaches = 0,
     warningThreshold = lim_WarningThreshold l, criticalThreshold = lim_CriticalThreshold l,
     alertHandlers = [], rm_spawned = [] \<rparr>"

definition AddAlertHandler :: "nat \<Rightarrow> ResourceMonitor \<Rightarrow> ResourceMonitor" where
  "AddAlertHandler h rm = rm\<lparr> alertHandlers := alertHandlers rm @ [h] \<rparr>"

definition sendAlert :: "ResourceAlert \<Rightarrow> ResourceMonitor \<Rightarrow> ResourceMonitor" where
  "sendAlert a rm = rm\<lparr> rm_spawned := rm_spawned rm @ map (\<lambda>h. (h, a)) (alertHandlers rm) \<rparr>"

definition alert_text :: "string \<Rightarrow> string \<Rightarrow> f64 \<Rightarrow> int \<Rightarrow> int \<Rightarrow> string" where
  "alert_text what type usage current limit = what @ type @ '' usage '' @ fmt_fixed 1 (f64_mul usage (f64_of_int 100)) @
     ''% ('' @ show_int current @ ''/'' @ show_int limit @ '')''"

definition triggerAlert :: "string \<Rightarrow> int \<Rightarrow> int \<Rightarrow> time \<Rightarrow> ResourceMonitor \<Rightarrow> ResourceMonitor" where
  "triggerAlert type current limit now rm =
    (let usage = f64_div (f64_of_int current) (f64_of_int limit) in
     sendAlert \<lparr> alert_Type = type, alert_Level = AlertLevelCritical,
       alert_Message = alert_text ''Resource limit exceeded: '' type usage current limit,
       alert_Current = current, alert_Limit = limit, alert_Usage = usage, alert_Timestamp = now \<rparr> rm)"

definition triggerWarning :: "string \<Rightarrow> int \<Rightarrow> int \<Rightarrow> time \<Rightarrow> ResourceMonitor \<Rightarrow> ResourceMonitor" where
  "triggerWarning type current limit now rm =
    (let usage = f64_div (f64_of_int current) (f64_of_int limit) in
     sendAlert \<lparr> alert_Type = type, alert_Level = AlertLevelWarning,
       alert_Message = alert_text ''Resource usage warning: '' type usage current limit,
       alert_Current = current, alert_Limit = limit, alert_Usage = usage, alert_Timestamp = now \<rparr> rm)"

text \<open>The comparison with the two thresholds that ends every check.\<close>

definition check_thresholds :: "string \<Rightarrow> int \<Rightarrow> int \<Rightarrow> time \<Rightarrow> ResourceMonitor \<Rightarrow> ResourceMonitor" where
  "check_thresholds type current limit now rm =
    (let usage = f64_div (f64_of_int current) (f64_of_int limit) in
     if f64_ge usage (criticalThreshold rm) then triggerAlert type current limit now rm
     else if f64_ge usage (warningThreshold rm) then triggerWarning type current limit now rm
     else rm)"

definition CheckMemoryLimit :: "u64 \<Rightarrow> time \<Rightarrow> ResourceMonitor \<Rightarrow> bool \<times> ResourceMonitor" where
  "CheckMemoryLimit alloc now rm =
    (let currentMB = int (unat (alloc div 1024 div 1024)); rm = rm\<lparr> currentMemoryMB := currentMB \<rparr> in
     if maxMemoryMB rm > 0 \<and> currentMB > maxMemoryMB rm then
       (False, triggerAlert ''memory'' currentMB (maxMemoryMB rm) now (rm\<lparr> memoryBreaches := memoryBreaches rm + 1 \<rparr>))
     else if maxMemoryMB rm > 0 then (True, check_thresholds ''memory'' currentMB (maxMemoryMB rm) now rm)
     else (True, rm))"

definition estimateFileDescriptorUsage :: "ResourceMonitor \<Rightarrow> int" where
  "estimateFileDescriptorUsage rm = wrap64 (wrap64 (4 + currentConnections rm) + 10)"

text \<open>The soft limit of the process, or \<open>None\<close> when the system call fails.\<close>

definition CheckFileDescriptorLimit :: "u64 option \<Rightarrow> time \<Rightarrow> ResourceMonitor \<Rightarrow> bool \<times> ResourceMonitor" where
  "CheckFileDescriptorLimit rlimit now rm = (case rlimit of
     None \<Rightarrow> (True, rm)
   | Some cur \<Rightarrow>
     (let fds = estimateFileDescriptorUsage rm; rm = rm\<lparr> currentFDs := fds \<rparr>;
          maxFDs = (if maxFileDescriptors rm = 0 then sint cur else maxFileDescriptors rm) in
      if fds > maxFDs then
        (False, triggerAlert ''file_descriptors'' fds maxFDs now (rm\<lparr> fdBreaches := fdBreaches rm + 1 \<rparr>))
      else (True, check_thresholds ''file_descriptors'' fds maxFDs now rm)))"

definition CheckGoroutineLimit :: "int \<Rightarrow> time \<Rightarrow> ResourceMonitor \<Rightarrow> bool \<times> ResourceMonitor" where
  "CheckGoroutineLimit n now rm =
    (let rm = rm\<lparr> currentGoroutines := n \<rparr> in
     if maxGoroutines rm > 0 \<and> n > maxGoroutines rm then
       (False, triggerAlert ''goroutines'' n (maxGoroutines rm) now (rm\<lparr> goroutineBreaches := goroutineBreaches rm + 1 \<rparr>))
     else if maxGoroutines rm > 0 then (True, check_thresholds ''goroutines'' n (maxGoroutines rm) now rm)
     else (True, rm))"

definition CheckConnectionLimit :: "int \<Rightarrow> time \<Rightarrow> ResourceMonitor \<Rightarrow> bool \<times> ResourceMonitor" where
  "CheckConnectionLimit n now rm =
    (let rm = rm\<lparr> currentConnections := n \<rparr> in
     if rm_maxConnections rm > 0 \<and> n > rm_maxConnections rm then
       (False, triggerAlert ''connections'' n (rm_maxConnections rm) now
          (rm\<lparr> connectionBreaches := connectionBreaches rm + 1 \<rparr>))
     else if rm_maxConnections rm > 0 then (True, check_thresholds ''connections'' n (rm_maxConnections rm) now rm)
     else (True, rm))"

text \<open>One tick of \<open>monitoringLoop\<close>, with a clock reading per check.\<close>

record probe =
  probe_alloc :: u64
  probe_rlimit :: "u64 option"
  probe_goroutines :: int
  probe_clock :: "nat \<Rightarrow> time"

definition monitor_tick :: "probe \<Rightarrow> ResourceMonitor \<Rightarrow> ResourceMonitor" where
  "monitor_tick p rm =
    (let rm = snd (CheckMemoryLimit (probe_alloc p) (probe_clock p 0) rm);
         rm = snd (CheckFileDescriptorLimit (probe_rlimit p) (probe_clock p 1) rm) in
     snd (CheckGoroutineLimit (probe_goroutines p) (probe_clock p 2) rm))"

record ResourceUsage =
  MemoryUsagePercent :: f64
  FDUsagePercent :: f64
  GoroutineCount :: int
  usage_ActiveConnections :: int

definition usage_percent :: "int \<Rightarrow> int \<Rightarrow> f64" where
  "usage_percent current limit =
    (if limit > 0 then f64_mul (f64_div (f64_of_int current) (f64_of_int limit)) (f64_of_int 100) else Fin 0)"

definition GetCurrentUsage :: "int \<Rightarrow> ResourceMonitor \<Rightarrow> ResourceUsage" where
  "GetCurrentUsage goroutines rm = \<lparr>
     MemoryUsagePercent = usage_percent (currentMemoryMB rm) (maxMemoryMB rm),
     FDUsagePercent = usage_percent (estimateFileDescriptorUsage rm) (maxFileDescriptors rm),
     GoroutineCount = goroutines, usage_ActiveConnections = currentConnections rm \<rparr>"

text \<open>The map of \<open>GetResourceUsage\<close>, whose iteration order does not matter to \<open>IsResourceAvailable\<close>.\<close>

definition usage_entry :: "string \<Rightarrow> int \<Rightarrow> int \<Rightarrow> (string \<times> f64) list" where
  "usage_entry name current limit =
    (if limit > 0 then [(name, f64_div (f64_of_int current) (f64_of_int limit))] else [])"

definition GetResourceUsage :: "ResourceMonitor \<Rightarrow> (string \<times> f64) list" where
  "GetResourceUsage rm = usage_entry ''memory'' (currentMemoryMB rm) (maxMemoryMB rm) @
     usage_entry ''file_descriptors'' (currentFDs rm) (maxFileDescriptors rm) @
     usage_entry ''goroutines'' (currentGoroutines rm) (maxGoroutines rm) @
     usage_entry ''connections'' (currentConnections rm) (rm_maxConnections rm)"

definition IsResourceAvailable :: "ResourceMonitor \<Rightarrow> bool" where
  "IsResourceAvailable rm = list_all (\<lambda>(_, u). \<not> f64_ge u (criticalThreshold rm)) (GetResourceUsage rm)"

definition SetLimits :: "ResourceLimits \<Rightarrow> ResourceMonitor \<Rightarrow> ResourceMonitor" where
  "SetLimits l rm = rm\<lparr> maxMemoryMB := lim_MaxMemoryMB l, maxFileDescriptors := lim_MaxFileDescriptors l,
     maxGoroutines := lim_MaxGoroutines l, rm_maxConnections := lim_MaxConnections l,
     warningThreshold := lim_WarningThreshold l, criticalThreshold := lim_CriticalThreshold l \<rparr>"

record ResourceMetrics =
  memory_mb :: "int \<times> int"
  file_descriptors :: "int \<times> int"
  goroutines :: "int \<times> int"
  rm_connections :: "int \<times> int"
  breaches :: "u64 \<times> u64 \<times> u64 \<times> u64"
  thresholds :: "f64 \<times> f64"

definition ResourceMonitor_GetMetrics :: "ResourceMonitor \<Rightarrow> ResourceMetrics" where
  "ResourceMonitor_GetMetrics rm = \<lparr> memory_mb = (currentMemoryMB rm, maxMemoryMB rm),
     file_descriptors = (currentFDs rm, maxFileDescriptors rm), goroutines = (currentGoroutines rm, maxGoroutines rm),
     rm_connections = (currentConnections rm, rm_maxConnections rm),
     breaches = (memoryBreaches rm, fdBreaches rm, goroutineBreaches rm, connectionBreaches rm),
     thresholds = (warningThreshold rm, criticalThreshold rm) \<rparr>"

section \<open>Breach handler\<close>

record ResourceBreachHandler =
  memoryBreach :: bool
  fdBreach :: bool
  goroutineBreach :: bool
  connectionBreach :: bool
  enableGracefulDegradation :: bool
  rejectNewConnections :: bool
  connectionsRejected :: u64
  degradationEvents :: u64

definition NewResourceBreachHandler :: ResourceBreachHandler where
  "NewResourceBreachHandler = \<lparr> memoryBreach = False, fdBreach = False, goroutineBreach = False, connectionBreach = False,
     enableGracefulDegradation = True, rejectNewConnections = False, connectionsRejected = 0, degradationEvents = 0 \<rparr>"

definition degrade :: "ResourceBreachHandler \<Rightarrow> ResourceBreachHandler" where
  "degrade h = h\<lparr> rejectNewConnections := True, degradationEvents := degradationEvents h + 1 \<rparr>"

definition checkAllBreaches :: "ResourceBreachHandler \<Rightarrow> ResourceBreachHandler" where
  "checkAllBreaches h =
    (if \<not> (memoryBreach h \<or> fdBreach h \<or> goroutineBreach h \<or> connectionBreach h)
     then h\<lparr> rejectNewConnections := False \<rparr> else h)"

definition handleMemoryBreach :: "ResourceBreachHandler \<Rightarrow> ResourceBreachHandler" where
  "handleMemoryBreach h = degrade (h\<lparr> memoryBreach := True \<rparr>)"

definition clearMemoryBreach :: "ResourceBreachHandler \<Rightarrow> ResourceBreachHandler" where
  "clearMemoryBreach h = checkAllBreaches (h\<lparr> memoryBreach := False \<rparr>)"

definition handleFDBreach :: "ResourceBreachHandler \<Rightarrow> ResourceBreachHandler" where
  "handleFDBreach h = degrade (h\<lparr> fdBreach := True \<rparr>)"

definition clearFDBreach :: "ResourceBreachHandler \<Rightarrow> ResourceBreachHandler" where
  "clearFDBreach h = checkAllBreaches (h\<lparr> fdBreach := False \<rparr>)"

definition handleGoroutineBreach :: "ResourceBreachHandler \<Rightarrow> ResourceBreachHandler" where
  "handleGoroutineBreach h = degrade (h\<lparr> goroutineBreach := True \<rparr>)"

definition clearGoroutineBreach :: "ResourceBreachHandler \<Rightarrow> ResourceBreachHandler" where
  "clearGoroutineBreach h = checkAllBreaches (h\<lparr> goroutineBreach := False \<rparr>)"

definition handleConnectionBreach :: "ResourceBreachHandler \<Rightarrow> ResourceBreachHandler" where
  "handleConnectionBreach h = degrade (h\<lparr> connectionBreach := True \<rparr>)"

definition clearConnectionBreach :: "ResourceBreachHandler \<Rightarrow> ResourceBreachHandler" where
  "clearConnectionBreach h = checkAllBreaches (h\<lparr> connectionBreach := False \<rparr>)"

text \<open>The four parts of \<open>CheckResourceLimits\<close>; the handler of the server always has a monitor.\<close>

definition memory_high :: "ResourceUsage \<Rightarrow> bool" where "memory_high u \<longleftrightarrow> f64_gt (MemoryUsagePercent u) (Fin 90)"
definition memory_low :: "ResourceUsage \<Rightarrow> bool" where "memory_low u \<longleftrightarrow> f64_lt (MemoryUsagePercent u) (Fin 80)"
definition fd_high :: "ResourceUsage \<Rightarrow> bool" where "fd_high u \<longleftrightarrow> f64_gt (FDUsagePercent u) (Fin 90)"
definition fd_low :: "ResourceUsage \<Rightarrow> bool" where "fd_low u \<longleftrightarrow> f64_lt (FDUsagePercent u) (Fin 80)"
definition goroutines_high :: "ResourceUsage \<Rightarrow> bool" where "goroutines_high u \<longleftrightarrow> GoroutineCount u > 50000"
definition goroutines_low :: "ResourceUsage \<Rightarrow> bool" where "goroutines_low u \<longleftrightarrow> GoroutineCount u < 40000"
definition connections_high :: "ResourceUsage \<Rightarrow> bool" where "connections_high u \<longleftrightarrow> usage_ActiveConnections u > 95000"
definition connections_low :: "ResourceUsage \<Rightarrow> bool" where "connections_low u \<longleftrightarrow> usage_ActiveConnections u < 90000"

definition check_memory :: "ResourceUsage \<Rightarrow> ResourceBreachHandler \<Rightarrow> ResourceBreachHandler" where
  "check_memory u h =
    (if memory_high u then (if \<not> memoryBreach h then handleMemoryBreach h else h)
     else if memoryBreach h \<and> memory_low u then clearMemoryBreach h else h)"

definition check_fd :: "ResourceUsage \<Rightarrow> ResourceBreachHandler \<Rightarrow> ResourceBreachHandler" where
  "check_fd u h =
    (if fd_high u then (if \<not> fdBreach h then handleFDBreach h else h)
     else if fdBreach h \<and> fd_low u then clearFDBreach h else h)"

definition check_goroutines :: "ResourceUsage \<Rightarrow> ResourceBreachHandler \<Rightarrow> ResourceBreachHandler" where
  "check_goroutines u h =
    (if goroutines_high u then (if \<not> goroutineBreach h then handleGoroutineBreach h else h)
     else if goroutineBreach h \<and> goroutines_low u then clearGoroutineBreach h else h)"

definition check_connections :: "ResourceUsage \<Rightarrow> ResourceBreachHandler \<Rightarrow> ResourceBreachHandler" where
  "check_connections u h =
    (if connections_high u then (if \<not> connectionBreach h then handleConnectionBreach h else h)
     else if connectionBreach h \<and> connections_low u then clearConnectionBreach h else h)"

definition CheckResourceLimits :: "ResourceUsage \<Rightarrow> ResourceBreachHandler \<Rightarrow> ResourceBreachHandler" where
  "CheckResourceLimits u h = check_connections u (check_goroutines u (check_fd u (check_memory u h)))"

definition ShouldRejectConnection :: "ResourceBreachHandler \<Rightarrow> bool" where
  "ShouldRejectConnection h = rejectNewConnections h"

definition GetRejectionReason :: "ResourceBreachHandler \<Rightarrow> string" where
  "GetRejectionReason h =
    (if memoryBreach h then ''server memory limit exceeded''
     else if fdBreach h then ''server file descriptor limit exceeded''
     else if connectionBreach h then ''server connection limit exceeded''
     else if goroutineBreach h then ''server goroutine limit exceeded''
     else ''server resource limit exceeded'')"

text \<open>The text that is written before the connection is closed.\<close>

definition RejectConnection :: "ResourceBreachHandler \<Rightarrow> string \<times> ResourceBreachHandler" where
  "RejectConnection h = (''503 Service Unavailable: '' @ GetRejectionReason h @ [CHR 0x0A],
     h\<lparr> connectionsRejected := connectionsRejected h + 1 \<rparr>)"

record BreachStats =
  stat_memory :: bool
  stat_fd :: bool
  stat_goroutine :: bool
  stat_connection :: bool
  stat_rejecting :: bool
  stat_rejected :: u64
  stat_events :: u64

definition GetBreachStats :: "ResourceBreachHandler \<Rightarrow> BreachStats" where
  "GetBreachStats h = \<lparr> stat_memory = memoryBreach h, stat_fd = fdBreach h, stat_goroutine = goroutineBreach h,
     stat_connection = connectionBreach h, stat_rejecting = rejectNewConnections h,
     stat_rejected = connectionsRejected h, stat_events = degradationEvents h \<rparr>"

lemmas breach_defs = handleMemoryBreach_def clearMemoryBreach_def handleFDBreach_def clearFDBreach_def
  handleGoroutineBreach_def clearGoroutineBreach_def handleConnectionBreach_def clearConnectionBreach_def
  degrade_def checkAllBreaches_def

section \<open>Hysteresis\<close>

text \<open>
  A flag that a high reading sets and a low reading clears is set exactly when some high reading has not been followed by
  a low one.
\<close>

fun latch :: "('u \<Rightarrow> bool) \<Rightarrow> ('u \<Rightarrow> bool) \<Rightarrow> 'u \<Rightarrow> bool \<Rightarrow> bool" where
  "latch hi lo u b = (hi u \<or> b \<and> \<not> lo u)"

definition exceeded :: "('u \<Rightarrow> bool) \<Rightarrow> ('u \<Rightarrow> bool) \<Rightarrow> 'u list \<Rightarrow> bool" where
  "exceeded hi lo us \<longleftrightarrow> (\<exists>i < length us. hi (us ! i) \<and> (\<forall>j < length us. i \<le> j \<longrightarrow> \<not> lo (us ! j)))"

locale flag =
  fixes step :: "'u \<Rightarrow> 's \<Rightarrow> 's" and get :: "'s \<Rightarrow> bool" and hi lo :: "'u \<Rightarrow> bool"
  assumes latches: "get (step u s) = latch hi lo u (get s)"
    and apart: "\<not> (hi u \<and> lo u)"
begin

lemma exceeded_snoc: "exceeded hi lo (us @ [u]) = latch hi lo u (exceeded hi lo us)"
proof -
  have "exceeded hi lo (us @ [u]) \<longleftrightarrow> hi u \<or> (\<exists>i < length us. hi (us ! i) \<and> \<not> lo u \<and> (\<forall>j < length us. i \<le> j \<longrightarrow> \<not> lo (us ! j)))"
    using apart by (auto simp: exceeded_def less_Suc_eq nth_append)
  then show ?thesis by (auto simp: exceeded_def)
qed

lemma set_after: "\<not> get s \<Longrightarrow> get (run step us s) \<longleftrightarrow> exceeded hi lo us"
proof (induction us rule: rev_induct)
  case (snoc u us)
  then have "get (run step us s) \<longleftrightarrow> exceeded hi lo us" by blast
  then show ?case by (simp only: run_append run.simps latches exceeded_snoc)
qed (simp add: exceeded_def)

end

lemma f64_thresholds: "\<not> (f64_gt x (Fin 90) \<and> f64_lt x (Fin 80))"
  by (cases x) auto

text \<open>Each part of the check latches its own flag and leaves the others.\<close>

lemma check_memory_flags [simp]:
  "memoryBreach (check_memory u h) = latch memory_high memory_low u (memoryBreach h)"
  "fdBreach (check_memory u h) = fdBreach h" "goroutineBreach (check_memory u h) = goroutineBreach h" "connectionBreach (check_memory u h) = connectionBreach h"
  using f64_thresholds by (simp_all add: check_memory_def breach_defs memory_high_def memory_low_def)

lemma check_fd_flags [simp]:
  "fdBreach (check_fd u h) = latch fd_high fd_low u (fdBreach h)"
  "memoryBreach (check_fd u h) = memoryBreach h" "goroutineBreach (check_fd u h) = goroutineBreach h" "connectionBreach (check_fd u h) = connectionBreach h"
  using f64_thresholds by (simp_all add: check_fd_def breach_defs fd_high_def fd_low_def)

lemma check_goroutines_flags [simp]:
  "goroutineBreach (check_goroutines u h) = latch goroutines_high goroutines_low u (goroutineBreach h)"
  "memoryBreach (check_goroutines u h) = memoryBreach h" "fdBreach (check_goroutines u h) = fdBreach h" "connectionBreach (check_goroutines u h) = connectionBreach h"
  by (simp_all add: check_goroutines_def breach_defs goroutines_high_def goroutines_low_def)

lemma check_connections_flags [simp]:
  "connectionBreach (check_connections u h) = latch connections_high connections_low u (connectionBreach h)"
  "memoryBreach (check_connections u h) = memoryBreach h" "fdBreach (check_connections u h) = fdBreach h" "goroutineBreach (check_connections u h) = goroutineBreach h"
  by (simp_all add: check_connections_def breach_defs connections_high_def connections_low_def)

interpretation memory_flag: flag CheckResourceLimits memoryBreach memory_high memory_low
  by unfold_locales (simp_all add: CheckResourceLimits_def memory_high_def memory_low_def f64_thresholds)

interpretation fd_flag: flag CheckResourceLimits fdBreach fd_high fd_low
  by unfold_locales (simp_all add: CheckResourceLimits_def fd_high_def fd_low_def f64_thresholds)

interpretation goroutine_flag: flag CheckResourceLimits goroutineBreach goroutines_high goroutines_low
  by unfold_locales (simp_all add: CheckResourceLimits_def goroutines_high_def goroutines_low_def)

interpretation connection_flag: flag CheckResourceLimits connectionBreach connections_high connections_low
  by unfold_locales (simp_all add: CheckResourceLimits_def connections_high_def connections_low_def)

definition breach_inv :: "ResourceBreachHandler \<Rightarrow> bool" where
  "breach_inv h \<longleftrightarrow> rejectNewConnections h = (memoryBreach h \<or> fdBreach h \<or> goroutineBreach h \<or> connectionBreach h)"

lemma breach_inv_checks:
  "breach_inv h \<Longrightarrow> breach_inv (check_memory u h)" "breach_inv h \<Longrightarrow> breach_inv (check_fd u h)"
  "breach_inv h \<Longrightarrow> breach_inv (check_goroutines u h)" "breach_inv h \<Longrightarrow> breach_inv (check_connections u h)"
  by (simp_all add: breach_inv_def check_memory_def check_fd_def check_goroutines_def check_connections_def breach_defs)

interpretation breach: machine CheckResourceLimits "\<lambda>_ _. True" breach_inv
  by unfold_locales (simp add: CheckResourceLimits_def breach_inv_checks)

text \<open>
  C25: after any sequence of checks the server rejects new connections exactly when some resource went over its upper
  threshold and has not been seen below its lower threshold since.
\<close>

theorem rejects_iff_exceeded:
  "ShouldRejectConnection (run CheckResourceLimits us NewResourceBreachHandler) \<longleftrightarrow>
     exceeded memory_high memory_low us \<or> exceeded fd_high fd_low us \<or>
     exceeded goroutines_high goroutines_low us \<or> exceeded connections_high connections_low us"
proof -
  let ?h = "run CheckResourceLimits us NewResourceBreachHandler"
  have "breach_inv ?h" by (rule breach.inv_run) (simp_all add: breach_inv_def NewResourceBreachHandler_def)
  moreover have "memoryBreach ?h = exceeded memory_high memory_low us" "fdBreach ?h = exceeded fd_high fd_low us"
    "goroutineBreach ?h = exceeded goroutines_high goroutines_low us"
    "connectionBreach ?h = exceeded connections_high connections_low us"
    by (simp_all add: NewResourceBreachHandler_def memory_flag.set_after fd_flag.set_after goroutine_flag.set_after
        connection_flag.set_after)
  ultimately show ?thesis by (simp add: ShouldRejectConnection_def breach_inv_def)
qed

end
