(* ===== verification/WorkerPool.thy ===== *)
theory WorkerPool
  imports Channel Runs
begin

text \<open>
  \<open>internal/server/goroutine_pool.go\<close>: the worker pool that runs connection handlers, under every interleaving of its
  atomic operations.  The callers of \<open>Submit\<close>, the manager goroutine and the workers are threads with a program
  counter; a step of a thread is one atomic operation or one operation on the task queue, together with the counters that are
  only reported (\<open>activeWorkers\<close>, \<open>totalTasks\<close>).  A task is any value; running it is
  left to the client.  \<open>pl_accepted\<close> and \<open>pl_started\<close> record the tasks that entered the queue and the tasks
  that a worker took out of it.
\<close>

section \<open>State\<close>

record 'a GoroutinePool =
  workers :: int
  maxWorkers :: int
  minWorkers :: int
  taskQueue :: "'a chan"
  pool_cancelled :: bool
  activeWorkers :: int
  totalTasks :: u64
  completedTasks :: u64
  queuedTasks :: int

definition pool_limits :: "int \<Rightarrow> int \<Rightarrow> int \<Rightarrow> int \<times> int" where
  "pool_limits numCPU minW maxW =
    (let minW = (if minW \<le> 0 then numCPU else minW);
         maxW = (if maxW \<le> 0 then wrap64 (numCPU * 4) else maxW) in
     (minW, if maxW < minW then minW else maxW))"

text \<open>A worker that has been started counts from the start; \<open>Gone\<close> has run its deferred calls.\<close>

datatype 'a worker = Waiting | Got 'a | Running 'a | Leaving | Left | Gone

text \<open>
  Where a thread is in \<open>Submit\<close>.  \<open>Scale b\<close> is about to call \<open>scaleUp\<close>, \<open>Start b\<close> is about to call \<open>startWorker\<close> and
  \<open>Spawn b\<close> has passed its check; \<open>b\<close> says that the task still has to be sent afterwards.
\<close>

datatype 'a caller = Free | Sending 'a | Sent | Tallied | Scale "'a option" | Start "'a option" | Spawn "'a option"
  | Resending 'a | SentAgain | Returned bool

datatype manager = Sleeping | Starts | Spawns

record 'a pool_state =
  pl_pool :: "'a GoroutinePool"
  pl_workers :: "'a worker list"
  pl_callers :: "'a caller list"
  pl_manager :: manager
  pl_accepted :: "'a list"
  pl_started :: "'a list"
  pl_panic :: bool

section \<open>Operations\<close>

definition shouldScaleUp :: "'a GoroutinePool \<Rightarrow> bool" where
  "shouldScaleUp p \<longleftrightarrow> workers p < maxWorkers p \<and> queuedTasks p > wrap32 (workers p * 2)"

definition shouldScaleDown :: "'a GoroutinePool \<Rightarrow> bool" where
  "shouldScaleDown p \<longleftrightarrow> workers p > minWorkers p \<and> queuedTasks p < go_div (workers p) 4"

definition optimize_wants :: "'a GoroutinePool \<Rightarrow> bool" where
  "optimize_wants p \<longleftrightarrow> queuedTasks p > wrap32 (workers p * 3) \<and> workers p < maxWorkers p"

definition add_workers :: "int \<Rightarrow> 'a GoroutinePool \<Rightarrow> 'a GoroutinePool" where
  "add_workers d p = p\<lparr> workers := wrap32 (workers p + d) \<rparr>"

definition add_active :: "int \<Rightarrow> 'a GoroutinePool \<Rightarrow> 'a GoroutinePool" where
  "add_active d p = p\<lparr> activeWorkers := wrap32 (activeWorkers p + d) \<rparr>"

definition add_queued :: "int \<Rightarrow> 'a GoroutinePool \<Rightarrow> 'a GoroutinePool" where
  "add_queued d p = p\<lparr> queuedTasks := wrap32 (queuedTasks p + d) \<rparr>"

text \<open>The tail of \<open>startWorker\<close>: count the worker and start its goroutine.\<close>

definition spawn_worker :: "'a pool_state \<Rightarrow> 'a pool_state" where
  "spawn_worker s = s\<lparr> pl_pool := add_active 1 (add_workers 1 (pl_pool s)), pl_workers := pl_workers s @ [Waiting] \<rparr>"

definition startWorker :: "'a pool_state \<Rightarrow> 'a pool_state" where
  "startWorker s = (if workers (pl_pool s) \<ge> maxWorkers (pl_pool s) then s else spawn_worker s)"

definition scaleUp :: "'a pool_state \<Rightarrow> bool \<times> 'a pool_state" where
  "scaleUp s = (if workers (pl_pool s) < maxWorkers (pl_pool s) then (True, startWorker s) else (False, s))"

definition optimize :: "'a pool_state \<Rightarrow> 'a pool_state" where
  "optimize s = (if optimize_wants (pl_pool s) then startWorker s else s)"

definition count_task :: "'a pool_state \<Rightarrow> 'a pool_state" where
  "count_task s = s\<lparr> pl_pool := add_queued 1 ((pl_pool s)\<lparr> totalTasks := totalTasks (pl_pool s) + 1 \<rparr>) \<rparr>"

definition send_task :: "'a \<Rightarrow> 'a pool_state \<Rightarrow> (bool \<times> 'a pool_state) outcome" where
  "send_task t s = (case try_send t (taskQueue (pl_pool s)) of
     Panic \<Rightarrow> Panic
   | Ret (b, q) \<Rightarrow> Ret (b, s\<lparr> pl_pool := (pl_pool s)\<lparr> taskQueue := q \<rparr>,
       pl_accepted := pl_accepted s @ (if b then [t] else []) \<rparr>))"

text \<open>\<open>Submit\<close> without interruption.\<close>

definition Submit :: "'a \<Rightarrow> 'a pool_state \<Rightarrow> (bool \<times> 'a pool_state) outcome" where
  "Submit t s = (case send_task t s of
     Panic \<Rightarrow> Panic
   | Ret (True, s) \<Rightarrow>
       let s = count_task s in Ret (True, if shouldScaleUp (pl_pool s) then snd (scaleUp s) else s)
   | Ret (False, s) \<Rightarrow>
       (case scaleUp s of
          (True, s) \<Rightarrow> (case send_task t s of
             Panic \<Rightarrow> Panic | Ret (True, s) \<Rightarrow> Ret (True, count_task s) | Ret (False, s) \<Rightarrow> Ret (False, s))
        | (False, s) \<Rightarrow> Ret (False, s)))"

fun start_workers :: "nat \<Rightarrow> 'a pool_state \<Rightarrow> 'a pool_state" where
  "start_workers 0 s = s"
| "start_workers (Suc n) s = start_workers n (startWorker s)"

text \<open>\<open>int32\<close> of the limits wraps; \<open>make(chan ..., n)\<close> panics on a negative size.\<close>

definition fresh_pool :: "nat \<Rightarrow> int \<Rightarrow> int \<Rightarrow> nat \<Rightarrow> 'a pool_state" where
  "fresh_pool callers minW maxW cap =
     \<lparr> pl_pool = \<lparr> workers = 0, maxWorkers = wrap32 maxW, minWorkers = wrap32 minW, taskQueue = make_chan cap,
         pool_cancelled = False, activeWorkers = 0, totalTasks = 0, completedTasks = 0, queuedTasks = 0 \<rparr>,
       pl_workers = [], pl_callers = replicate callers Free, pl_manager = Sleeping,
       pl_accepted = [], pl_started = [], pl_panic = False \<rparr>"

definition NewGoroutinePool :: "nat \<Rightarrow> int \<Rightarrow> int \<Rightarrow> int \<Rightarrow> 'a pool_state outcome" where
  "NewGoroutinePool callers numCPU minW maxW =
    (let (minW, maxW) = pool_limits numCPU minW maxW; cap = wrap64 (maxW * 2) in
     if cap < 0 then Panic else Ret (start_workers (nat minW) (fresh_pool callers minW maxW (nat cap))))"

text \<open>\<open>Stop\<close> cancels the context and closes the queue; then it waits for the workers, for at most its timeout.\<close>

definition pool_Stop :: "'a GoroutinePool \<Rightarrow> 'a GoroutinePool outcome" where
  "pool_Stop p = (case close_chan (taskQueue p) of
     Panic \<Rightarrow> Panic
   | Ret q \<Rightarrow> Ret (p\<lparr> pool_cancelled := True, taskQueue := q \<rparr>))"

record PoolStats =
  ps_Workers :: int
  ps_ActiveWorkers :: int
  ps_QueuedTasks :: int
  ps_TotalTasks :: u64
  ps_CompletedTasks :: u64
  ps_MinWorkers :: int
  ps_MaxWorkers :: int

definition Stats :: "'a GoroutinePool \<Rightarrow> PoolStats" where
  "Stats p = \<lparr> ps_Workers = workers p, ps_ActiveWorkers = activeWorkers p, ps_QueuedTasks = queuedTasks p,
     ps_TotalTasks = totalTasks p, ps_CompletedTasks = completedTasks p, ps_MinWorkers = minWorkers p,
     ps_MaxWorkers = maxWorkers p \<rparr>"

section \<open>Interleaving\<close>

abbreviation set_caller :: "nat \<Rightarrow> 'a caller \<Rightarrow> 'a pool_state \<Rightarrow> 'a pool_state" where
  "set_caller i c s \<equiv> s\<lparr> pl_callers := (pl_callers s)[i := c] \<rparr>"

abbreviation set_worker :: "nat \<Rightarrow> 'a worker \<Rightarrow> 'a pool_state \<Rightarrow> 'a pool_state" where
  "set_worker i w s \<equiv> s\<lparr> pl_workers := (pl_workers s)[i := w] \<rparr>"

abbreviation set_pool :: "'a GoroutinePool \<Rightarrow> 'a pool_state \<Rightarrow> 'a pool_state" where
  "set_pool p s \<equiv> s\<lparr> pl_pool := p \<rparr>"

text \<open>After \<open>scaleUp\<close>: return, or send the task again.\<close>

definition after_scale :: "'a option \<Rightarrow> 'a caller" where
  "after_scale b = (case b of None \<Rightarrow> Returned True | Some t \<Rightarrow> Resending t)"

definition scale_refused :: "'a option \<Rightarrow> 'a caller" where
  "scale_refused b = (case b of None \<Rightarrow> Returned True | Some t \<Rightarrow> Returned False)"

inductive pool_step :: "'a pool_state \<Rightarrow> 'a pool_state \<Rightarrow> bool" where
  submit: "i < length (pl_callers s) \<Longrightarrow> pl_callers s ! i = Free \<Longrightarrow> pool_step s (set_caller i (Sending t) s)"
| send: "i < length (pl_callers s) \<Longrightarrow> pl_callers s ! i = Sending t \<Longrightarrow> send_task t s = Ret (b, s') \<Longrightarrow>
    pool_step s (set_caller i (if b then Sent else Scale (Some t)) s')"
| send_panics: "i < length (pl_callers s) \<Longrightarrow> pl_callers s ! i \<in> {Sending t, Resending t} \<Longrightarrow> send_task t s = Panic \<Longrightarrow>
    pool_step s (s\<lparr> pl_panic := True \<rparr>)"
| count: "i < length (pl_callers s) \<Longrightarrow> pl_callers s ! i = Sent \<Longrightarrow> pool_step s (set_caller i Tallied (count_task s))"
| decide: "i < length (pl_callers s) \<Longrightarrow> pl_callers s ! i = Tallied \<Longrightarrow>
    pool_step s (set_caller i (if shouldScaleUp (pl_pool s) then Scale None else Returned True) s)"
| scale: "i < length (pl_callers s) \<Longrightarrow> pl_callers s ! i = Scale b \<Longrightarrow>
    pool_step s (set_caller i (if workers (pl_pool s) < maxWorkers (pl_pool s) then Start b else scale_refused b) s)"
| start: "i < length (pl_callers s) \<Longrightarrow> pl_callers s ! i = Start b \<Longrightarrow>
    pool_step s (set_caller i (if workers (pl_pool s) \<ge> maxWorkers (pl_pool s) then after_scale b else Spawn b) s)"
| spawn: "i < length (pl_callers s) \<Longrightarrow> pl_callers s ! i = Spawn b \<Longrightarrow> pool_step s (set_caller i (after_scale b) (spawn_worker s))"
| resend: "i < length (pl_callers s) \<Longrightarrow> pl_callers s ! i = Resending t \<Longrightarrow> send_task t s = Ret (b, s') \<Longrightarrow>
    pool_step s (set_caller i (if b then SentAgain else Returned False) s')"
| recount: "i < length (pl_callers s) \<Longrightarrow> pl_callers s ! i = SentAgain \<Longrightarrow>
    pool_step s (set_caller i (Returned True) (count_task s))"
| returns: "i < length (pl_callers s) \<Longrightarrow> pl_callers s ! i = Returned b \<Longrightarrow> pool_step s (set_caller i Free s)"
| manage: "pl_manager s = Sleeping \<Longrightarrow> optimize_wants (pl_pool s) \<Longrightarrow> pool_step s (s\<lparr> pl_manager := Starts \<rparr>)"
| manage_start: "pl_manager s = Starts \<Longrightarrow>
    pool_step s (s\<lparr> pl_manager := (if workers (pl_pool s) \<ge> maxWorkers (pl_pool s) then Sleeping else Spawns) \<rparr>)"
| manage_spawn: "pl_manager s = Spawns \<Longrightarrow> pool_step s ((spawn_worker s)\<lparr> pl_manager := Sleeping \<rparr>)"
| take_task: "j < length (pl_workers s) \<Longrightarrow> pl_workers s ! j = Waiting \<Longrightarrow> recv (taskQueue (pl_pool s)) = Some (Some t, q) \<Longrightarrow>
    pool_step s (set_worker j (Got t) (set_pool ((pl_pool s)\<lparr> taskQueue := q \<rparr>) (s\<lparr> pl_started := pl_started s @ [t] \<rparr>)))"
| begin_task: "j < length (pl_workers s) \<Longrightarrow> pl_workers s ! j = Got t \<Longrightarrow>
    pool_step s (set_worker j (Running t) (set_pool (add_queued (- 1) (pl_pool s)) s))"
| end_task: "j < length (pl_workers s) \<Longrightarrow> pl_workers s ! j = Running t \<Longrightarrow>
    pool_step s (set_worker j Waiting (set_pool ((pl_pool s)\<lparr> completedTasks := completedTasks (pl_pool s) + 1 \<rparr>) s))"
| idle_exit: "j < length (pl_workers s) \<Longrightarrow> pl_workers s ! j = Waiting \<Longrightarrow> shouldScaleDown (pl_pool s) \<or> pool_cancelled (pl_pool s) \<Longrightarrow>
    pool_step s (set_worker j Leaving s)"
| leave: "j < length (pl_workers s) \<Longrightarrow> pl_workers s ! j = Leaving \<Longrightarrow>
    pool_step s (set_worker j Left (set_pool (add_active (- 1) (pl_pool s)) s))"
| gone: "j < length (pl_workers s) \<Longrightarrow> pl_workers s ! j = Left \<Longrightarrow>
    pool_step s (set_worker j Gone (set_pool (add_workers (- 1) (pl_pool s)) s))"
| stops: "pool_Stop (pl_pool s) = Ret p \<Longrightarrow> pool_step s (set_pool p s)"

inductive_cases pool_stepE: "pool_step s s'"

section \<open>Invariants\<close>

lemma count_update:
  assumes "i < length xs"
  shows "int (length (filter P (xs[i := x]))) = int (length (filter P xs)) - of_bool (P (xs ! i)) + of_bool (P x)"
proof -
  have "filter P xs = filter P (take i xs @ xs ! i # drop (Suc i) xs)"
    using id_take_nth_drop [OF assms] by simp
  then show ?thesis by (simp add: upd_conv_take_nth_drop [OF assms])
qed

lemma wrap32_add [simp]:
  "wrap32 (wrap32 x + d) = wrap32 (x + d)" "wrap32 (d + wrap32 x) = wrap32 (d + x)" "wrap32 (wrap32 x - d) = wrap32 (x - d)"
  by (simp_all add: wrap32_def mod_simps algebra_simps)

fun is_Spawn :: "'a caller \<Rightarrow> bool" where
  "is_Spawn (Spawn b) = True"
| "is_Spawn _ = False"

definition uncounted :: "'a caller \<Rightarrow> bool" where
  "uncounted c \<longleftrightarrow> c = Sent \<or> c = SentAgain"

fun is_Got :: "'a worker \<Rightarrow> bool" where
  "is_Got (Got t) = True"
| "is_Got _ = False"

definition live :: "'a pool_state \<Rightarrow> int" where
  "live s = int (length (filter (\<lambda>w. w \<noteq> Gone) (pl_workers s)))"

definition spawning :: "'a pool_state \<Rightarrow> int" where
  "spawning s = int (length (filter is_Spawn (pl_callers s))) + of_bool (pl_manager s = Spawns)"

text \<open>The counters are exact: live goroutines, and tasks in the queue or taken but not yet counted down.\<close>

definition pool_counters :: "'a pool_state \<Rightarrow> bool" where
  "pool_counters s \<longleftrightarrow> workers (pl_pool s) = wrap32 (live s) \<and>
     queuedTasks (pl_pool s) = wrap32 (int (length (chan_buf (taskQueue (pl_pool s))))
       + int (length (filter is_Got (pl_workers s))) - int (length (filter uncounted (pl_callers s))))"

definition pool_order :: "'a pool_state \<Rightarrow> bool" where
  "pool_order s \<longleftrightarrow> pl_accepted s = pl_started s @ chan_buf (taskQueue (pl_pool s))"

text \<open>Every thread that may start a worker holds at most one outdated permission to do so.\<close>

definition pool_bound :: "int \<Rightarrow> nat \<Rightarrow> 'a pool_state \<Rightarrow> bool" where
  "pool_bound m n s \<longleftrightarrow> maxWorkers (pl_pool s) = m \<and> length (pl_callers s) = n \<and> live s + spawning s \<le> m + int n"

lemma spawning_le: "spawning s \<le> int (length (pl_callers s)) + 1"
proof -
  have "int (length (filter is_Spawn (pl_callers s))) \<le> int (length (pl_callers s))"
    by (simp only: of_nat_le_iff length_filter_le)
  moreover have "of_bool (pl_manager s = Spawns) \<le> (1 :: int)" by simp
  ultimately show ?thesis unfolding spawning_def by (rule add_mono)
qed

lemma live_nonneg: "0 \<le> live s" "0 \<le> spawning s"
  by (simp_all add: live_def spawning_def)

lemma caller_simps [simp]:
  "\<not> is_Spawn (after_scale b)" "\<not> uncounted (after_scale b)" "\<not> is_Spawn (scale_refused b)" "\<not> uncounted (scale_refused b)"
  by (cases b; simp add: after_scale_def scale_refused_def uncounted_def)+

lemma uncounted_simps [simp]:
  "uncounted Sent" "uncounted SentAgain" "\<not> uncounted Free" "\<not> uncounted (Sending t)" "\<not> uncounted Tallied"
  "\<not> uncounted (Scale b)" "\<not> uncounted (Start b)" "\<not> uncounted (Spawn b)" "\<not> uncounted (Resending t)" "\<not> uncounted (Returned r)"
  by (simp_all add: uncounted_def)

lemma send_taskD:
  assumes "send_task t s = Ret (b, s')"
  shows "pl_workers s' = pl_workers s \<and> pl_callers s' = pl_callers s \<and> pl_manager s' = pl_manager s \<and>
    pl_started s' = pl_started s \<and> pl_accepted s' = pl_accepted s @ (if b then [t] else []) \<and>
    workers (pl_pool s') = workers (pl_pool s) \<and> maxWorkers (pl_pool s') = maxWorkers (pl_pool s) \<and>
    queuedTasks (pl_pool s') = queuedTasks (pl_pool s) \<and>
    chan_buf (taskQueue (pl_pool s')) = chan_buf (taskQueue (pl_pool s)) @ (if b then [t] else [])"
  using assms by (auto simp: send_task_def dest: ch.put_law split: outcome.splits prod.splits)

lemma pool_StopD:
  "pool_Stop p = Ret p' \<Longrightarrow> workers p' = workers p \<and> maxWorkers p' = maxWorkers p \<and> queuedTasks p' = queuedTasks p \<and>
    chan_buf (taskQueue p') = chan_buf (taskQueue p)"
  by (auto simp: pool_Stop_def close_chan_def split: if_splits)

lemmas pool_ops = spawn_worker_def count_task_def add_workers_def add_active_def add_queued_def

lemma recv_buf: "recv q = Some (Some t, q') \<Longrightarrow> chan_buf q = t # chan_buf q'"
  by (auto dest: ch.get_law)

lemma pool_order_step: "pool_order s \<Longrightarrow> pool_step s s' \<Longrightarrow> pool_order s'"
  by (erule pool_stepE) (auto simp: pool_order_def pool_ops dest!: send_taskD pool_StopD recv_buf)

lemma pool_counters_step: "pool_counters s \<Longrightarrow> pool_step s s' \<Longrightarrow> pool_counters s'"
  by (erule pool_stepE)
    (auto simp: pool_counters_def live_def pool_ops count_update algebra_simps dest!: send_taskD pool_StopD recv_buf)

lemma workers_exact:
  assumes "pool_counters s" "pool_bound m n s" "m + int n < 2 ^ 31"
  shows "workers (pl_pool s) = live s"
  using assms live_nonneg [of s] by (simp add: pool_counters_def pool_bound_def in_i32_def)

lemma grant_bound:
  assumes "live s < m" "length (pl_callers s) = n"
  shows "live s + spawning s \<le> m + int n"
  using assms spawning_le [of s] by linarith

lemma pool_bound_step:
  assumes b: "pool_bound m n s" and w: "workers (pl_pool s) = live s" and step: "pool_step s s'"
  shows "pool_bound m n s'"
proof -
  have m: "maxWorkers (pl_pool s) = m" and n: "length (pl_callers s) = n" and le: "live s + spawning s \<le> m + int n"
    using b by (simp_all add: pool_bound_def)
  show ?thesis
    using step
  proof cases
    case (start i b)
    show ?thesis
    proof (cases "workers (pl_pool s) \<ge> maxWorkers (pl_pool s)")
      case True
      then show ?thesis using start m n le by (simp add: pool_bound_def live_def spawning_def count_update)
    next
      case False
      have "live s' + spawning s' \<le> m + int n"
        using False w m n start by (intro grant_bound) (simp_all add: live_def)
      then show ?thesis using start m n by (simp add: pool_bound_def)
    qed
  next
    case manage_start
    show ?thesis
    proof (cases "workers (pl_pool s) \<ge> maxWorkers (pl_pool s)")
      case True
      then show ?thesis using manage_start m n le by (simp add: pool_bound_def live_def spawning_def)
    next
      case False
      have "live s' + spawning s' \<le> m + int n"
        using False w m n manage_start by (intro grant_bound) (simp_all add: live_def)
      then show ?thesis using manage_start m n by (simp add: pool_bound_def)
    qed
  qed (use m n le in \<open>auto simp: pool_bound_def live_def spawning_def pool_ops count_update dest!: send_taskD pool_StopD\<close>)
qed

definition pool_inv :: "int \<Rightarrow> nat \<Rightarrow> 'a pool_state \<Rightarrow> bool" where
  "pool_inv m n s \<longleftrightarrow> m + int n < 2 ^ 31 \<and> pool_order s \<and> pool_counters s \<and> pool_bound m n s"

interpretation pool: step_invariant pool_step "pool_inv m n" for m n
proof
  fix s s' :: "'a pool_state"
  assume inv: "pool_inv m n s" and step: "pool_step s s'"
  then have "workers (pl_pool s) = live s" using workers_exact by (auto simp: pool_inv_def)
  then show "pool_inv m n s'"
    using inv step by (auto simp: pool_inv_def intro: pool_order_step pool_counters_step pool_bound_step)
qed

section \<open>A new pool\<close>

lemma start_workers_inv:
  assumes "pool_inv m n s" "spawning s = 0" "live s \<le> m"
  shows "pool_inv m n (start_workers k s) \<and> spawning (start_workers k s) = 0 \<and> live (start_workers k s) \<le> m \<and>
    pl_panic (start_workers k s) = pl_panic s \<and> pl_callers (start_workers k s) = pl_callers s"
  using assms
proof (induction k arbitrary: s)
  case (Suc k)
  have w: "workers (pl_pool s) = live s" "maxWorkers (pl_pool s) = m"
    using Suc.prems(1) workers_exact [of s m n] by (simp_all add: pool_inv_def) (simp add: pool_bound_def)
  have one: "pool_inv m n (startWorker s) \<and> spawning (startWorker s) = 0 \<and> live (startWorker s) \<le> m \<and>
      pl_panic (startWorker s) = pl_panic s \<and> pl_callers (startWorker s) = pl_callers s"
  proof (cases "live s < m")
    case True
    have l: "live (spawn_worker s) = live s + 1" "spawning (spawn_worker s) = spawning s"
      by (simp_all add: live_def spawning_def spawn_worker_def)
    have "pool_counters (spawn_worker s)" "pool_order (spawn_worker s)"
      using Suc.prems(1) l(1) by (auto simp: pool_inv_def pool_counters_def pool_order_def pool_ops)
    moreover have "pool_bound m n (spawn_worker s)"
      using Suc.prems True l by (auto simp: pool_inv_def pool_bound_def pool_ops)
    ultimately show ?thesis
      using True w l Suc.prems by (simp add: startWorker_def pool_inv_def) (simp add: spawn_worker_def)
  qed (use w Suc.prems in \<open>simp add: startWorker_def\<close>)
  have "pool_inv m n (startWorker s)" "spawning (startWorker s) = 0" "live (startWorker s) \<le> m" using one by auto
  from Suc.IH [OF this] one show ?case by simp
qed simp

lemma New_inv:
  assumes "NewGoroutinePool n numCPU minW maxW = Ret s" "pool_limits numCPU minW maxW = (lo, hi)" "0 \<le> lo" "hi + int n < 2 ^ 31"
  shows "pool_inv hi n s \<and> \<not> pl_panic s \<and> pl_callers s = replicate n Free"
proof -
  have hi: "0 \<le> hi" using assms(2,3) by (auto simp: pool_limits_def Let_def split: if_splits)
  then have w: "wrap32 hi = hi" using assms(4) by (simp add: in_i32_def)
  obtain s0 where s: "s = start_workers (nat lo) s0" and s0: "pl_workers s0 = []" "pl_callers s0 = replicate n Free"
      "pl_manager s0 = Sleeping" "pl_accepted s0 = []" "pl_started s0 = []" "\<not> pl_panic s0" "workers (pl_pool s0) = 0"
      "maxWorkers (pl_pool s0) = hi" "queuedTasks (pl_pool s0) = 0" "chan_buf (taskQueue (pl_pool s0)) = []"
    using assms(1,2) w by (auto simp: NewGoroutinePool_def fresh_pool_def Let_def make_chan_def split: if_splits)
  have z: "wrap32 0 = 0" by (simp add: in_i32_def)
  have "live s0 = 0" "spawning s0 = 0" by (simp_all add: live_def spawning_def s0)
  moreover from this have "pool_inv hi n s0"
    using hi assms(4) by (simp add: pool_inv_def pool_order_def pool_counters_def pool_bound_def s0 z)
  ultimately show ?thesis using start_workers_inv [of hi n s0 "nat lo"] hi s s0 by simp
qed

section \<open>Submit as a run\<close>

lemma send_task_at: "send_task t (s\<lparr> pl_callers := c \<rparr>) =
    (case send_task t s of Panic \<Rightarrow> Panic | Ret (b, s') \<Rightarrow> Ret (b, s'\<lparr> pl_callers := c \<rparr>))"
  by (simp add: send_task_def split: outcome.split prod.split)

lemma ops_at:
  "count_task (s\<lparr> pl_callers := c \<rparr>) = (count_task s)\<lparr> pl_callers := c \<rparr>"
  "spawn_worker (s\<lparr> pl_callers := c \<rparr>) = (spawn_worker s)\<lparr> pl_callers := c \<rparr>"
  "pl_callers (count_task s) = pl_callers s" "pl_callers (spawn_worker s) = pl_callers s"
  by (simp_all add: pool_ops)

abbreviation at :: "nat \<Rightarrow> 'a caller \<Rightarrow> 'a pool_state \<Rightarrow> 'a pool_state" where
  "at i c s \<equiv> s\<lparr> pl_callers := (pl_callers s)[i := c] \<rparr>"

lemma at_send:
  assumes "send_task t s = Ret (b, s')" "i < length (pl_callers s)"
  shows "pool_step (at i (Sending t) s) (at i (if b then Sent else Scale (Some t)) s')"
    "pool_step (at i (Resending t) s) (at i (if b then SentAgain else Returned False) s')"
  using pool_step.send [of i "at i (Sending t) s" t b "at i (Sending t) s'"]
    pool_step.resend [of i "at i (Resending t) s" t b "at i (Resending t) s'"] assms send_taskD [OF assms(1)]
  by (simp_all add: send_task_at)

lemma at_count:
  assumes "i < length (pl_callers s)"
  shows "pool_step (at i Sent s) (at i Tallied (count_task s))" "pool_step (at i SentAgain s) (at i (Returned True) (count_task s))"
  using pool_step.count [of i "at i Sent s"] pool_step.recount [of i "at i SentAgain s"] assms by (simp_all add: ops_at)

lemma at_scale:
  assumes "i < length (pl_callers s)" "scaleUp s = (b, s')"
  shows "pool_step\<^sup>*\<^sup>* (at i (Scale c) s) (at i (if b then after_scale c else scale_refused c) s')"
proof (cases "workers (pl_pool s) < maxWorkers (pl_pool s)")
  case True
  have "pool_step (at i (Scale c) s) (at i (Start c) s)"
    using pool_step.scale [of i "at i (Scale c) s" c] assms(1) True by simp
  moreover have "pool_step (at i (Start c) s) (at i (Spawn c) s)"
    using pool_step.start [of i "at i (Start c) s" c] assms(1) True by simp
  moreover have "pool_step (at i (Spawn c) s) (at i (after_scale c) (spawn_worker s))"
    using pool_step.spawn [of i "at i (Spawn c) s" c] assms(1) by (simp add: ops_at)
  moreover have "b" "s' = spawn_worker s" using assms(2) True by (simp_all add: scaleUp_def startWorker_def)
  ultimately show ?thesis by (auto intro: converse_rtranclp_into_rtranclp)
next
  case False
  have "pool_step (at i (Scale c) s) (at i (scale_refused c) s)"
    using pool_step.scale [of i "at i (Scale c) s" c] assms(1) False by simp
  then show ?thesis using assms(2) False by (auto simp: scaleUp_def)
qed

lemma at_returns: "i < length (pl_callers s) \<Longrightarrow> pl_callers s ! i = Free \<Longrightarrow> pool_step (at i (Returned b) s) s"
  using pool_step.returns [of i "at i (Returned b) s" b] by simp (metis list_update_id pool_state.surjective pool_state.update_convs(3))

lemma callers_scaleUp: "scaleUp s = (b, s') \<Longrightarrow> pl_callers s' = pl_callers s"
  by (auto simp: scaleUp_def startWorker_def ops_at split: if_splits)

lemma at_sent:
  assumes i: "i < length (pl_callers s)" "pl_callers s ! i = Free" and s3: "scaleUp (count_task s) = (b, s')"
  shows "pool_step\<^sup>*\<^sup>* (at i Sent s) (if shouldScaleUp (pl_pool (count_task s)) then s' else count_task s)"
proof -
  let ?s = "count_task s"
  have t: "pool_step (at i Sent s) (at i Tallied ?s)" using at_count(1) i(1) .
  have d: "pool_step (at i Tallied ?s) (at i (if shouldScaleUp (pl_pool ?s) then Scale None else Returned True) ?s)"
    using pool_step.decide [of i "at i Tallied ?s"] i(1) by (simp add: ops_at)
  have r: "pool_step (at i (Returned True) s') s'" "pool_step (at i (Returned True) ?s) ?s"
    using at_returns [of i s' True] at_returns [of i ?s True] callers_scaleUp [OF s3] i by (simp_all add: ops_at)
  have "pool_step\<^sup>*\<^sup>* (at i (Scale None) ?s) (at i (Returned True) s')"
    using at_scale [OF _ s3, of i None] i(1) by (simp add: ops_at after_scale_def scale_refused_def split: if_splits)
  then show ?thesis
    using t d r by (auto intro: converse_rtranclp_into_rtranclp rtranclp.rtrancl_into_rtrancl split: if_splits)
qed

lemma at_resend:
  assumes i: "i < length (pl_callers s)" "pl_callers s ! i = Free" and s4: "send_task t s = Ret (b, s')"
  shows "pool_step\<^sup>*\<^sup>* (at i (Resending t) s) (if b then count_task s' else s')"
proof -
  note c = send_taskD [OF s4]
  have "pool_step (at i (Resending t) s) (at i (if b then SentAgain else Returned False) s')"
    using at_send(2) [OF s4 i(1)] .
  moreover have "pool_step (at i SentAgain s') (at i (Returned True) (count_task s'))"
    using at_count(2) [of i s'] i(1) c by simp
  moreover have "pool_step (at i (Returned True) (count_task s')) (count_task s')" "pool_step (at i (Returned False) s') s'"
    using at_returns [of i "count_task s'" True] at_returns [of i s' False] i c by (simp_all add: ops_at)
  ultimately show ?thesis by (auto intro: converse_rtranclp_into_rtranclp split: if_splits)
qed

lemma at_full:
  assumes i: "i < length (pl_callers s)" "pl_callers s ! i = Free" and s3: "scaleUp s = (b, s')"
  shows "b \<Longrightarrow> send_task t s' = Ret (r, s'') \<Longrightarrow>
      pool_step\<^sup>*\<^sup>* (at i (Scale (Some t)) s) (if r then count_task s'' else s'')"
    "\<not> b \<Longrightarrow> pool_step\<^sup>*\<^sup>* (at i (Scale (Some t)) s) s'"
proof -
  have c: "pl_callers s' = pl_callers s" using callers_scaleUp [OF s3] .
  note up = at_scale [OF i(1) s3, of "Some t"]
  show "pool_step\<^sup>*\<^sup>* (at i (Scale (Some t)) s) (if r then count_task s'' else s'')"
    if "b" "send_task t s' = Ret (r, s'')"
    using up that(1) at_resend [OF _ _ that(2), of i] i c by (simp add: after_scale_def split: if_splits)
  show "pool_step\<^sup>*\<^sup>* (at i (Scale (Some t)) s) s'" if "\<not> b"
    using up that at_returns [of i s' False] i c by (simp add: scale_refused_def rtranclp.rtrancl_into_rtrancl)
qed

text \<open>\<open>Submit\<close> without interruption is one of the interleavings.\<close>

lemma Submit_runs:
  assumes i: "i < length (pl_callers s)" "pl_callers s ! i = Free" and t: "Submit t s = Ret (b, s')"
  shows "pool_step\<^sup>*\<^sup>* s s'"
proof -
  obtain b1 s1 where s1: "send_task t s = Ret (b1, s1)" using t by (auto simp: Submit_def split: outcome.splits)
  note c1 = send_taskD [OF s1]
  have first: "pool_step\<^sup>*\<^sup>* s (at i (if b1 then Sent else Scale (Some t)) s1)"
    using pool_step.submit [OF i, of t] at_send(1) [OF s1 i(1)] by (auto intro: converse_rtranclp_into_rtranclp)
  obtain b2 s2 where s2: "scaleUp (count_task s1) = (b2, s2)" by (rule prod.exhaust)
  obtain b3 s3 where s3: "scaleUp s1 = (b3, s3)" by (rule prod.exhaust)
  consider (sent) "b1" | (again) b4 s4 where "\<not> b1" "b3" "send_task t s3 = Ret (b4, s4)" | (full) "\<not> b1" "\<not> b3"
    using t s1 s3 by (cases b1; cases b3; cases "send_task t s3") (auto simp: Submit_def)
  then have "pool_step\<^sup>*\<^sup>* (at i (if b1 then Sent else Scale (Some t)) s1) s'"
  proof cases
    case sent
    then have "s' = (if shouldScaleUp (pl_pool (count_task s1)) then s2 else count_task s1)"
      using t s1 s2 by (simp add: Submit_def Let_def split: if_splits)
    then show ?thesis using at_sent [OF _ _ s2, of i] sent i c1 by simp
  next
    case again
    then have "s' = (if b4 then count_task s4 else s4)" using t s1 s3 by (cases b4) (simp_all add: Submit_def)
    then show ?thesis using at_full(1) [OF _ _ s3, of i t b4 s4] again i c1 by simp
  next
    case full
    then have "s' = s3" using t s1 s3 by (simp add: Submit_def)
    then show ?thesis using at_full(2) [OF _ _ s3, of i t] full i c1 by simp
  qed
  then show ?thesis using first by simp
qed

section \<open>Properties\<close>

text \<open>
  C31: under every interleaving of \<open>n\<close> callers of \<open>Submit\<close>, the manager, the workers and \<open>Stop\<close>, the tasks that were
  accepted are the tasks that workers took, in that order, followed by the tasks in the queue; the counter \<open>workers\<close> is the
  number of live worker goroutines; and there are never more than \<open>maxWorkers\<close> plus \<open>n\<close> of them.
\<close>

theorem pool_sound:
  assumes "NewGoroutinePool n numCPU minW maxW = Ret s0" "pool_limits numCPU minW maxW = (lo, hi)" "0 \<le> lo"
    and "hi + int n < 2 ^ 31" "pool_step\<^sup>*\<^sup>* s0 s"
  shows "pl_accepted s = pl_started s @ chan_buf (taskQueue (pl_pool s)) \<and>
    workers (pl_pool s) = live s \<and> live s \<le> hi + int n"
proof -
  have "pool_inv hi n s" using pool.holds_reachable [OF assms(5)] New_inv [OF assms(1-4)] by blast
  then show ?thesis using workers_exact [of s hi n] live_nonneg [of s]
    by (simp add: pool_inv_def pool_order_def pool_bound_def)
qed

text \<open>
  A \<open>Submit\<close> that races with \<open>Stop\<close> panics: from every state with an idle caller and an open queue, a run leads to
  a send on the closed queue.
\<close>

theorem submit_races_with_stop:
  assumes "i < length (pl_callers s)" "pl_callers s ! i = Free" "\<not> chan_closed (taskQueue (pl_pool s))"
  shows "\<exists>s'. pool_step\<^sup>*\<^sup>* s s' \<and> pl_panic s'"
proof -
  let ?s1 = "at i (Sending t) s"
  obtain p where p: "pool_Stop (pl_pool s) = Ret p" "chan_closed (taskQueue p)"
    using assms(3) by (auto simp: pool_Stop_def close_chan_def)
  let ?s2 = "set_pool p ?s1"
  have "pool_step s ?s1" using assms(1,2) by (rule pool_step.submit)
  moreover have "pool_step ?s1 ?s2" using p(1) by (intro pool_step.stops) simp
  moreover have "pool_step ?s2 (?s2\<lparr> pl_panic := True \<rparr>)"
    using assms(1) p(2) by (intro pool_step.send_panics [of i _ t]) (simp_all add: send_task_def try_send_def)
  ultimately have "pool_step\<^sup>*\<^sup>* s (?s2\<lparr> pl_panic := True \<rparr>)" by (auto intro: converse_rtranclp_into_rtranclp)
  then show ?thesis by (rule exI [where x = "?s2\<lparr> pl_panic := True \<rparr>", OF conjI]) simp
qed

section \<open>A run\<close>

definition sample_pool :: "nat pool_state" where
  "sample_pool = start_workers 2 (fresh_pool 1 2 8 16)"

lemma sample_pool_parts:
  "NewGoroutinePool 1 2 0 0 = Ret sample_pool" "pl_callers sample_pool = [Free]" "pl_accepted sample_pool = []"
  "\<not> chan_closed (taskQueue (pl_pool sample_pool))" "chan_cap (taskQueue (pl_pool sample_pool)) = 16"
  "chan_buf (taskQueue (pl_pool sample_pool)) = []" "pool_limits 2 0 0 = (2, 8)"
  by (simp_all add: sample_pool_def NewGoroutinePool_def fresh_pool_def pool_limits_def wrap64_def wrap32_def numeral_2_eq_2 startWorker_def
      pool_ops make_chan_def)

theorem pool_sound_witness:
  "\<exists>s. pool_step\<^sup>*\<^sup>* sample_pool s \<and> pl_accepted s = [7] \<and>
     pl_accepted s = pl_started s @ chan_buf (taskQueue (pl_pool s)) \<and> workers (pl_pool s) = live s \<and> live s \<le> 9"
proof -
  obtain b s where s: "Submit 7 sample_pool = Ret (b, s)" "pl_accepted s = [7]"
    by (auto simp: Submit_def send_task_def try_send_def sample_pool_parts scaleUp_def startWorker_def pool_ops Let_def)
  then have r: "pool_step\<^sup>*\<^sup>* sample_pool s" by (intro Submit_runs [of 0 _ 7 b]) (simp_all add: sample_pool_parts)
  show ?thesis using pool_sound [OF sample_pool_parts(1,7) _ _ r] r s(2) by auto
qed

theorem submit_races_with_stop_witness: "\<exists>s'. pool_step\<^sup>*\<^sup>* sample_pool s' \<and> pl_panic s'"
  by (rule submit_races_with_stop [of 0]) (simp_all add: sample_pool_parts)

end
