(* ===== verification/Server.thy ===== *)
theory Server
  imports Session IpFilter Ddos Resources WorkerPool
begin

text \<open>
  \<open>internal/server/server.go\<close>: the accept loop, the life of a connection, authentication and shutdown, as one system with
  the sessions of all clients.

  The server record holds the fields of the Go struct that other parts read; the TLS, Prometheus and health components
  are not part of it.  A client is one accepted network connection: its address, what it will send, and how far
  \<open>handleConnection\<close> has got with it.  The goroutines are the accept loop (\<open>sv_accept\<close> says where it is), one per
  client, the pool, and the goroutines of every session.  \<open>sv_crashed\<close> records a panic that nothing recovers.
\<close>

section \<open>State\<close>

record Server =
  srv_config :: ServerConfig
  srv_auth :: Authenticator
  srv_conns :: "(string, nat) fmap"
  activeConns :: int
  srv_ctx :: "go_error option"
  srv_closed :: bool
  srv_wg :: int
  totalConns :: u64
  authSuccess :: u64
  authFailures :: u64
  authRateLimited :: u64
  ipFilter :: "IPFilter option"
  srv_ddos :: DDoSProtection
  srv_breach :: ResourceBreachHandler
  srv_listening :: bool

definition NewServer :: "ServerConfig \<Rightarrow> Config \<Rightarrow> Server" where
  "NewServer cfg acfg = \<lparr> srv_config = cfg, srv_auth = NewAuthenticator acfg, srv_conns = fmempty, activeConns = 0, srv_ctx = None,
     srv_closed = False, srv_wg = 0, totalConns = 0, authSuccess = 0, authFailures = 0, authRateLimited = 0, ipFilter = None,
     srv_ddos = NewDDoSProtection, srv_breach = NewResourceBreachHandler, srv_listening = False \<rparr>"

text \<open>
  \<open>Start\<close>: \<open>tls\<close> is the result of validating the TLS settings and \<open>listen\<close> that of creating the listener.
\<close>

definition Server_Start :: "go_error option \<Rightarrow> go_error option \<Rightarrow> Server \<Rightarrow> go_error option \<times> Server" where
  "Server_Start tls listen s =
    (if srv_closed s then (Some (E ErrServerClosed), s)
     else (case tls of
       Some e \<Rightarrow> (Some (Wrapf ''TLS configuration validation failed'' e), s)
     | None \<Rightarrow>
       (case NewIPFilterFromStrings (AllowCIDRs (srv_config s)) (BlockCIDRs (srv_config s)) of
          Inl e \<Rightarrow> (Some (Wrapf ''invalid IP filter configuration'' e), s)
        | Inr ipf \<Rightarrow>
          let s = s\<lparr> ipFilter := Some ipf \<rparr> in
          (case listen of
             Some e \<Rightarrow> (Some (Wrapf ''failed to create listener'' e), s)
           | None \<Rightarrow> (None, s\<lparr> srv_listening := True, srv_wg := srv_wg s + 1 \<rparr>)))))"

section \<open>Gates of the accept loop\<close>

definition filter_gate :: "string \<Rightarrow> Server \<Rightarrow> bool outcome" where
  "filter_gate addr s = (case ipFilter s of
     None \<Rightarrow> Ret True
   | Some f \<Rightarrow> IPFilter_Allow (Some f) (ParseIP (case SplitHostPort addr of Inr (host, _) \<Rightarrow> host | Inl _ \<Rightarrow> [])))"

definition limit_gate :: "Server \<Rightarrow> bool" where
  "limit_gate s \<longleftrightarrow> \<not> activeConns s \<ge> wrap32 (MaxConnections (srv_config s))"

section \<open>Authentication of a connection\<close>

text \<open>The \<open>select\<close> before the first read takes one of its ready cases.\<close>

datatype auth_case = AuthTimer | AuthCancelled | AuthDefault

fun auth_ready :: "(nat \<Rightarrow> time) \<Rightarrow> Server \<Rightarrow> auth_case \<Rightarrow> bool" where
  "auth_ready now s AuthTimer = (now 0 + AuthTimeout (srv_config s) \<le> now 1)"
| "auth_ready now s AuthCancelled = (srv_ctx s \<noteq> None)"
| "auth_ready now s AuthDefault = (\<not> now 0 + AuthTimeout (srv_config s) \<le> now 1 \<and> srv_ctx s = None)"

datatype process_result = Returns "go_error option" Connection | Serves sess

text \<open>An ignored error of a send.\<close>

definition sent_conn :: "(go_error option \<times> Connection) outcome \<Rightarrow> Connection outcome" where
  "sent_conn r = (case r of Panic \<Rightarrow> Panic | Ret (_, c) \<Rightarrow> Ret c)"

definition auth_failed :: "protobuf \<Rightarrow> (nat \<Rightarrow> time) \<Rightarrow> go_error \<Rightarrow> Connection \<Rightarrow> Server \<Rightarrow> (process_result \<times> Server) outcome" where
  "auth_failed pb now err c s = (case sent_conn (SendAuthError pb now c) of
     Panic \<Rightarrow> Panic
   | Ret c \<Rightarrow> Ret (Returns (Some err) c,
       if errors_is err (E Auth_ErrRateLimited) then s\<lparr> authRateLimited := authRateLimited s + 1 \<rparr>
       else s\<lparr> authFailures := authFailures s + 1 \<rparr>))"

definition auth_succeeded :: "protobuf \<Rightarrow> (nat \<Rightarrow> time) \<Rightarrow> Session \<Rightarrow> Connection \<Rightarrow> Server \<Rightarrow> (process_result \<times> Server) outcome" where
  "auth_succeeded pb now session c s =
    (let s = s\<lparr> authSuccess := authSuccess s + 1 \<rparr>; c = SetAuthenticated session c in
     case SendAuthSuccess pb now c of
       Panic \<Rightarrow> Panic
     | Ret (Some err, c) \<Rightarrow> Ret (Returns (Some err) c, s)
     | Ret (None, c) \<Rightarrow>
       (case sess_init (\<lambda>k. now (k + 2)) (SetReadDeadline 0 c) (srv_config s) (Some (authFailures s)) of
          Panic \<Rightarrow> Panic
        | Ret se \<Rightarrow> Ret (Serves se, s)))"

definition first_frame :: "protobuf \<Rightarrow> (nat \<Rightarrow> time) \<Rightarrow> Frame \<Rightarrow> Connection \<Rightarrow> Server \<Rightarrow> (process_result \<times> Server) outcome" where
  "first_frame pb now frame c s = (case ValidateFirstFrame frame of
     Some err \<Rightarrow> (case sent_conn (SendErrorCode pb now ERROR_CODE_AUTH_REQUIRED c) of
         Panic \<Rightarrow> Panic
       | Ret c \<Rightarrow> Ret (Returns (Some err) c, s\<lparr> authFailures := authFailures s + 1 \<rparr>))
   | None \<Rightarrow> (case Authenticate (unmarshal_Auth pb) now (conn_remote c) frame (srv_auth s) of
         (Inl err, a) \<Rightarrow> auth_failed pb (\<lambda>k. now (k + 3)) err c (s\<lparr> srv_auth := a \<rparr>)
       | (Inr session, a) \<Rightarrow> auth_succeeded pb (\<lambda>k. now (k + 3)) session c (s\<lparr> srv_auth := a \<rparr>)))"

text \<open>\<open>processConnection\<close> up to the point where the handler starts to serve the client.\<close>

definition processConnection :: "protobuf \<Rightarrow> (nat \<Rightarrow> time) \<Rightarrow> auth_case \<Rightarrow> Connection \<Rightarrow> Server
    \<Rightarrow> (process_result \<times> Server) outcome" where
  "processConnection pb now a c s = (case a of
     AuthTimer \<Rightarrow> (case SendError pb (\<lambda>k. now (k + 2)) ERROR_CODE_HEARTBEAT_TIMEOUT ''authentication timeout'' c of
         Panic \<Rightarrow> Panic | Ret (e, c) \<Rightarrow> Ret (Returns e c, s))
   | AuthCancelled \<Rightarrow> Ret (Returns (srv_ctx s) c, s)
   | AuthDefault \<Rightarrow>
       (case Conn_ReadFrame (\<lambda>k. now (k + 3)) (SetReadDeadline (now 2 + AuthTimeout (srv_config s)) c) of
          (Panic, c) \<Rightarrow> Panic
        | (Ret (Inl err), c) \<Rightarrow> Ret (Returns (Some err) c, s)
        | (Ret (Inr frame), c) \<Rightarrow> first_frame pb (\<lambda>k. now (k + 5)) frame c s))"

section \<open>The connection table\<close>

definition registerConnection :: "string \<Rightarrow> nat \<Rightarrow> Server \<Rightarrow> Server" where
  "registerConnection ident i s = s\<lparr> srv_conns := fmupd ident i (srv_conns s) \<rparr>"

definition unregisterConnection :: "string \<Rightarrow> string \<Rightarrow> Server \<Rightarrow> Server" where
  "unregisterConnection ident remote s =
    s\<lparr> srv_conns := fmdrop ident (srv_conns s), srv_auth := RemoveSession remote (srv_auth s) \<rparr>"

definition enter_connection :: "Server \<Rightarrow> Server" where
  "enter_connection s = s\<lparr> activeConns := wrap32 (activeConns s + 1), totalConns := totalConns s + 1 \<rparr>"

definition leave_connection :: "Server \<Rightarrow> Server" where
  "leave_connection s = s\<lparr> activeConns := wrap32 (activeConns s - 1) \<rparr>"

record ServerStats =
  stats_active :: int
  stats_total :: u64
  stats_auth :: "u64 \<times> u64 \<times> u64"
  stats_max_connections :: int
  stats_listen_addr :: string
  stats_ddos :: DDoSMetrics
  stats_resource :: BreachStats

definition Server_GetStats :: "Server \<Rightarrow> ServerStats" where
  "Server_GetStats s = \<lparr> stats_active = activeConns s, stats_total = totalConns s,
     stats_auth = (authSuccess s, authFailures s, authRateLimited s),
     stats_max_connections = MaxConnections (srv_config s), stats_listen_addr = ListenAddr (srv_config s),
     stats_ddos = DDoS_GetMetrics (srv_ddos s), stats_resource = GetBreachStats (srv_breach s) \<rparr>"

section \<open>The system\<close>

text \<open>
  \<open>Queued\<close>: handed to the pool or started as a goroutine.  \<open>Entered\<close>: counted.  \<open>Registered\<close>: in the table, about to
  authenticate.  \<open>Serving\<close>: the handler runs.  \<open>Returning\<close>: \<open>processConnection\<close> has returned, \<open>Unregistered\<close> and \<open>Ended\<close>
  follow after the deferred calls.
\<close>

datatype client_pc = Queued | Entered | Registered | Serving | Returning | Unregistered | Ended

record client =
  cl_addr :: string
  cl_in :: net_in
  cl_out :: net_out
  cl_direct :: bool
  cl_pc :: client_pc
  cl_conn :: "Connection option"
  cl_sess :: "sess option"

type_synonym incoming = "string \<times> net_in \<times> net_out"

datatype accept_pc = Accepting | Filtering incoming | Screening incoming | Shedding incoming | Limiting incoming
  | Submitting incoming | AcceptEnded

record system =
  sv :: Server
  sv_accept :: accept_pc
  sv_clients :: "client list"
  sv_pool :: "nat pool_state"
  sv_crashed :: bool

definition new_client :: "incoming \<Rightarrow> bool \<Rightarrow> client" where
  "new_client a direct = (case a of (addr, i, out) \<Rightarrow> \<lparr> cl_addr = addr, cl_in = i, cl_out = out, cl_direct = direct, cl_pc = Queued,
     cl_conn = None, cl_sess = None \<rparr>)"

abbreviation set_client :: "nat \<Rightarrow> client \<Rightarrow> system \<Rightarrow> system" where
  "set_client i c s \<equiv> s\<lparr> sv_clients := (sv_clients s)[i := c] \<rparr>"

abbreviation set_sv :: "Server \<Rightarrow> system \<Rightarrow> system" where
  "set_sv v s \<equiv> s\<lparr> sv := v \<rparr>"

text \<open>The counter of the server that the handler of a session increments.\<close>

definition with_failures :: "u64 \<Rightarrow> sess \<Rightarrow> sess" where
  "with_failures n se = set_h ((se_h se)\<lparr> h_server := Some n \<rparr>) se"

definition failures_of :: "sess \<Rightarrow> u64 \<Rightarrow> u64" where
  "failures_of se n = (case h_server (se_h se) of Some m \<Rightarrow> m | None \<Rightarrow> n)"

inductive srv_step :: "protobuf \<Rightarrow> fmt_env \<Rightarrow> system \<Rightarrow> system \<Rightarrow> bool" for pb fe where
  accept: "sv_accept s = Accepting \<Longrightarrow> srv_listening (sv s) \<Longrightarrow> srv_step pb fe s (s\<lparr> sv_accept := Filtering a \<rparr>)"
| accept_fails: "sv_accept s = Accepting \<Longrightarrow> srv_step pb fe s (s\<lparr> sv_accept := AcceptEnded, sv := (sv s)\<lparr> srv_wg := srv_wg (sv s) - 1 \<rparr> \<rparr>)"
| gate_filter: "sv_accept s = Filtering a \<Longrightarrow> filter_gate (fst a) (sv s) = Ret ok \<Longrightarrow>
    srv_step pb fe s (s\<lparr> sv_accept := (if ok then Screening a else Accepting) \<rparr>)"
| gate_filter_panics: "sv_accept s = Filtering a \<Longrightarrow> filter_gate (fst a) (sv s) = Panic \<Longrightarrow>
    srv_step pb fe s (s\<lparr> sv_crashed := True \<rparr>)"
| gate_ddos: "sv_accept s = Screening a \<Longrightarrow> CheckConnectionAllowed (fst a) t1 t2 (srv_ddos (sv s)) = (ok, d) \<Longrightarrow>
    srv_step pb fe s (s\<lparr> sv := (sv s)\<lparr> srv_ddos := d \<rparr>, sv_accept := (if ok then Shedding a else Accepting) \<rparr>)"
| gate_breach: "sv_accept s = Shedding a \<Longrightarrow>
    srv_step pb fe s (if ShouldRejectConnection (srv_breach (sv s))
      then s\<lparr> sv := (sv s)\<lparr> srv_breach := snd (RejectConnection (srv_breach (sv s))) \<rparr>, sv_accept := Accepting \<rparr>
      else s\<lparr> sv_accept := Limiting a \<rparr>)"
| gate_limit: "sv_accept s = Limiting a \<Longrightarrow>
    srv_step pb fe s (s\<lparr> sv_accept := (if limit_gate (sv s) then Submitting a else Accepting) \<rparr>)"
| submit: "sv_accept s = Submitting a \<Longrightarrow> Submit (length (sv_clients s)) (sv_pool s) = Ret (ok, p) \<Longrightarrow>
    srv_step pb fe s (s\<lparr> sv_accept := Accepting, sv_pool := p, sv_clients := sv_clients s @ [new_client a (\<not> ok)],
      sv := (sv s)\<lparr> srv_wg := srv_wg (sv s) + (if ok then 0 else 1) \<rparr> \<rparr>)"
| submit_panics: "sv_accept s = Submitting a \<Longrightarrow> Submit (length (sv_clients s)) (sv_pool s) = Panic \<Longrightarrow>
    srv_step pb fe s (s\<lparr> sv_crashed := True \<rparr>)"
| pool_runs: "pool_step (sv_pool s) p \<Longrightarrow> pl_callers p = pl_callers (sv_pool s) \<Longrightarrow> pl_panic p = pl_panic (sv_pool s) \<Longrightarrow>
    (\<forall>i. Running i \<in> set (pl_workers (sv_pool s)) \<longrightarrow> i < length (sv_clients s) \<longrightarrow> cl_pc (sv_clients s ! i) \<noteq> Ended \<longrightarrow>
      Running i \<in> set (pl_workers p)) \<Longrightarrow>
    srv_step pb fe s (s\<lparr> sv_pool := p \<rparr>)"
| enter: "i < length (sv_clients s) \<Longrightarrow> c = sv_clients s ! i \<Longrightarrow> cl_pc c = Queued \<Longrightarrow>
    cl_direct c \<or> Running i \<in> set (pl_workers (sv_pool s)) \<Longrightarrow>
    srv_step pb fe s (set_client i (c\<lparr> cl_pc := Entered \<rparr>) (set_sv (enter_connection (sv s)) s))"
| register: "i < length (sv_clients s) \<Longrightarrow> c = sv_clients s ! i \<Longrightarrow> cl_pc c = Entered \<Longrightarrow>
    NewConnection now (cl_addr c) (cl_in c) (cl_out c) (srv_config (sv s)) = Ret conn \<Longrightarrow>
    srv_step pb fe s (set_client i (c\<lparr> cl_pc := Registered, cl_conn := Some conn \<rparr>)
      (set_sv ((registerConnection (conn_id conn) i (sv s))\<lparr> srv_ddos := RecordPortAccess (cl_addr c) 8080 t (srv_ddos (sv s)) \<rparr>) s))"
| new_panics: "i < length (sv_clients s) \<Longrightarrow> c = sv_clients s ! i \<Longrightarrow> cl_pc c = Entered \<Longrightarrow>
    NewConnection now (cl_addr c) (cl_in c) (cl_out c) (srv_config (sv s)) = Panic \<Longrightarrow>
    srv_step pb fe s ((set_client i (c\<lparr> cl_pc := Unregistered \<rparr>) s)\<lparr> sv_crashed := (sv_crashed s \<or> cl_direct c) \<rparr>)"
| writes: "i < length (sv_clients s) \<Longrightarrow> c = sv_clients s ! i \<Longrightarrow> cl_conn c = Some conn \<Longrightarrow> cl_sess c = None \<Longrightarrow>
    srv_step pb fe s (set_client i (c\<lparr> cl_conn := Some (snd (drain now 0 conn)) \<rparr>) s)"
| process_returns: "i < length (sv_clients s) \<Longrightarrow> c = sv_clients s ! i \<Longrightarrow> cl_pc c = Registered \<Longrightarrow> cl_conn c = Some conn \<Longrightarrow>
    auth_ready now (sv s) a \<Longrightarrow> processConnection pb now a conn (sv s) = Ret (Returns e conn', v) \<Longrightarrow>
    srv_step pb fe s (set_client i (c\<lparr> cl_pc := Returning, cl_conn := Some conn' \<rparr>) (set_sv v s))"
| process_serves: "i < length (sv_clients s) \<Longrightarrow> c = sv_clients s ! i \<Longrightarrow> cl_pc c = Registered \<Longrightarrow> cl_conn c = Some conn \<Longrightarrow>
    auth_ready now (sv s) a \<Longrightarrow> processConnection pb now a conn (sv s) = Ret (Serves se, v) \<Longrightarrow>
    srv_step pb fe s (set_client i (c\<lparr> cl_pc := Serving, cl_sess := Some se \<rparr>) (set_sv v s))"
| process_panics: "i < length (sv_clients s) \<Longrightarrow> c = sv_clients s ! i \<Longrightarrow> cl_pc c = Registered \<Longrightarrow> cl_conn c = Some conn \<Longrightarrow>
    auth_ready now (sv s) a \<Longrightarrow> processConnection pb now a conn (sv s) = Panic \<Longrightarrow>
    srv_step pb fe s ((set_client i (c\<lparr> cl_pc := Returning \<rparr>) s)\<lparr> sv_crashed := (sv_crashed s \<or> cl_direct c) \<rparr>)"
| session: "i < length (sv_clients s) \<Longrightarrow> c = sv_clients s ! i \<Longrightarrow> cl_sess c = Some se \<Longrightarrow>
    sess_step pb fe (srv_config (sv s)) (with_failures (authFailures (sv s)) se) se' \<Longrightarrow>
    srv_step pb fe s (set_client i (c\<lparr> cl_sess := Some se' \<rparr>)
      (set_sv ((sv s)\<lparr> authFailures := failures_of se' (authFailures (sv s)) \<rparr>) s))"
| handle_returns: "i < length (sv_clients s) \<Longrightarrow> c = sv_clients s ! i \<Longrightarrow> cl_pc c = Serving \<Longrightarrow> cl_sess c = Some se \<Longrightarrow>
    ss_result (se_s se) = Some r \<Longrightarrow> srv_step pb fe s (set_client i (c\<lparr> cl_pc := Returning \<rparr>) s)"
| unregister: "i < length (sv_clients s) \<Longrightarrow> c = sv_clients s ! i \<Longrightarrow> cl_pc c = Returning \<Longrightarrow> cl_conn c = Some conn \<Longrightarrow>
    srv_step pb fe s (set_client i (c\<lparr> cl_pc := Unregistered \<rparr>) (set_sv (unregisterConnection (conn_id conn) (conn_remote conn) (sv s)) s))"
| leave_client: "i < length (sv_clients s) \<Longrightarrow> c = sv_clients s ! i \<Longrightarrow> cl_pc c = Unregistered \<Longrightarrow>
    srv_step pb fe s (set_client i (c\<lparr> cl_pc := Ended \<rparr>) (set_sv (leave_connection (sv s)) s))"
| cleanup_ddos: "srv_step pb fe s (set_sv ((sv s)\<lparr> srv_ddos := Cleanup t (srv_ddos (sv s)) \<rparr>) s)"
| check_limits: "srv_step pb fe s (set_sv ((sv s)\<lparr> srv_breach := CheckResourceLimits u (srv_breach (sv s)) \<rparr>) s)"
| shutdown: "\<not> srv_closed (sv s) \<Longrightarrow> srv_step pb fe s (set_sv ((sv s)\<lparr> srv_closed := True, srv_listening := False \<rparr>) s)"
| cancel_all: "srv_closed (sv s) \<Longrightarrow> srv_step pb fe s (set_sv ((sv s)\<lparr> srv_ctx := Some (E Context_Canceled) \<rparr>) s)"
| stop_pool: "srv_closed (sv s) \<Longrightarrow> pool_Stop (pl_pool (sv_pool s)) = Ret p \<Longrightarrow>
    srv_step pb fe s (s\<lparr> sv_pool := (sv_pool s)\<lparr> pl_pool := p \<rparr> \<rparr>)"
| close_client: "srv_closed (sv s) \<Longrightarrow> i < length (sv_clients s) \<Longrightarrow> c = sv_clients s ! i \<Longrightarrow> cl_conn c = Some conn \<Longrightarrow>
    cl_sess c = None \<Longrightarrow> Close now conn = Ret conn' \<Longrightarrow> srv_step pb fe s (set_client i (c\<lparr> cl_conn := Some conn' \<rparr>) s)"

inductive_cases srv_stepE: "srv_step pb fe s s'"

text \<open>A started server with nobody connected.\<close>

definition system_of :: "Server \<Rightarrow> nat pool_state \<Rightarrow> system" where
  "system_of v p = \<lparr> sv = v, sv_accept = Accepting, sv_clients = [], sv_pool = p, sv_crashed = False \<rparr>"

end
