(* ===== verification/ServerInv.thy ===== *)
theory ServerInv
  imports Server
begin

text \<open>
  Invariants of the whole server: which clients are served, what the counters and tables say, and what passed the
  address filter.  Every step of \<open>srv_step\<close> keeps each of them.
\<close>

section \<open>What operations keep of a connection\<close>

definition same_client :: "Connection \<Rightarrow> Connection \<Rightarrow> bool" where
  "same_client c c' \<longleftrightarrow> conn_id c' = conn_id c \<and> conn_remote c' = conn_remote c \<and> conn_sub c' = conn_sub c"

lemma same_client_refl [simp]: "same_client c c"
  by (simp add: same_client_def)

lemma same_client_trans: "same_client a b \<Longrightarrow> same_client b c \<Longrightarrow> same_client a c"
  by (simp add: same_client_def)

lemma same_client_queue: "same_but_queue c c' \<Longrightarrow> same_client c c'"
  by (auto simp: same_but_queue_def same_client_def)

lemma write_item_same:
  "write_item now item c = (e, go, c') \<Longrightarrow>
     same_client c c' \<and> conn_reader c' = conn_reader c \<and> conn_closed c' = conn_closed c"
  by (auto simp: write_item_def Let_def same_client_def add_queue_len_def SetWriteDeadline_def split: if_splits prod.splits)

lemma drain_parts:
  "same_client c (snd (drain now k c)) \<and> conn_reader (snd (drain now k c)) = conn_reader c \<and>
     conn_closed (snd (drain now k c)) = conn_closed c"
proof -
  let ?P = "\<lambda>d. same_client c d \<and> conn_reader d = conn_reader c \<and> conn_closed d = conn_closed c"
  obtain b c' where d: "drain now k c = (b, c')" by (rule prod.exhaust)
  have "?P c'"
  proof (rule drain_keeps [where P = ?P, OF _ _ d])
    fix j d item q e go d'
    assume "?P d" "write_item (now j) item (d\<lparr> writeQueue := q \<rparr>) = (e, go, d')"
    then show "?P d'" by (auto simp: same_client_def dest!: write_item_same)
  qed simp
  then show ?thesis using d by simp
qed

lemma drain_simps [simp]:
  "conn_id (snd (drain now k c)) = conn_id c" "conn_remote (snd (drain now k c)) = conn_remote c"
  "conn_sub (snd (drain now k c)) = conn_sub c" "conn_closed (snd (drain now k c)) = conn_closed c"
  "conn_reader (snd (drain now k c)) = conn_reader c"
  using drain_parts [of c now k] by (simp_all add: same_client_def)

lemma Close_parts: "Close now c = Ret c' \<Longrightarrow> same_client c c' \<and> conn_closed c'"
  by (auto simp: Close_def close_flag_def close_queue_def close_net_def same_client_def split: outcome.splits if_splits)

lemma Conn_ReadFrame_parts: "Conn_ReadFrame now c = (r, c') \<Longrightarrow> same_client c c'"
  by (auto simp: Conn_ReadFrame_def same_client_def split: if_splits prod.splits outcome.splits sum.splits)

lemma SendAuth_same:
  "SendAuthError pb now c = Ret (e, c') \<Longrightarrow> same_but_queue c c'"
  "SendAuthSuccess pb now c = Ret (e, c') \<Longrightarrow> same_but_queue c c'"
  using SendMessage_same by (auto simp: SendAuthError_def SendAuthSuccess_def)

section \<open>What \<open>processConnection\<close> does\<close>

text \<open>The credentials that a client presents in its first frame.\<close>

definition presents :: "protobuf \<Rightarrow> Config \<Rightarrow> net_in \<Rightarrow> bool" where
  "presents pb acfg i \<longleftrightarrow> (\<exists>p rest req. pending i = wire ProtocolVersion MessageTypeAuth p @ rest \<and>
     unmarshal_Auth pb p = Inr req \<and> auth_Username req = cfg_Username acfg \<and> auth_Password req = cfg_Password acfg)"

text \<open>What changes in the server: the sessions and limiter of the authenticator, and counters.\<close>

definition process_frame :: "string \<Rightarrow> Server \<Rightarrow> Server \<Rightarrow> bool" where
  "process_frame remote v v' \<longleftrightarrow> srv_config v' = srv_config v \<and> ipFilter v' = ipFilter v \<and> activeConns v' = activeConns v \<and>
     srv_conns v' = srv_conns v \<and> srv_wg v' = srv_wg v \<and> config (srv_auth v') = config (srv_auth v) \<and>
     fset (fmdom (sessions (srv_auth v'))) \<subseteq> insert remote (fset (fmdom (sessions (srv_auth v))))"

lemma process_frame_simps [simp]: "process_frame r v v" "process_frame r v (v\<lparr> authFailures := n \<rparr>)"
  by (auto simp: process_frame_def)

lemma Authenticate_sessions:
  "fset (fmdom (sessions (snd (Authenticate um now addr f a)))) \<subseteq> insert addr (fset (fmdom (sessions a)))"
  by (auto simp: Authenticate_def Let_def split: prod.splits sum.splits option.splits if_splits)

lemma Authenticate_credentials:
  "Authenticate um now addr f a = (Inr se, a') \<Longrightarrow> \<exists>req. um (Payload f) = Inr req \<and>
     auth_Username req = cfg_Username (config a) \<and> auth_Password req = cfg_Password (config a)"
  by (auto simp: Authenticate_def Let_def split: prod.splits sum.splits option.splits if_splits)

lemma auth_failed_parts:
  "auth_failed pb now err c v = Ret (r, v') \<Longrightarrow>
     (\<exists>c'. r = Returns (Some err) c' \<and> same_client c c') \<and> process_frame x v v'"
  by (auto simp: auth_failed_def sent_conn_def process_frame_def dest!: SendAuth_same same_client_queue
      split: outcome.splits if_splits)

lemma auth_succeeded_parts:
  assumes "auth_succeeded pb now session c v = Ret (r, v')"
  shows "process_frame x v v' \<and> (case r of
      Returns e c' \<Rightarrow> same_client c c'
    | Serves se \<Rightarrow> conn_sub (se_conn se) = conn_sub c \<and> pendingBatch (se_h se) = [] \<and> se_sent se = [])"
proof -
  have "same_client c (SetAuthenticated session c)" by (simp add: same_client_def SetAuthenticated_def)
  moreover have "conn_sub d = conn_sub c" if "SendAuthSuccess pb now (SetAuthenticated session c) = Ret (e, d)" for e d
    using same_client_queue [OF SendAuth_same(2) [OF that]] by (simp add: same_client_def SetAuthenticated_def)
  ultimately show ?thesis
    using assms SendAuth_same(2) [THEN same_client_queue] sess_init_parts(1,2,4)
    by (fastforce simp: auth_succeeded_def Let_def process_frame_def SetReadDeadline_def same_client_def
        split: outcome.splits option.splits prod.splits)
qed

lemma mode_inv_fresh: "conn_sub (se_conn se) = None \<Longrightarrow> pendingBatch (se_h se) = [] \<Longrightarrow> se_sent se = [] \<Longrightarrow> mode_inv se"
  by (simp add: mode_inv_def)

lemma process_frame_auth:
  assumes "Authenticate um now r f (srv_auth v) = (x, a)" "process_frame r (v\<lparr> srv_auth := a \<rparr>) v'"
  shows "process_frame r v v'"
  using assms Authenticate_sessions [of um now r f "srv_auth v"] Authenticate_config [of um now r f "srv_auth v"]
  by (auto simp: process_frame_def)

lemma first_frame_parts:
  assumes "first_frame pb now f c v = Ret (r, v')"
  shows "process_frame (conn_remote c) v v'"
    "r = Returns e c' \<Longrightarrow> same_client c c'"
    "r = Serves se \<Longrightarrow> Type f = MessageTypeAuth \<and> (\<exists>req. unmarshal_Auth pb (Payload f) = Inr req \<and>
        auth_Username req = cfg_Username (config (srv_auth v)) \<and> auth_Password req = cfg_Password (config (srv_auth v))) \<and>
      (conn_sub c = None \<longrightarrow> mode_inv se)"
proof -
  show "process_frame (conn_remote c) v v'"
    using assms
    by (auto simp: first_frame_def sent_conn_def intro: process_frame_auth auth_failed_parts [THEN conjunct2]
        auth_succeeded_parts [THEN conjunct1] split: option.splits outcome.splits sum.splits prod.splits)
  show "same_client c c'" if "r = Returns e c'"
    using assms that SendErrorCode_same [THEN same_client_queue]
    by (auto simp: first_frame_def sent_conn_def dest!: auth_failed_parts auth_succeeded_parts
        split: option.splits outcome.splits sum.splits prod.splits)
  show "Type f = MessageTypeAuth \<and> (\<exists>req. unmarshal_Auth pb (Payload f) = Inr req \<and>
        auth_Username req = cfg_Username (config (srv_auth v)) \<and> auth_Password req = cfg_Password (config (srv_auth v))) \<and>
      (conn_sub c = None \<longrightarrow> mode_inv se)" if serves: "r = Serves se"
  proof -
    have t: "ValidateFirstFrame f = None"
      using assms serves by (auto simp: first_frame_def sent_conn_def split: option.splits outcome.splits)
    obtain session a where a: "Authenticate (unmarshal_Auth pb) now (conn_remote c) f (srv_auth v) = (Inr session, a)"
        "auth_succeeded pb (\<lambda>k. now (k + 3)) session c (v\<lparr> srv_auth := a \<rparr>) = Ret (Serves se, v')"
      using assms serves t
      by (auto simp: first_frame_def dest: auth_failed_parts split: sum.splits prod.splits)
    show ?thesis
      using t Authenticate_credentials [OF a(1)] auth_succeeded_parts [OF a(2)] mode_inv_fresh [of se]
      by (auto simp: ValidateFirstFrame_def split: if_splits)
  qed
qed

lemma read_first:
  assumes "Conn_ReadFrame now (SetReadDeadline t c) = (Ret (Inr f), c')"
  shows "\<not> conn_closed c" "\<exists>p rest. pending (fr_r (conn_reader c)) = wire ProtocolVersion (Type f) p @ rest \<and> Payload f = p"
proof -
  show nc: "\<not> conn_closed c" using assms by (auto simp: Conn_ReadFrame_def SetReadDeadline_def split: if_splits)
  obtain r' where "ReadFrame ReadFull (now 0) (conn_reader c) = (Ret (Inr f), r')"
    using assms nc by (auto simp: Conn_ReadFrame_def SetReadDeadline_def split: outcome.splits sum.splits prod.splits)
  from tcp_in.ReadFrame_ok [OF this]
  show "\<exists>p rest. pending (fr_r (conn_reader c)) = wire ProtocolVersion (Type f) p @ rest \<and> Payload f = p"
    by (auto simp: new_frame_def)
qed

lemma processConnection_parts:
  assumes "processConnection pb now a c v = Ret (r, v')"
  shows "process_frame (conn_remote c) v v'"
    "r = Returns e c' \<Longrightarrow> same_client c c'"
proof -
  have same: "same_client c (SetReadDeadline t c)" for t by (simp add: same_client_def SetReadDeadline_def)
  have remote: "conn_remote d = conn_remote c" "same_client c d" if "Conn_ReadFrame now' (SetReadDeadline t c) = (x, d)" for now' t x d
    using Conn_ReadFrame_parts [OF that] same [of t] by (auto simp: same_client_def)
  show "process_frame (conn_remote c) v v'"
    using assms remote(1) first_frame_parts(1)
    by (fastforce simp: processConnection_def split: auth_case.splits outcome.splits prod.splits sum.splits)
  show "same_client c c'" if "r = Returns e c'"
    using assms that remote(2) SendError_same [THEN same_client_queue] first_frame_parts(2) same_client_trans
    by (fastforce simp: processConnection_def split: auth_case.splits outcome.splits prod.splits sum.splits)
qed

lemma processConnection_serves:
  assumes "processConnection pb now a c v = Ret (Serves se, v')"
    and "conn_closed c \<or> pending (fr_r (conn_reader c)) = pending i" "conn_sub c = None"
  shows "presents pb (config (srv_auth v)) i" "mode_inv se"
proof -
  obtain f d now' where f: "Conn_ReadFrame (\<lambda>k. now (k + 3)) (SetReadDeadline (now 2 + AuthTimeout (srv_config v)) c) = (Ret (Inr f), d)"
      "first_frame pb now' f d v = Ret (Serves se, v')"
    using assms(1) by (auto simp: processConnection_def split: auth_case.splits outcome.splits prod.splits sum.splits)
  have "conn_sub d = None" using Conn_ReadFrame_parts [OF f(1)] assms(3) by (simp add: same_client_def SetReadDeadline_def)
  then show "mode_inv se" using first_frame_parts(3) [OF f(2)] by blast
  show "presents pb (config (srv_auth v)) i"
    using first_frame_parts(3) [OF f(2) refl] read_first [OF f(1)] assms(2) unfolding presents_def by metis
qed

section \<open>Invariants of the system\<close>

text \<open>The configuration, the credentials and the filter never change.\<close>

definition sys_const :: "ServerConfig \<Rightarrow> Config \<Rightarrow> IPFilter option \<Rightarrow> system \<Rightarrow> bool" where
  "sys_const cfg acfg f s \<longleftrightarrow> srv_config (sv s) = cfg \<and> config (srv_auth (sv s)) = acfg \<and> ipFilter (sv s) = f"

text \<open>A session belongs to a client that presented the credentials, and its batches match its subscription.\<close>

definition client_ok :: "protobuf \<Rightarrow> Config \<Rightarrow> client \<Rightarrow> bool" where
  "client_ok pb acfg c \<longleftrightarrow> (\<forall>se. cl_sess c = Some se \<longrightarrow> presents pb acfg (cl_in c) \<and> mode_inv se) \<and>
     (cl_pc c \<in> {Queued, Entered} \<longrightarrow> cl_conn c = None \<and> cl_sess c = None) \<and>
     (cl_pc c = Registered \<longrightarrow> cl_sess c = None \<and> (\<forall>conn. cl_conn c = Some conn \<longrightarrow> conn_sub conn = None \<and>
        (conn_closed conn \<or> pending (fr_r (conn_reader conn)) = pending (cl_in c))))"

text \<open>A client that the filter lets in.\<close>

definition lets_in :: "IPFilter option \<Rightarrow> string \<Rightarrow> bool" where
  "lets_in f addr \<longleftrightarrow> f = None \<or>
     IPFilter_Allow f (ParseIP (case SplitHostPort addr of Inr (host, _) \<Rightarrow> host | Inl _ \<Rightarrow> [])) = Ret True"

fun past_filter :: "accept_pc \<Rightarrow> incoming option" where
  "past_filter (Screening a) = Some a"
| "past_filter (Shedding a) = Some a"
| "past_filter (Limiting a) = Some a"
| "past_filter (Submitting a) = Some a"
| "past_filter _ = None"

definition filter_ok :: "IPFilter option \<Rightarrow> system \<Rightarrow> bool" where
  "filter_ok f s \<longleftrightarrow> (\<forall>a. past_filter (sv_accept s) = Some a \<longrightarrow> lets_in f (fst a)) \<and>
     list_all (\<lambda>c. lets_in f (cl_addr c)) (sv_clients s)"

definition counted_client :: "client \<Rightarrow> bool" where
  "counted_client c \<longleftrightarrow> cl_pc c \<in> {Entered, Registered, Serving, Returning, Unregistered}"

definition held :: "client \<Rightarrow> bool" where
  "held c \<longleftrightarrow> cl_pc c \<in> {Registered, Serving, Returning}"

definition counters_ok :: "system \<Rightarrow> bool" where
  "counters_ok s \<longleftrightarrow> activeConns (sv s) = wrap32 (int (length (filter counted_client (sv_clients s)))) \<and>
     srv_wg (sv s) = of_bool (sv_accept s \<noteq> AcceptEnded) + int (length (filter cl_direct (sv_clients s)))"

text \<open>Every entry of the connection table and every session belongs to a client that has not left.\<close>

definition owns :: "client \<Rightarrow> string \<Rightarrow> string \<Rightarrow> bool" where
  "owns c ident remote \<longleftrightarrow> held c \<and> (\<exists>conn. cl_conn c = Some conn \<and> conn_id conn = ident \<and> conn_remote conn = remote)"

definition tables :: "(string, nat) fmap \<Rightarrow> string set \<Rightarrow> client list \<Rightarrow> bool" where
  "tables m d cs \<longleftrightarrow> (\<forall>ident i. fmlookup m ident = Some i \<longrightarrow> i < length cs \<and> (\<exists>r. owns (cs ! i) ident r)) \<and>
     (\<forall>r \<in> d. \<exists>i < length cs. \<exists>ident. owns (cs ! i) ident r)"

definition tables_ok :: "system \<Rightarrow> bool" where
  "tables_ok s \<longleftrightarrow> tables (srv_conns (sv s)) (fset (fmdom (sessions (srv_auth (sv s))))) (sv_clients s)"

lemma sys_const_step:
  assumes "sys_const cfg acfg f s" "srv_step pb fe s s'"
  shows "sys_const cfg acfg f s'"
  using assms(2,1)
  by (cases rule: srv_step.cases)
    (auto simp: sys_const_def process_frame_def enter_connection_def leave_connection_def registerConnection_def
      unregisterConnection_def RemoveSession_def dest!: processConnection_parts(1))

lemma list_all_update: "list_all P xs \<Longrightarrow> P x \<Longrightarrow> list_all P (xs[i := x])"
proof -
  assume a: "list_all P xs" "P x"
  have "P (xs[i := x] ! n)" if "n < length xs" for n using a that by (cases "n = i") (auto simp: list_all_length)
  then show ?thesis by (simp add: list_all_length)
qed

lemma list_all_at: "list_all P xs \<Longrightarrow> i < length xs \<Longrightarrow> P (xs ! i)"
  by (simp add: list_all_length)

lemma lets_in_at: "list_all (\<lambda>c. lets_in f (cl_addr c)) cs \<Longrightarrow> i < length cs \<Longrightarrow> lets_in f (cl_addr (cs ! i))"
  by (simp add: list_all_length)

lemma gate_lets_in: "filter_gate addr v = Ret True \<Longrightarrow> lets_in (ipFilter v) addr"
  by (cases "ipFilter v") (auto simp: filter_gate_def lets_in_def)

lemma filter_ok_step:
  assumes "filter_ok f s" "sys_const cfg acfg f s" "srv_step pb fe s s'"
  shows "filter_ok f s'"
  using assms(3,1,2)
  by (cases rule: srv_step.cases)
    (auto simp: filter_ok_def sys_const_def new_client_def lets_in_at gate_lets_in intro!: list_all_update split: prod.splits)

lemma counters_ok_step:
  assumes "counters_ok s" "srv_step pb fe s s'"
  shows "counters_ok s'"
  using assms(2,1)
  by (cases rule: srv_step.cases)
    (auto simp: counters_ok_def process_frame_def enter_connection_def leave_connection_def registerConnection_def
      unregisterConnection_def count_update counted_client_def new_client_def dest!: processConnection_parts(1) split: prod.splits)

lemma mode_inv_failures [simp]: "mode_inv (with_failures n se) = mode_inv se"
  by (simp add: mode_inv_def with_failures_def)

lemma client_ok_register:
  assumes "NewConnection now (cl_addr c) (cl_in c) (cl_out c) cfg = Ret conn" "client_ok pb acfg c" "cl_pc c = Entered"
  shows "client_ok pb acfg (c\<lparr> cl_pc := Registered, cl_conn := Some conn \<rparr>)"
  using assms by (auto simp: client_ok_def NewConnection_def NewFrameReader_def split: if_splits)

lemma client_ok_serves:
  assumes "processConnection pb now a conn v = Ret (Serves se, v')" "client_ok pb (config (srv_auth v)) c" "cl_pc c = Registered"
    and "cl_conn c = Some conn"
  shows "client_ok pb (config (srv_auth v)) (c\<lparr> cl_pc := Serving, cl_sess := Some se \<rparr>)"
  using processConnection_serves [OF assms(1), of "cl_in c"] assms(2-4) by (auto simp: client_ok_def)

lemma client_ok_session:
  "client_ok pb acfg c \<Longrightarrow> cl_sess c = Some se \<Longrightarrow> sess_step pb fe cfg (with_failures n se) se' \<Longrightarrow>
     client_ok pb acfg (c\<lparr> cl_sess := Some se' \<rparr>)"
  using mode_inv_step [of "with_failures n se"] by (auto simp: client_ok_def)

lemma client_ok_moves:
  assumes "client_ok pb acfg c"
  shows "cl_pc c = Queued \<Longrightarrow> client_ok pb acfg (c\<lparr> cl_pc := Entered \<rparr>)"
    "cl_sess c = None \<Longrightarrow> client_ok pb acfg (c\<lparr> cl_pc := Returning, cl_conn := x \<rparr>)"
    "client_ok pb acfg (c\<lparr> cl_pc := Returning \<rparr>)" "client_ok pb acfg (c\<lparr> cl_pc := Unregistered \<rparr>)" "client_ok pb acfg (c\<lparr> cl_pc := Ended \<rparr>)"
    "cl_conn c = Some conn \<Longrightarrow> client_ok pb acfg (c\<lparr> cl_conn := Some (snd (drain now k conn)) \<rparr>)"
    "cl_conn c = Some conn \<Longrightarrow> Close now conn = Ret conn' \<Longrightarrow> client_ok pb acfg (c\<lparr> cl_conn := Some conn' \<rparr>)"
  using assms by (auto simp: client_ok_def same_client_def dest!: Close_parts)

lemma client_ok_new: "client_ok pb acfg (new_client a d)"
  by (auto simp: client_ok_def new_client_def split: prod.splits)

definition clients_ok :: "protobuf \<Rightarrow> Config \<Rightarrow> system \<Rightarrow> bool" where
  "clients_ok pb acfg s \<longleftrightarrow> list_all (client_ok pb acfg) (sv_clients s)"

lemma clients_ok_step:
  assumes "clients_ok pb acfg s" "sys_const cfg acfg f s" "srv_step pb fe s s'"
  shows "clients_ok pb acfg s'"
proof -
  have at: "i < length (sv_clients s) \<Longrightarrow> client_ok pb acfg (sv_clients s ! i)" for i
    using assms(1) by (simp add: clients_ok_def list_all_at)
  have reg: "cl_pc c = Registered \<Longrightarrow> client_ok pb acfg c \<Longrightarrow> cl_sess c = None" for c by (simp add: client_ok_def)
  have a: "config (srv_auth (sv s)) = acfg" using assms(2) by (simp add: sys_const_def)
  have upd: "client_ok pb acfg c \<Longrightarrow> list_all (client_ok pb acfg) ((sv_clients s)[i := c])" for i c
    using assms(1) by (simp add: clients_ok_def list_all_update)
  note moves = client_ok_moves [OF at] client_ok_register [OF _ at] client_ok_session [OF at]
  show ?thesis
    using assms(3)
  proof (cases rule: srv_step.cases)
    case (process_serves i c conn now x se v)
    then show ?thesis using client_ok_serves [OF process_serves(7)] at a by (simp add: clients_ok_def upd)
  qed (use assms(1) at reg in \<open>auto simp: clients_ok_def client_ok_new intro!: upd moves\<close>)
qed

end
