(* ===== verification/ServerTables.thy ===== *)
theory ServerTables
  imports ServerInv
begin

text \<open>The connection table and the sessions of the authenticator belong to clients that have not left.\<close>

section \<open>The tables\<close>

lemma tablesI:
  assumes "\<And>ident i. fmlookup m ident = Some i \<Longrightarrow> i < length cs \<and> (\<exists>r. owns (cs ! i) ident r)"
    and "\<And>r. r \<in> d \<Longrightarrow> \<exists>i ident. i < length cs \<and> owns (cs ! i) ident r"
  shows "tables m d cs"
  unfolding tables_def using assms by blast

lemma tables_conn:
  assumes "tables m d cs" "fmlookup m ident = Some i"
  obtains r where "i < length cs" "owns (cs ! i) ident r"
  using assms unfolding tables_def by blast

lemma tables_sess:
  assumes "tables m d cs" "r \<in> d"
  obtains i ident where "i < length cs" "owns (cs ! i) ident r"
  using assms unfolding tables_def by blast

lemma tables_update:
  assumes t: "tables m d cs" and o: "\<And>ident r. owns (cs ! i) ident r \<Longrightarrow> owns c ident r" and d: "d' \<subseteq> d"
  shows "tables m d' (cs[i := c])"
proof (rule tablesI)
  have keep: "owns (cs[i := c] ! j) ident r" if "owns (cs ! j) ident r" "j < length cs" for j ident r
    using o that by (cases "j = i") auto
  show "j < length (cs[i := c]) \<and> (\<exists>r. owns (cs[i := c] ! j) ident r)" if "fmlookup m ident = Some j" for ident j
    by (rule tables_conn [OF t that]) (use keep in auto)
  show "\<exists>j ident. j < length (cs[i := c]) \<and> owns (cs[i := c] ! j) ident r" if "r \<in> d'" for r
  proof (rule tables_sess [OF t subsetD [OF d that]])
    fix j ident assume "j < length cs" "owns (cs ! j) ident r"
    then show ?thesis using keep by (intro exI [of _ j] exI [of _ ident]) simp
  qed
qed

lemma tables_append:
  assumes t: "tables m d cs"
  shows "tables m d (cs @ [c])"
proof (rule tablesI)
  show "j < length (cs @ [c]) \<and> (\<exists>r. owns ((cs @ [c]) ! j) ident r)" if "fmlookup m ident = Some j" for ident j
    by (rule tables_conn [OF t that]) (auto simp: nth_append)
  show "\<exists>j ident. j < length (cs @ [c]) \<and> owns ((cs @ [c]) ! j) ident r" if "r \<in> d" for r
  proof (rule tables_sess [OF t that])
    fix j ident assume "j < length cs" "owns (cs ! j) ident r"
    then show ?thesis by (intro exI [of _ j] exI [of _ ident]) (simp add: nth_append)
  qed
qed

lemma tables_session:
  assumes "tables m d cs" "\<And>ident r. owns c0 ident r \<Longrightarrow> owns c ident r" "owns c ident0 r0" "i < length cs" "c0 = cs ! i"
    and "d' \<subseteq> insert r0 d"
  shows "tables m d' (cs[i := c])"
proof (rule tablesI)
  have t: "tables m d (cs[i := c])" using tables_update [OF assms(1,2)] assms(5) by blast
  show "j < length (cs[i := c]) \<and> (\<exists>r. owns (cs[i := c] ! j) ident r)" if "fmlookup m ident = Some j" for ident j
    by (rule tables_conn [OF t that]) blast
  show "\<exists>j ident. j < length (cs[i := c]) \<and> owns (cs[i := c] ! j) ident r" if "r \<in> d'" for r
  proof (cases "r \<in> d")
    case True
    show ?thesis by (rule tables_sess [OF t True]) blast
  next
    case False
    then have "r = r0" using that assms(6) by blast
    then show ?thesis using assms(3,4) by (intro exI [of _ i] exI [of _ ident0]) simp
  qed
qed

lemma tables_register:
  assumes "tables m d cs" "i < length cs" "\<not> held (cs ! i)" "owns c ident r"
  shows "tables (fmupd ident i m) d (cs[i := c])"
proof -
  have none: "\<not> owns (cs ! i) x y" for x y using assms(3) by (simp add: owns_def)
  have "tables m d (cs[i := c])" by (rule tables_update [OF assms(1)]) (use none in auto)
  then show ?thesis using assms(2,4) by (auto simp: tables_def)
qed

lemma tables_unregister:
  assumes t: "tables m d cs" and c: "cl_conn (cs ! i) = Some conn"
  shows "tables (fmdrop (conn_id conn) m) (d - {conn_remote conn}) (cs[i := c])"
proof (rule tablesI)
  have other: "owns (cs[i := c] ! j) ident r" if "owns (cs ! j) ident r" "ident \<noteq> conn_id conn \<or> r \<noteq> conn_remote conn" for j ident r
    using that c by (cases "j = i") (auto simp: owns_def)
  show "j < length (cs[i := c]) \<and> (\<exists>r. owns (cs[i := c] ! j) ident r)" if "fmlookup (fmdrop (conn_id conn) m) ident = Some j" for ident j
  proof -
    have m: "ident \<noteq> conn_id conn" "fmlookup m ident = Some j" using that by (auto simp: fmlookup_drop split: if_splits)
    show ?thesis by (rule tables_conn [OF t m(2)]) (use other m(1) in auto)
  qed
  show "\<exists>j ident. j < length (cs[i := c]) \<and> owns (cs[i := c] ! j) ident r" if "r \<in> d - {conn_remote conn}" for r
  proof -
    have r: "r \<in> d" "r \<noteq> conn_remote conn" using that by auto
    show ?thesis
    proof (rule tables_sess [OF t r(1)])
      fix j ident assume "j < length cs" "owns (cs ! j) ident r"
      then show ?thesis using other r(2) by (intro exI [of _ j] exI [of _ ident]) simp
    qed
  qed
qed

lemma owns_kept:
  "cl_conn c = Some conn \<Longrightarrow> same_client conn conn' \<Longrightarrow> owns c ident r \<Longrightarrow>
     owns (c\<lparr> cl_pc := Returning, cl_conn := Some conn' \<rparr>) ident r"
  "owns c ident r \<Longrightarrow> owns (c\<lparr> cl_pc := Returning \<rparr>) ident r"
  "owns c ident r \<Longrightarrow> owns (c\<lparr> cl_pc := Serving, cl_sess := x \<rparr>) ident r"
  "owns c ident r \<Longrightarrow> owns (c\<lparr> cl_sess := x \<rparr>) ident r"
  "cl_conn c = Some conn \<Longrightarrow> same_client conn conn' \<Longrightarrow> owns c ident r \<Longrightarrow> owns (c\<lparr> cl_conn := Some conn' \<rparr>) ident r"
  by (auto simp: owns_def held_def same_client_def)

lemma not_held_owns: "\<not> held c \<Longrightarrow> \<not> owns c ident r"
  by (simp add: owns_def)

lemma owns_self: "cl_pc c = Registered \<Longrightarrow> cl_conn c = Some conn \<Longrightarrow> owns c (conn_id conn) (conn_remote conn)"
  by (simp add: owns_def held_def)

lemma NewConnection_ident: "NewConnection now addr i out cfg = Ret conn \<Longrightarrow> conn_remote conn = addr"
  by (auto simp: NewConnection_def split: if_splits)

lemma tables_ok_step:
  assumes "tables_ok s" "srv_step pb fe s s'"
  shows "tables_ok s'"
  using assms(2)
proof (cases rule: srv_step.cases)
  case (submit a ok p)
  then show ?thesis using assms(1) by (simp add: tables_ok_def tables_append)
next
  case (enter i c)
  then have "\<not> held (sv_clients s ! i)" by (simp add: held_def)
  then show ?thesis using enter assms(1) not_held_owns
    by (auto simp: tables_ok_def enter_connection_def intro!: tables_update)
next
  case (register i c now conn t)
  have "owns (c\<lparr> cl_pc := Registered, cl_conn := Some conn \<rparr>) (conn_id conn) (conn_remote conn)" by (simp add: owns_def held_def)
  then show ?thesis using register assms(1)
    by (auto simp: tables_ok_def registerConnection_def held_def intro!: tables_register)
next
  case (new_panics i c now)
  then have "\<not> held (sv_clients s ! i)" by (simp add: held_def)
  then show ?thesis using new_panics assms(1) not_held_owns by (auto simp: tables_ok_def intro!: tables_update)
next
  case (writes i c conn now)
  then show ?thesis using assms(1) drain_parts [of conn now 0]
    by (auto simp: tables_ok_def intro!: tables_update owns_kept)
next
  case (process_returns i c conn now a e conn' v)
  note p = processConnection_parts(1) [OF process_returns(7)] processConnection_parts(2) [OF process_returns(7) refl]
  have k: "\<And>ident r. owns c ident r \<Longrightarrow> owns (c\<lparr> cl_pc := Returning, cl_conn := Some conn' \<rparr>) ident r"
    using process_returns(5) p(2) by (rule owns_kept(1))
  from tables_session [OF _ k k [OF owns_self [OF process_returns(4,5)]]]
  show ?thesis using process_returns(1-3) assms(1) p(1) by (simp add: tables_ok_def process_frame_def)
next
  case (process_serves i c conn now a se v)
  note p = processConnection_parts(1) [OF process_serves(7)]
  have k: "\<And>ident r. owns c ident r \<Longrightarrow> owns (c\<lparr> cl_pc := Serving, cl_sess := Some se \<rparr>) ident r" by (rule owns_kept(3))
  from tables_session [OF _ k k [OF owns_self [OF process_serves(4,5)]]]
  show ?thesis using process_serves(1-3) assms(1) p by (simp add: tables_ok_def process_frame_def)
next
  case (unregister i c conn)
  have "fset (fmdom (fmdrop (conn_remote conn) m)) = fset (fmdom m) - {conn_remote conn}" for m :: "(string, Session) fmap" by auto
  then show ?thesis using unregister assms(1) tables_unregister [of _ _ "sv_clients s" i conn]
    by (simp add: tables_ok_def unregisterConnection_def RemoveSession_def)
next
  case (close_client i c conn now conn')
  then show ?thesis using assms(1) Close_parts [of now conn conn']
    by (auto simp: tables_ok_def intro!: tables_update owns_kept)
next
  case (leave_client i c)
  then have "\<not> held (sv_clients s ! i)" by (simp add: held_def)
  then show ?thesis using leave_client assms(1) not_held_owns
    by (auto simp: tables_ok_def leave_connection_def intro!: tables_update)
qed (use assms(1) in \<open>auto simp: tables_ok_def intro!: tables_update owns_kept\<close>)

end
