(* ===== verification/WriteQueue.thy ===== *)
theory WriteQueue
  imports Connection "HOL-Library.Sublist"
begin

text \<open>
  The goroutines around the write queue of one connection, interleaved: any number of goroutines in
  \<open>WriteFrameAsync\<close>, the write loop, one goroutine in \<open>Close\<close> and the network.  A step is one action of
  the code in \<open>connection.go\<close> that other goroutines can observe: the loads, the counter updates, the send and the receive
  of \<open>WriteFrameAsync\<close> are steps of their own.  The loop handles one item in one step (\<open>write_one\<close>): no other goroutine
  writes to the socket, and \<open>Close\<close> closes it only after the loop has ended.  \<open>wq_accepted\<close>, \<open>wq_done\<close> and \<open>wq_start\<close> are history: the frames put into the queue,
  the frames the loop has taken out with the information whether they were written, and the bytes sent
  before.
\<close>

datatype producer = Idle | Opened Frame | Checked Frame | Counted WriteQueueItem
datatype loop_state = LoopIdle | LoopBusy WriteQueueItem | LoopDone
datatype closer = NotClosing | Flagged | QueueClosed | NetClosed

record wq =
  wq_conn :: Connection
  wq_producers :: "producer list"
  wq_loop :: loop_state
  wq_closer :: closer
  wq_panicked :: bool
  wq_accepted :: "Frame list"
  wq_done :: "(Frame \<times> bool) list"
  wq_start :: bytes

definition set_fail :: "(nat \<times> go_error) option \<Rightarrow> Connection \<Rightarrow> Connection" where
  "set_fail e c = c\<lparr>conn_writer := (conn_writer c)\<lparr>fw_w := (fw_w (conn_writer c))\<lparr>write_fail := e\<rparr>\<rparr>\<rparr>"

inductive wq_step :: "wq \<Rightarrow> wq \<Rightarrow> bool" where
  see_open: "\<not> wq_panicked s \<Longrightarrow> i < length (wq_producers s) \<Longrightarrow> wq_producers s ! i = Idle \<Longrightarrow>
    \<not> conn_closed (wq_conn s) \<Longrightarrow>
    wq_step s (s\<lparr>wq_producers := (wq_producers s)[i := Opened f]\<rparr>)"
| see_full: "\<not> wq_panicked s \<Longrightarrow> i < length (wq_producers s) \<Longrightarrow> wq_producers s ! i = Opened f \<Longrightarrow>
    queue_full (wq_conn s) \<Longrightarrow>
    wq_step s (s\<lparr>wq_producers := (wq_producers s)[i := Idle]\<rparr>)"
| see_room: "\<not> wq_panicked s \<Longrightarrow> i < length (wq_producers s) \<Longrightarrow> wq_producers s ! i = Opened f \<Longrightarrow>
    \<not> queue_full (wq_conn s) \<Longrightarrow>
    wq_step s (s\<lparr>wq_producers := (wq_producers s)[i := Checked f]\<rparr>)"
| count_up: "\<not> wq_panicked s \<Longrightarrow> i < length (wq_producers s) \<Longrightarrow> wq_producers s ! i = Checked f \<Longrightarrow>
    wq_step s (s\<lparr>wq_conn := add_queue_len 1 (wq_conn s),
      wq_producers := (wq_producers s)[i := Counted (async_item now f (wq_conn s))]\<rparr>)"
| send_item: "\<not> wq_panicked s \<Longrightarrow> i < length (wq_producers s) \<Longrightarrow> wq_producers s ! i = Counted item \<Longrightarrow>
    async_send item (wq_conn s) = Ret (err, c) \<Longrightarrow>
    wq_step s (s\<lparr>wq_conn := c, wq_producers := (wq_producers s)[i := Idle],
      wq_accepted := wq_accepted s @ (if err = None then [item_frame item] else [])\<rparr>)"
| send_panic: "\<not> wq_panicked s \<Longrightarrow> i < length (wq_producers s) \<Longrightarrow> wq_producers s ! i = Counted item \<Longrightarrow>
    async_send item (wq_conn s) = Panic \<Longrightarrow> wq_step s (s\<lparr>wq_panicked := True\<rparr>)"
| take_one: "\<not> wq_panicked s \<Longrightarrow> wq_loop s = LoopIdle \<Longrightarrow> recv (writeQueue (wq_conn s)) = Some (Some item, q) \<Longrightarrow>
    wq_step s (s\<lparr>wq_conn := (wq_conn s)\<lparr>writeQueue := q\<rparr>, wq_loop := LoopBusy item\<rparr>)"
| drained: "\<not> wq_panicked s \<Longrightarrow> wq_loop s = LoopIdle \<Longrightarrow> recv (writeQueue (wq_conn s)) = Some (None, q) \<Longrightarrow>
    wq_step s (s\<lparr>wq_loop := LoopDone\<rparr>)"
| write_one: "\<not> wq_panicked s \<Longrightarrow> wq_loop s = LoopBusy item \<Longrightarrow> write_item now item (wq_conn s) = (err, go, c) \<Longrightarrow>
    wq_step s (s\<lparr>wq_conn := c, wq_loop := (if go then LoopIdle else LoopDone),
      wq_done := wq_done s @ [(item_frame item, err = None)]\<rparr>)"
| flag: "\<not> wq_panicked s \<Longrightarrow> close_flag (wq_conn s) = (True, c) \<Longrightarrow>
    wq_step s (s\<lparr>wq_conn := c, wq_closer := Flagged\<rparr>)"
| close_q: "\<not> wq_panicked s \<Longrightarrow> wq_closer s = Flagged \<Longrightarrow> close_queue (wq_conn s) = Ret c \<Longrightarrow>
    wq_step s (s\<lparr>wq_conn := c, wq_closer := QueueClosed\<rparr>)"
| close_panic: "\<not> wq_panicked s \<Longrightarrow> wq_closer s = Flagged \<Longrightarrow> close_queue (wq_conn s) = Panic \<Longrightarrow>
    wq_step s (s\<lparr>wq_panicked := True\<rparr>)"
| close_n: "\<not> wq_panicked s \<Longrightarrow> wq_closer s = QueueClosed \<Longrightarrow> wq_loop s = LoopDone \<Longrightarrow>
    wq_step s (s\<lparr>wq_conn := close_net (wq_conn s), wq_closer := NetClosed\<rparr>)"
| net_event: "\<not> wq_panicked s \<Longrightarrow> wq_closer s \<noteq> NetClosed \<Longrightarrow>
    wq_step s (s\<lparr>wq_conn := set_fail e (wq_conn s)\<rparr>)"

inductive_cases wq_stepE: "wq_step s s'"

text \<open>A fresh connection with \<open>n\<close> goroutines that may write to it.\<close>

definition wq_init :: "nat \<Rightarrow> Connection \<Rightarrow> wq" where
  "wq_init n c = \<lparr> wq_conn = c, wq_producers = replicate n Idle, wq_loop = LoopIdle, wq_closer = NotClosing,
     wq_panicked = False, wq_accepted = [], wq_done = [], wq_start = sent (fw_w (conn_writer c)) \<rparr>"

section \<open>Invariant\<close>

fun is_counted :: "producer \<Rightarrow> bool" where
  "is_counted (Counted item) = True"
| "is_counted _ = False"

definition counted :: "producer list \<Rightarrow> nat" where
  "counted ps = length (filter is_counted ps)"

fun busy :: "loop_state \<Rightarrow> Frame list" where
  "busy (LoopBusy item) = [item_frame item]"
| "busy _ = []"

text \<open>The counter is exact: items in the queue, callers between counting and sending, and the item in the loop.\<close>

definition wq_counter :: "wq \<Rightarrow> bool" where
  "wq_counter s \<longleftrightarrow> writeQueueLen (wq_conn s) =
     int (length (chan_buf (writeQueue (wq_conn s))) + counted (wq_producers s) + length (busy (wq_loop s)))"

definition wq_bounds :: "wq \<Rightarrow> bool" where
  "wq_bounds s \<longleftrightarrow> chan_ok (writeQueue (wq_conn s)) \<and>
     chan_cap (writeQueue (wq_conn s)) + length (wq_producers s) + 2 < 2 ^ 31"

definition wq_order :: "wq \<Rightarrow> bool" where
  "wq_order s \<longleftrightarrow> wq_accepted s =
     map fst (wq_done s) @ busy (wq_loop s) @ map item_frame (chan_buf (writeQueue (wq_conn s)))"

definition wq_closing :: "wq \<Rightarrow> bool" where
  "wq_closing s \<longleftrightarrow> (conn_closed (wq_conn s) \<longleftrightarrow> wq_closer s \<noteq> NotClosing) \<and>
     (chan_closed (writeQueue (wq_conn s)) \<longleftrightarrow> wq_closer s \<in> {QueueClosed, NetClosed})"

definition written :: "wq \<Rightarrow> Frame list" where
  "written s = map fst (filter snd (wq_done s))"

text \<open>
  The bytes on the wire are the written frames, in order; after a failed write, which ends the loop, part of one
  more frame may follow.
\<close>

definition wq_wire :: "wq \<Rightarrow> bool" where
  "wq_wire s \<longleftrightarrow> (\<exists>k f. sent (fw_w (conn_writer (wq_conn s))) =
      wq_start s @ concat (map frame_wire (written s)) @ take k (frame_wire f) \<and> (wq_loop s \<noteq> LoopDone \<longrightarrow> k = 0)) \<and>
    fw_maxMessageSize (conn_writer (wq_conn s)) = of_nat DefaultMaxMessageSize"

definition wq_inv :: "wq \<Rightarrow> bool" where
  "wq_inv s \<longleftrightarrow> wq_counter s \<and> wq_bounds s \<and> wq_order s \<and> wq_closing s \<and> wq_wire s"

lemmas wq_inv_defs = wq_inv_def wq_counter_def wq_bounds_def wq_order_def wq_closing_def wq_wire_def written_def

lemma counted_update:
  "i < length ps \<Longrightarrow> counted (ps[i := p]) + (if is_counted (ps ! i) then 1 else 0) = counted ps + (if is_counted p then 1 else 0)"
proof -
  assume i: "i < length ps"
  have "counted ps = counted (take i ps @ ps ! i # drop (Suc i) ps)"
    using i by (simp add: id_take_nth_drop [symmetric])
  then show ?thesis by (simp add: upd_conv_take_nth_drop [OF i] counted_def)
qed

lemma counted_le: "counted ps \<le> length ps"
  by (simp add: counted_def)

lemma counted_update_simps:
  "i < length ps \<Longrightarrow> ps ! i = Idle \<Longrightarrow> counted (ps[i := Opened f]) = counted ps"
  "i < length ps \<Longrightarrow> ps ! i = Opened f \<Longrightarrow> counted (ps[i := Idle]) = counted ps"
  "i < length ps \<Longrightarrow> ps ! i = Opened f \<Longrightarrow> counted (ps[i := Checked f]) = counted ps"
  "i < length ps \<Longrightarrow> ps ! i = Checked f \<Longrightarrow> counted (ps[i := Counted item]) = counted ps + 1"
  "i < length ps \<Longrightarrow> ps ! i = Counted item \<Longrightarrow> counted ps = counted (ps[i := Idle]) + 1"
  using counted_update [of i ps] by fastforce+

lemma async_send_cases:
  assumes "async_send item c = Ret (err, c')"
  obtains (queued) "err = None" "c' = c\<lparr>writeQueue := (writeQueue c)\<lparr>chan_buf := chan_buf (writeQueue c) @ [item]\<rparr>\<rparr>"
      "\<not> chan_closed (writeQueue c)" "length (chan_buf (writeQueue c)) < chan_cap (writeQueue c)"
    | (full) e where "err = Some e" "c' = add_queue_len (-1) c" "\<not> chan_closed (writeQueue c)"
  using assms by (auto simp: async_send_def try_send_def split: if_splits)

lemma recv_cases:
  assumes "recv q = Some (r, q')"
  obtains (item) x xs where "r = Some x" "chan_buf q = x # xs" "q' = q\<lparr>chan_buf := xs\<rparr>"
    | (drained) "r = None" "q' = q" "chan_buf q = []" "chan_closed q"
  using assms by (auto simp: recv_def split: list.splits if_splits)

text \<open>Processing an item changes the counter by one, and otherwise only the writer, its deadline and the metrics.\<close>

lemma write_item_parts:
  assumes "write_item now item c = (err, go, c')"
  shows "writeQueue c' = writeQueue c" "conn_closed c' = conn_closed c"
    "writeQueueLen c' = wrap32 (writeQueueLen c - 1)" "err = None \<Longrightarrow> go"
  using assms by (auto simp: write_item_def add_queue_len_def SetWriteDeadline_def Let_def split: if_splits prod.splits)

lemma write_item_wire:
  assumes "write_item now item c = (err, go, c')" "fw_maxMessageSize (conn_writer c) = of_nat DefaultMaxMessageSize"
  shows "fw_maxMessageSize (conn_writer c') = of_nat DefaultMaxMessageSize \<and>
    (\<exists>k. sent (fw_w (conn_writer c')) = sent (fw_w (conn_writer c)) @
       (if err = None then frame_wire (item_frame item) else take k (frame_wire (item_frame item))) \<and> (go \<longrightarrow> k = 0))"
proof -
  have wf: "fw_maxMessageSize w' = fw_maxMessageSize w \<and> (\<exists>k. sent (fw_w w') = sent (fw_w w) @
      (if e = None then frame_wire f else take k (frame_wire f)))"
    if "WriteFrame conn_write f w = (e, w')" for f w e w'
  proof (cases e)
    case None
    then show ?thesis using that tcp_out.WriteFrame_ok [of f w w']
      by (auto simp: WriteFrame_def split: if_splits sum.splits prod.splits option.splits)
  next
    case (Some x)
    have "\<exists>k. out' = sent u @ take k (wire (Version f) (Type f) (Payload f))" if "out' = sent u" for out' u
      using that by (intro exI [of _ 0]) simp
    then show ?thesis using that Some tcp_out.put_prefix
      by (fastforce simp: WriteFrame_def Marshal_eq frame_wire_def split: if_splits prod.splits option.splits)
  qed
  show ?thesis
    using assms wf [of "item_frame item" "conn_writer c"]
    by (auto simp: write_item_def add_queue_len_def SetWriteDeadline_def Let_def split: if_splits prod.splits
        intro: exI [of _ 0])
qed

section \<open>Every step keeps the invariant\<close>

lemma wrap32_small: "- (2 ^ 31) \<le> x \<Longrightarrow> x < 2 ^ 31 \<Longrightarrow> wrap32 x = x"
  by (simp add: in_i32_def)

lemma wq_bounds_step: "wq_bounds s \<Longrightarrow> wq_step s s' \<Longrightarrow> wq_bounds s'"
  by (erule wq_stepE)
     (auto simp: wq_bounds_def chan_ok_def add_queue_len_def close_flag_def close_queue_def close_chan_def close_net_def
        set_fail_def write_item_parts elim!: async_send_cases recv_cases split: if_splits outcome.splits)

lemma wq_counter_step:
  assumes "wq_counter s" "wq_bounds s" "wq_step s s'"
  shows "wq_counter s'"
proof -
  let ?c = "wq_conn s"
  have n: "writeQueueLen ?c = int (length (chan_buf (writeQueue ?c)) + counted (wq_producers s) + length (busy (wq_loop s)))"
    using assms(1) by (simp add: wq_counter_def)
  have b: "length (chan_buf (writeQueue ?c)) \<le> chan_cap (writeQueue ?c)" "counted (wq_producers s) \<le> length (wq_producers s)"
      "chan_cap (writeQueue ?c) + length (wq_producers s) + 2 < 2 ^ 31"
    using assms(2) counted_le by (auto simp: wq_bounds_def chan_ok_def)
  have "length (busy (wq_loop s)) \<le> 1" by (cases "wq_loop s") simp_all
  note b = b this
  have up: "wrap32 (writeQueueLen ?c + 1) = writeQueueLen ?c + 1" "wrap32 (writeQueueLen ?c - 1) = writeQueueLen ?c - 1"
    using n b by (intro wrap32_small; simp)+
  from assms(3) show ?thesis
  proof cases
    case (count_up i f now)
    then show ?thesis using n up counted_update_simps(4) by (auto simp: wq_counter_def add_queue_len_def)
  next
    case (send_item i item err c)
    then show ?thesis using n up counted_update_simps(5) [OF send_item(3,4)]
      by (auto simp: wq_counter_def add_queue_len_def elim!: async_send_cases)
  next
    case (take_one item q)
    then show ?thesis using n by (auto simp: wq_counter_def elim!: recv_cases)
  next
    case (write_one item now err go c)
    then show ?thesis using n up write_item_parts [OF write_one(4)] by (auto simp: wq_counter_def)
  qed (use n counted_update_simps(1,2,3) in \<open>auto simp: wq_counter_def close_flag_def close_queue_def close_chan_def close_net_def
      set_fail_def split: if_splits outcome.splits\<close>)
qed

lemma wq_order_step:
  assumes "wq_order s" "wq_step s s'"
  shows "wq_order s'"
  using assms(2)
proof cases
  case (write_one item now err go c)
  then show ?thesis using assms(1) write_item_parts [OF write_one(4)] by (auto simp: wq_order_def)
qed (use assms(1) in \<open>auto simp: wq_order_def add_queue_len_def close_flag_def close_queue_def close_chan_def close_net_def
    set_fail_def elim!: async_send_cases recv_cases split: if_splits outcome.splits\<close>)

lemma wq_closing_step:
  assumes "wq_closing s" "wq_step s s'"
  shows "wq_closing s'"
  using assms(2)
proof cases
  case (write_one item now err go c)
  then show ?thesis using assms(1) write_item_parts [OF write_one(4)] by (auto simp: wq_closing_def)
qed (use assms(1) in \<open>auto simp: wq_closing_def add_queue_len_def close_flag_def close_queue_def close_chan_def close_net_def
    set_fail_def elim!: async_send_cases recv_cases split: if_splits outcome.splits\<close>)

lemma wq_wire_keep:
  assumes "wq_wire s" "sent (fw_w (conn_writer c)) = sent (fw_w (conn_writer (wq_conn s)))"
    "fw_maxMessageSize (conn_writer c) = fw_maxMessageSize (conn_writer (wq_conn s))"
    "wq_done s' = wq_done s" "wq_start s' = wq_start s" "wq_conn s' = c" "wq_loop s = LoopDone \<longrightarrow> wq_loop s' = LoopDone"
  shows "wq_wire s'"
  using assms by (auto simp: wq_wire_def written_def)

lemma wq_wire_step:
  assumes "wq_wire s" "wq_step s s'"
  shows "wq_wire s'"
  using assms(2)
proof cases
  case (write_one item now err go c)
  have "sent (fw_w (conn_writer (wq_conn s))) = wq_start s @ concat (map frame_wire (written s))"
    using assms(1) write_one(3) by (auto simp: wq_wire_def)
  then show ?thesis
    using write_item_wire [OF write_one(4)] assms(1) write_item_parts(4) [OF write_one(4)] write_one(1)
    by (cases err) (auto simp: wq_wire_def written_def intro: exI [of _ 0])
next
  case (send_item i item err c)
  then show ?thesis
    by (intro wq_wire_keep [OF assms(1), where c = c]) (auto simp: add_queue_len_def elim!: async_send_cases)
next
  case (flag c)
  then show ?thesis
    by (intro wq_wire_keep [OF assms(1), where c = c]) (auto simp: close_flag_def split: if_splits)
next
  case (close_q c)
  then show ?thesis
    by (intro wq_wire_keep [OF assms(1), where c = c]) (auto simp: close_queue_def close_chan_def split: if_splits outcome.splits)
qed (rule wq_wire_keep [OF assms(1)]; simp add: add_queue_len_def close_net_def set_fail_def)+

interpretation wqm: step_invariant wq_step wq_inv
  by unfold_locales
     (auto simp: wq_inv_def intro: wq_counter_step wq_bounds_step wq_order_step wq_closing_step wq_wire_step)

lemma wq_inv_init:
  assumes "NewConnection now remote i out cfg = Ret c" "MaxWriteQueueSize cfg + int n + 2 < 2 ^ 31"
  shows "wq_inv (wq_init n c)"
proof -
  have "0 \<le> MaxWriteQueueSize cfg"
    and c: "writeQueue c = make_chan (nat (MaxWriteQueueSize cfg))" "writeQueueLen c = 0" "\<not> conn_closed c"
      "conn_writer c = NewFrameWriter out"
    using assms(1) by (auto simp: NewConnection_def split: if_splits)
  moreover have "counted (replicate n Idle) = 0" by (simp add: counted_def filter_replicate)
  ultimately show ?thesis
    using assms(2) by (auto simp: wq_inv_defs wq_init_def make_chan_def chan_ok_def NewFrameWriter_def nat_less_iff)
qed

text \<open>A panic can only come from a send on the queue that \<open>Close\<close> has closed, never from closing it twice.\<close>

definition wq_panic_cause :: "wq \<Rightarrow> bool" where
  "wq_panic_cause s \<longleftrightarrow> wq_inv s \<and> (wq_panicked s \<longrightarrow>
     wq_closer s \<in> {QueueClosed, NetClosed} \<and> counted (wq_producers s) > 0)"

lemma counted_pos: "i < length ps \<Longrightarrow> ps ! i = Counted item \<Longrightarrow> counted ps > 0"
  using length_pos_if_in_set [of "ps ! i" "filter is_counted ps"] nth_mem [of i ps] by (simp add: counted_def)

interpretation wqp: step_invariant wq_step wq_panic_cause
proof
  fix s s'
  assume p: "wq_panic_cause s" and st: "wq_step s s'"
  then have i: "wq_inv s" by (simp add: wq_panic_cause_def)
  then have inv: "wq_inv s'" and closing: "wq_closing s" using wqm.kept [OF i st] by (simp_all add: wq_inv_def)
  have calm: "wq_panic_cause s'" if "\<not> wq_panicked s'" using inv that by (simp add: wq_panic_cause_def)
  from st show "wq_panic_cause s'"
  proof cases
    case (send_panic i item)
    then have "chan_closed (writeQueue (wq_conn s))"
      by (auto simp: async_send_def try_send_def split: if_splits)
    then have "wq_closer s \<in> {QueueClosed, NetClosed}" using closing by (simp add: wq_closing_def)
    then show ?thesis using send_panic(1) inv counted_pos [OF send_panic(3,4)] by (simp add: wq_panic_cause_def)
  next
    case close_panic
    then have "chan_closed (writeQueue (wq_conn s))" by (simp add: close_queue_def close_chan_def split: if_splits)
    then show ?thesis using closing close_panic(3) by (simp add: wq_closing_def)
  qed (rule calm; simp)+
qed

section \<open>Two runs\<close>

lemma async_check_open: "async_check c = None \<Longrightarrow> \<not> conn_closed c \<and> \<not> queue_full c"
  by (auto simp: async_check_def split: if_splits)

text \<open>One frame through the queue.\<close>

lemma run_one_write:
  assumes "async_check c = None" "writeQueue c = make_chan (Suc m)" "write_fail (fw_w (conn_writer c)) = None"
    and "fw_maxMessageSize (conn_writer c) = of_nat DefaultMaxMessageSize" "length (Payload f) \<le> DefaultMaxMessageSize"
    and "0 \<le> WriteDeadlineMS (conn_config c)" "WriteDeadlineMS (conn_config c) < 2 ^ 40"
  shows "\<exists>s. wq_step\<^sup>*\<^sup>* (wq_init 1 c) s \<and> written s = [f]"
proof -
  let ?s0 = "wq_init 1 c"
  let ?sa = "?s0\<lparr>wq_producers := (wq_producers ?s0)[0 := Opened f]\<rparr>"
  let ?s1 = "?sa\<lparr>wq_producers := (wq_producers ?sa)[0 := Checked f]\<rparr>"
  let ?it = "async_item 0 f (wq_conn ?s1)"
  let ?s2 = "?s1\<lparr>wq_conn := add_queue_len 1 (wq_conn ?s1), wq_producers := (wq_producers ?s1)[0 := Counted ?it]\<rparr>"
  have sta: "wq_step ?s0 ?sa" by (rule see_open) (use async_check_open [OF assms(1)] in \<open>simp_all add: wq_init_def\<close>)
  have st1: "wq_step ?sa ?s1" by (rule see_room) (use async_check_open [OF assms(1)] in \<open>simp_all add: wq_init_def\<close>)
  have st2: "wq_step ?s1 ?s2" by (rule count_up) (simp_all add: wq_init_def)
  obtain c3 where c3: "async_send ?it (wq_conn ?s2) = Ret (None, c3)"
    and q3: "writeQueue c3 = (make_chan (Suc m))\<lparr>chan_buf := [?it]\<rparr>" and w3: "conn_writer c3 = conn_writer c" "\<not> conn_closed c3"
    using assms(2) async_check_open [OF assms(1)]
    by (simp add: wq_init_def async_send_def try_send_def make_chan_def add_queue_len_def)
  let ?s3 = "?s2\<lparr>wq_conn := c3, wq_producers := (wq_producers ?s2)[0 := Idle],
      wq_accepted := wq_accepted ?s2 @ (if None = (None :: go_error option) then [item_frame ?it] else [])\<rparr>"
  have st3: "wq_step ?s2 ?s3" by (rule send_item [OF _ _ _ c3]) (simp_all add: wq_init_def)
  let ?s4 = "?s3\<lparr>wq_conn := (wq_conn ?s3)\<lparr>writeQueue := make_chan (Suc m)\<rparr>, wq_loop := LoopBusy ?it\<rparr>"
  have st4: "wq_step ?s3 ?s4" by (rule take_one) (simp_all add: wq_init_def q3 recv_def make_chan_def)
  have dl: "\<not> item_deadline ?it < 0"
    using assms(6,7) by (simp add: async_item_def write_deadline_def wq_init_def millisecond_def in_i64_def)
  obtain c5 where c5: "write_item 0 ?it (wq_conn ?s4) = (None, True, c5)"
    using dl w3 assms(3,4,5)
    by (simp add: write_item_def Let_def SetWriteDeadline_def WriteFrame_def Marshal_eq conn_write_def async_item_def DefaultMaxMessageSize_def)
  let ?s5 = "?s4\<lparr>wq_conn := c5, wq_loop := (if True then LoopIdle else LoopDone),
      wq_done := wq_done ?s4 @ [(item_frame ?it, None = (None :: go_error option))]\<rparr>"
  have st5: "wq_step ?s4 ?s5" by (rule write_one [OF _ _ c5]) (simp_all add: wq_init_def)
  have "wq_step\<^sup>*\<^sup>* ?s0 ?s5"
    by (rule converse_rtranclp_into_rtranclp [OF sta converse_rtranclp_into_rtranclp [OF st1 converse_rtranclp_into_rtranclp [OF st2
          converse_rtranclp_into_rtranclp [OF st3 converse_rtranclp_into_rtranclp [OF st4 r_into_rtranclp [of wq_step, OF st5]]]]]])
  moreover have "written ?s5 = [f]" by (simp add: written_def wq_init_def async_item_def)
  ultimately show ?thesis by blast
qed

text \<open>A writer between its check and its send while another goroutine closes the connection.\<close>

lemma run_close_race:
  assumes "async_check c = None" "\<not> chan_closed (writeQueue c)"
  shows "\<exists>s. wq_step\<^sup>*\<^sup>* (wq_init 1 c) s \<and> wq_panicked s"
proof -
  let ?s0 = "wq_init 1 c"
  let ?sa = "?s0\<lparr>wq_producers := (wq_producers ?s0)[0 := Opened f]\<rparr>"
  let ?s1 = "?sa\<lparr>wq_producers := (wq_producers ?sa)[0 := Checked f]\<rparr>"
  let ?it = "async_item 0 f (wq_conn ?s1)"
  let ?s2 = "?s1\<lparr>wq_conn := add_queue_len 1 (wq_conn ?s1), wq_producers := (wq_producers ?s1)[0 := Counted ?it]\<rparr>"
  have sta: "wq_step ?s0 ?sa" by (rule see_open) (use async_check_open [OF assms(1)] in \<open>simp_all add: wq_init_def\<close>)
  have st1: "wq_step ?sa ?s1" by (rule see_room) (use async_check_open [OF assms(1)] in \<open>simp_all add: wq_init_def\<close>)
  have st2: "wq_step ?s1 ?s2" by (rule count_up) (simp_all add: wq_init_def)
  let ?c3 = "(wq_conn ?s2)\<lparr>conn_closed := True\<rparr>"
  let ?s3 = "?s2\<lparr>wq_conn := ?c3, wq_closer := Flagged\<rparr>"
  have st3: "wq_step ?s2 ?s3"
    by (rule flag) (simp_all add: wq_init_def close_flag_def add_queue_len_def async_check_open [OF assms(1)])
  let ?c4 = "?c3\<lparr>writeQueue := (writeQueue c)\<lparr>chan_closed := True\<rparr>\<rparr>"
  let ?s4 = "?s3\<lparr>wq_conn := ?c4, wq_closer := QueueClosed\<rparr>"
  have st4: "wq_step ?s3 ?s4"
    by (rule close_q) (use assms(2) in \<open>simp_all add: wq_init_def close_queue_def close_chan_def add_queue_len_def\<close>)
  let ?s5 = "?s4\<lparr>wq_panicked := True\<rparr>"
  have st5: "wq_step ?s4 ?s5"
    by (rule send_panic [of _ 0 ?it]) (simp_all add: wq_init_def async_send_def try_send_def)
  have "wq_step\<^sup>*\<^sup>* ?s0 ?s5"
    by (rule converse_rtranclp_into_rtranclp [OF sta converse_rtranclp_into_rtranclp [OF st1 converse_rtranclp_into_rtranclp [OF st2
          converse_rtranclp_into_rtranclp [OF st3 converse_rtranclp_into_rtranclp [OF st4 r_into_rtranclp [of wq_step, OF st5]]]]]])
  then show ?thesis by (intro exI [of _ ?s5]) simp
qed

text \<open>A fresh connection with the default configuration, for the witnesses.\<close>

definition sample_new :: "Connection outcome" where
  "sample_new = NewConnection (\<lambda>_. 0) ''10.0.0.1:5'' \<lparr> segments = [], read_end = E Io_EOF \<rparr>
     \<lparr> sent = [], write_fail = None \<rparr> DefaultConfig"

lemma sample_new_open:
  "\<exists>c. sample_new = Ret c \<and> async_check c = None \<and> writeQueue c = make_chan (Suc 999) \<and>
     write_fail (fw_w (conn_writer c)) = None \<and> fw_maxMessageSize (conn_writer c) = of_nat DefaultMaxMessageSize \<and>
     0 \<le> WriteDeadlineMS (conn_config c) \<and> WriteDeadlineMS (conn_config c) < 2 ^ 40"
  by (simp add: sample_new_def NewConnection_def DefaultConfig_def async_check_def queue_full_def NewFrameWriter_def make_chan_def)

lemma sample_written: "\<exists>c s. sample_new = Ret c \<and> wq_step\<^sup>*\<^sup>* (wq_init 1 c) s \<and> written s = [new_frame 1 3 []]"
proof -
  obtain c where c: "sample_new = Ret c" and o: "async_check c = None" "writeQueue c = make_chan (Suc 999)"
      "write_fail (fw_w (conn_writer c)) = None"
      "fw_maxMessageSize (conn_writer c) = of_nat DefaultMaxMessageSize"
    and b: "0 \<le> WriteDeadlineMS (conn_config c)" "WriteDeadlineMS (conn_config c) < 2 ^ 40"
    using sample_new_open by blast
  have "length (Payload (new_frame 1 3 [])) \<le> DefaultMaxMessageSize" by (simp add: new_frame_def)
  then show ?thesis using c run_one_write [OF o _ b] by blast
qed

section \<open>Properties\<close>

text \<open>
  C15: Whatever the interleaving of writers, write loop, \<open>Close\<close> and network, the atomic counter
  \<open>writeQueueLen\<close> is exact: it is the number of queued items, of writers between their increment and their
  send, and of the item the loop works on; so it is never negative and exceeds the configured size only
  by items in flight.
\<close>

theorem queue_counter_exact:
  assumes "NewConnection now remote i out cfg = Ret c" "MaxWriteQueueSize cfg + int n + 2 < 2 ^ 31"
    and "wq_step\<^sup>*\<^sup>* (wq_init n c) s"
  shows "writeQueueLen (wq_conn s) = int (length (chan_buf (writeQueue (wq_conn s))) +
      counted (wq_producers s) + length (busy (wq_loop s)))"
  using wqm.holds_reachable [OF assms(3) wq_inv_init [OF assms(1,2)]] by (simp add: wq_inv_def wq_counter_def)

theorem queue_counter_exact_witness:
  "\<exists>c s. sample_new = Ret c \<and> wq_step\<^sup>*\<^sup>* (wq_init 1 c) s \<and> written s = [new_frame 1 3 []] \<and>
    writeQueueLen (wq_conn s) = int (length (chan_buf (writeQueue (wq_conn s))) +
      counted (wq_producers s) + length (busy (wq_loop s)))"
proof -
  obtain c s where s: "sample_new = Ret c" "wq_step\<^sup>*\<^sup>* (wq_init 1 c) s" "written s = [new_frame 1 3 []]"
    using sample_written by blast
  show ?thesis
    using s queue_counter_exact [OF s(1) [unfolded sample_new_def] _ s(2)] by (auto simp: DefaultConfig_def)
qed

text \<open>
  C14: The bytes the client receives are, at every moment of every interleaving, the wire forms of a
  subsequence of the accepted frames in the order of acceptance (a frame is skipped only when its deadline
  passed or the connection was closed); after a failed write part of one more frame may follow and then
  nothing.
\<close>

theorem async_writes_in_order:
  assumes "NewConnection now remote i out cfg = Ret c" "MaxWriteQueueSize cfg + int n + 2 < 2 ^ 31"
    and "wq_step\<^sup>*\<^sup>* (wq_init n c) s"
  shows "subseq (written s) (wq_accepted s) \<and>
    (\<exists>k f. sent (fw_w (conn_writer (wq_conn s))) = wq_start s @ concat (map frame_wire (written s)) @ take k (frame_wire f) \<and>
       (k = 0 \<or> wq_loop s = LoopDone))"
proof -
  have inv: "wq_inv s" by (rule wqm.holds_reachable [OF assms(3) wq_inv_init [OF assms(1,2)]])
  have "subseq (map fst (filter snd (wq_done s))) (map fst (wq_done s))"
    by (intro subseq_map subseq_filter_left)
  then have "subseq (written s) (wq_accepted s)"
    using inv subseq_rev_drop_many by (simp add: wq_inv_def wq_order_def written_def)
  then show ?thesis using inv by (auto simp: wq_inv_def wq_wire_def)
qed

theorem async_writes_in_order_witness:
  "\<exists>c s. sample_new = Ret c \<and> wq_step\<^sup>*\<^sup>* (wq_init 1 c) s \<and> written s = [new_frame 1 3 []] \<and>
    subseq [new_frame 1 3 []] (wq_accepted s)"
proof -
  obtain c s where s: "sample_new = Ret c" "wq_step\<^sup>*\<^sup>* (wq_init 1 c) s" "written s = [new_frame 1 3 []]"
    using sample_written by blast
  show ?thesis
    using s async_writes_in_order [OF s(1) [unfolded sample_new_def] _ s(2)] by (auto simp: DefaultConfig_def)
qed



text \<open>
  That panic is reachable on every open connection with room in its queue: a writer passes its check,
  another goroutine closes the connection, and the writer's send hits the closed queue.
\<close>

theorem write_close_race:
  assumes "NewConnection now remote i out cfg = Ret c" "0 < MaxWriteQueueSize cfg"
  shows "\<exists>s. wq_step\<^sup>*\<^sup>* (wq_init 1 c) s \<and> wq_panicked s"
  using assms by (intro run_close_race) (auto simp: NewConnection_def async_check_def queue_full_def make_chan_def split: if_splits)

theorem write_close_race_witness:
  "\<exists>c s. sample_new = Ret c \<and> wq_step\<^sup>*\<^sup>* (wq_init 1 c) s \<and> wq_panicked s"
proof -
  obtain c where c: "sample_new = Ret c" using sample_new_open by blast
  show ?thesis
    using c write_close_race [OF c [unfolded sample_new_def]] by (auto simp: DefaultConfig_def)
qed

section \<open>Close\<close>

lemma drain_closed:
  "conn_closed c \<Longrightarrow> chan_closed (writeQueue c) \<Longrightarrow> drain now k c = (False, c') \<Longrightarrow>
     chan_buf (writeQueue c') = [] \<and> conn_writer c' = conn_writer c \<and> conn_closed c'"
proof (induction now k c rule: drain.induct)
  case (1 now k c)
  show ?case
  proof (cases "chan_buf (writeQueue c)")
    case Nil
    then show ?thesis using "1.prems" by (auto simp: drain.simps [of now k c] recv_def)
  next
    case (Cons item rest)
    let ?q = "(writeQueue c)\<lparr>chan_buf := rest\<rparr>"
    let ?c = "add_queue_len (-1) (c\<lparr>writeQueue := ?q\<rparr>)"
    have r: "recv (writeQueue c) = Some (Some item, ?q)" by (simp add: recv_def Cons)
    have w: "write_item (now k) item (c\<lparr>writeQueue := ?q\<rparr>) = (Some (Errorf ''connection closed''), True, ?c)"
      using "1.prems"(1) by (simp add: write_item_def)
    have "drain now (k + 1) ?c = (False, c')"
      using "1.prems"(3) by (simp add: drain.simps [of now k c] r w)
    then show ?thesis
      using "1.IH" [OF r] w "1.prems" by (simp add: add_queue_len_def)
  qed
qed

lemma drain_ends: "conn_closed c \<Longrightarrow> chan_closed (writeQueue c) \<Longrightarrow> \<exists>c'. drain now k c = (False, c')"
proof (induction now k c rule: drain.induct)
  case (1 now k c)
  show ?case
  proof (cases "chan_buf (writeQueue c)")
    case Nil
    then show ?thesis using "1.prems" by (auto simp: drain.simps [of now k c] recv_def)
  next
    case (Cons item rest)
    let ?q = "(writeQueue c)\<lparr>chan_buf := rest\<rparr>"
    let ?c = "add_queue_len (-1) (c\<lparr>writeQueue := ?q\<rparr>)"
    have r: "recv (writeQueue c) = Some (Some item, ?q)" by (simp add: recv_def Cons)
    have w: "write_item (now k) item (c\<lparr>writeQueue := ?q\<rparr>) = (Some (Errorf ''connection closed''), True, ?c)"
      using "1.prems"(1) by (simp add: write_item_def)
    then show ?thesis
      using "1.IH" [OF r] "1.prems" by (simp add: drain.simps [of now k c] r add_queue_len_def)
  qed
qed



end
