(* ===== verification/SessionProps.thy ===== *)
theory SessionProps
  imports Session WriteQueue
begin

text \<open>
  The properties of a session (\<open>Session\<close>), with a sample session for the witnesses: a client subscribes, one tick
  is generated, batched and sent.
\<close>

section \<open>Connections with room in the write queue\<close>

definition room :: "nat \<Rightarrow> Connection \<Rightarrow> bool" where
  "room n c \<longleftrightarrow> \<not> conn_closed c \<and> \<not> chan_closed (writeQueue c) \<and> length (chan_buf (writeQueue c)) + n \<le> chan_cap (writeQueue c) \<and>
     0 \<le> writeQueueLen c \<and> writeQueueLen c + int n \<le> MaxWriteQueueSize (conn_config c) \<and> MaxWriteQueueSize (conn_config c) < 2 ^ 31"

lemma room_write:
  assumes "room (Suc n) c"
  shows "\<exists>c'. WriteFrameAsync now f c = Ret (None, c') \<and> room n c'"
proof -
  have "wrap32 (writeQueueLen c + 1) = writeQueueLen c + 1"
    using assms by (intro wrap32_id) (simp add: room_def in_i32_def)
  then show ?thesis
    using assms
    by (simp add: room_def WriteFrameAsync_def async_check_def queue_full_def async_send_def try_send_def add_queue_len_def)
qed

lemma room_SendMessage:
  assumes "room (Suc n) c" "pm msg = Inr p"
  shows "\<exists>c'. SendMessage pm now ty msg c = Ret (None, c') \<and> room n c'"
  using room_write [OF assms(1)] assms(2) by (auto simp: SendMessage_def MarshalMessage_def)

lemma room_sub [simp]: "room n (c\<lparr>conn_sub := x\<rparr>) = room n c"
  by (simp add: room_def)

section \<open>A session that delivers a tick\<close>

lemma validated_mode:
  "ValidateSubscribeRequest now (Some sub) = None \<Longrightarrow>
     sub_Mode sub = SUBSCRIPTION_MODE_SECOND \<or> sub_Mode sub = SUBSCRIPTION_MODE_MINUTE"
  by (auto simp: ValidateSubscribeRequest_def verr_def split: if_splits)

lemma handleSubscribe_ok:
  assumes "unmarshal_Subscribe pb (Payload f) = Inr sub" "ValidateSubscribeRequest (now 0) (Some sub) = None"
    and "has_logger h" "conn_sub (h_conn h) = None" "room (Suc n) (h_conn h)" "\<And>ack. marshal_Ack pb ack = Inr (ackp ack)"
  obtains h' where "handleSubscribe pb fe now f h = Ret (None, h')"
    "conn_sub (h_conn h') = Some (NewSubscription (now 1) (sub_Mode sub))" "room n (h_conn h')"
    "generators h' = generators h @ [(NewSubscription (now 1) (sub_Mode sub), 0)]"
    "dataChan h' = dataChan h" "pendingBatch h' = pendingBatch h"
proof -
  let ?c = "(h_conn h)\<lparr>conn_sub := Some (NewSubscription (now 1) (sub_Mode sub))\<rparr>"
  obtain c' where c: "SendSubscriptionConfirmed pb (\<lambda>k. now (k + 3)) ?c = Ret (None, c')" "room n c'"
    unfolding SendSubscriptionConfirmed_def
    using room_SendMessage [of n ?c "marshal_Ack pb", OF _ assms(6)] assms(5) by (simp, blast)
  have "conn_sub c' = conn_sub ?c" by (rule same_but_queueD(1) [OF SendSubscriptionConfirmed_same [OF c(1)]])
  then show ?thesis
    using assms validated_mode [OF assms(2)] c that
    by (auto simp: handleSubscribe_def logged_def GetSubscription_def SetSubscription_def Let_def)
qed

lemma read_one:
  assumes "NetIO.pending (fr_r (conn_reader c)) = wire ProtocolVersion ty p @ q" "\<not> conn_closed c"
    and "length p \<le> unat (fr_maxMessageSize (conn_reader c))" "unat (fr_maxMessageSize (conn_reader c)) + 4 < 2 ^ 32"
  obtains c' where "Conn_ReadFrame now c = (Ret (Inr (new_frame ProtocolVersion ty p)), c')"
    "conn_sub c' = conn_sub c" "room n c' = room n c"
proof -
  obtain r where "ReadFrame ReadFull (now 0) (conn_reader c) = (Ret (Inr (new_frame ProtocolVersion ty p)), r)"
    using tcp_in.ReadFrame_wire [OF assms(1,3,4)] by blast
  then show ?thesis using assms(2) that by (simp add: Conn_ReadFrame_def room_def)
qed

text \<open>A valid SUBSCRIBE frame at the head of the input of an authenticated session.\<close>

definition subscribe_waiting :: "protobuf \<Rightarrow> time \<Rightarrow> SubscribeRequest \<Rightarrow> ConnectionHandler \<Rightarrow> bool" where
  "subscribe_waiting pb t sub h \<longleftrightarrow> (\<exists>p q.
     NetIO.pending (fr_r (conn_reader (h_conn h))) = wire ProtocolVersion MessageTypeSubscribe p @ q \<and>
     length p \<le> unat (fr_maxMessageSize (conn_reader (h_conn h))) \<and> unat (fr_maxMessageSize (conn_reader (h_conn h))) + 4 < 2 ^ 32 \<and>
     unmarshal_Subscribe pb p = Inr sub \<and> ValidateSubscribeRequest t (Some sub) = None)"

lemma read_and_handle_subscribe:
  assumes w: "subscribe_waiting pb t sub h" and "h_authenticated h" "has_logger h" "h_config h = Some cfg"
    and r: "conn_sub (h_conn h) = None" "room (Suc n) (h_conn h)" and m: "\<And>ack. marshal_Ack pb ack = Inr (ackp ack)"
  obtains h' where "read_and_handle pb fe (\<lambda>_. t) h = Ret (None, h')"
    "conn_sub (h_conn h') = Some (NewSubscription t (sub_Mode sub))" "room n (h_conn h')"
    "generators h' = generators h @ [(NewSubscription t (sub_Mode sub), 0)]"
    "dataChan h' = dataChan h" "pendingBatch h' = pendingBatch h"
proof -
  obtain p q where p: "NetIO.pending (fr_r (conn_reader (h_conn h))) = wire ProtocolVersion MessageTypeSubscribe p @ q"
      "length p \<le> unat (fr_maxMessageSize (conn_reader (h_conn h)))" "unat (fr_maxMessageSize (conn_reader (h_conn h))) + 4 < 2 ^ 32"
      "unmarshal_Subscribe pb p = Inr sub" "ValidateSubscribeRequest t (Some sub) = None"
    using w by (auto simp: subscribe_waiting_def)
  let ?c = "SetReadDeadline (t + ReadTimeout cfg) (h_conn h)"
  have c: "conn_reader ?c = conn_reader (h_conn h)" "conn_sub ?c = conn_sub (h_conn h)" "room k ?c = room k (h_conn h)"
      "conn_closed ?c = conn_closed (h_conn h)" for k
    by (simp_all add: SetReadDeadline_def room_def)
  have open_c: "\<not> conn_closed ?c" using r(2) by (simp add: SetReadDeadline_def room_def)
  obtain d where d: "Conn_ReadFrame (\<lambda>k. t) ?c = (Ret (Inr (new_frame ProtocolVersion MessageTypeSubscribe p)), d)"
      "conn_sub d = conn_sub ?c" "room (Suc n) d = room (Suc n) ?c"
    using read_one [of ?c MessageTypeSubscribe p q "\<lambda>_. t" "Suc n"] p open_c c by auto
  let ?h = "h\<lparr>h_conn := d\<rparr>" and ?f = "new_frame ProtocolVersion MessageTypeSubscribe p"
  have f: "Payload ?f = p" "Type ?f = MessageTypeSubscribe" by (simp_all add: new_frame_def)
  have pre: "has_logger ?h" "conn_sub (h_conn ?h) = None" "room (Suc n) (h_conn ?h)"
      "unmarshal_Subscribe pb (Payload ?f) = Inr sub"
    using assms d c p by (simp_all add: f)
  obtain h' where h': "handleSubscribe pb fe (\<lambda>k. t) ?f ?h = Ret (None, h')"
      "conn_sub (h_conn h') = Some (NewSubscription t (sub_Mode sub))" "room n (h_conn h')"
      "generators h' = generators ?h @ [(NewSubscription t (sub_Mode sub), 0)]"
      "dataChan h' = dataChan ?h" "pendingBatch h' = pendingBatch ?h"
    using handleSubscribe_ok [OF pre(4) _ pre(1,2,3) m, of "\<lambda>_. t"] p(5) by metis
  have "processFrame pb fe (\<lambda>k. t) ?f ?h = Ret (None, h')"
    using h'(1) by (simp add: processFrame_def ValidateMessageType_def new_frame_def message_types)
  then have "handle_frame pb fe (\<lambda>k. t) ?f ?h = Ret (None, h')"
    using assms(2) by (simp add: handle_frame_def)
  then have "read_and_handle pb fe (\<lambda>_. t) h = Ret (None, h')"
    using assms(4) d(1) by (simp add: read_and_handle_def)
  then show ?thesis using that h'(2-) by simp
qed

lemma step_subscribe:
  assumes "subscribe_waiting pb (se_now s) sub (se_h s)" "ss_result (se_s s) = None" "loop_ready (se_now s) (se_s s) DefaultC"
    and "h_authenticated (se_h s)" "has_logger (se_h s)" "h_config (se_h s) = Some cfg'"
    and "conn_sub (se_conn s) = None" "room (Suc n) (se_conn s)" "\<And>ack. marshal_Ack pb ack = Inr (ackp ack)"
  obtains h' where "sess_step pb fe cfg s (set_h h' s)"
    "conn_sub (h_conn h') = Some (NewSubscription (se_now s) (sub_Mode sub))" "room n (h_conn h')"
    "generators h' = generators (se_h s) @ [(NewSubscription (se_now s) (sub_Mode sub), 0)]"
    "dataChan h' = dataChan (se_h s)" "pendingBatch h' = pendingBatch (se_h s)"
proof -
  obtain h' where h: "read_and_handle pb fe (\<lambda>_. se_now s) (se_h s) = Ret (None, h')"
      and facts: "conn_sub (h_conn h') = Some (NewSubscription (se_now s) (sub_Mode sub))" "room n (h_conn h')"
      "generators h' = generators (se_h s) @ [(NewSubscription (se_now s) (sub_Mode sub), 0)]"
      "dataChan h' = dataChan (se_h s)" "pendingBatch h' = pendingBatch (se_h s)"
    by (rule read_and_handle_subscribe [OF assms(1,4,5,6,7,8,9)])
  have "Handle_iter pb fe (\<lambda>_. se_now s) DefaultC (se_s s) = Ret ((se_s s)\<lparr>ss_h := h'\<rparr>)"
    by (simp add: finish_iter_def h)
  from message [OF _ assms(2,3) this, of "se_now s"] have "sess_step pb fe cfg s (set_h h' s)"
    by (simp add: clock_def)
  then show ?thesis using that facts by blast
qed

text \<open>Stages of the sample session: \<open>q\<close> is in the data channel, \<open>p\<close> is pending, \<open>k\<close> timer goroutines have started.\<close>

definition stage :: "Subscription \<Rightarrow> nat \<Rightarrow> Tick list list \<Rightarrow> Tick list \<Rightarrow> nat \<Rightarrow> sess \<Rightarrow> bool" where
  "stage sub n q p k s \<longleftrightarrow> se_pc s = Polling \<and> \<not> ss_stopped (se_s s) \<and> conn_sub (se_conn s) = Some sub \<and>
     gen_interval (sub_mode sub) \<noteq> None \<and> room n (se_conn s) \<and> (\<exists>i. generators (se_h s) = [(sub, i)]) \<and>
     chan_cap (dataChan (se_h s)) = 100 \<and> \<not> chan_closed (dataChan (se_h s)) \<and> chan_buf (dataChan (se_h s)) = q \<and>
     pendingBatch (se_h s) = p \<and> se_started s = k \<and> se_inflight s = 0 \<and> \<not> se_overlap s"

lemma stage_gen:
  assumes "stage sub n q p k s" "length q < 100"
  shows "\<exists>s' tick. sess_step pb fe cfg s s' \<and> stage sub n (q @ [[tick]]) p k s' \<and> tick_Mode tick = sub_mode sub \<and>
    se_taken s' = se_taken s \<and> se_sent s' = se_sent s"
proof -
  obtain i where g: "generators (se_h s) = [(sub, i)]" using assms(1) by (auto simp: stage_def)
  let ?tick = "generated_tick (se_now s) (Fin 0) 0 (sub_mode sub) i"
  have "\<exists>h. generate (se_now s) (Fin 0) 0 0 (se_h s) = Ret h \<and> h_conn h = se_conn s \<and>
      generators h = [(sub, wrap64 (i + 1))] \<and> dataChan h = (dataChan (se_h s))\<lparr>chan_buf := q @ [[?tick]]\<rparr> \<and> pendingBatch h = p"
    using assms g by (cases "subscriptionTimer (se_h s)") (simp_all add: stage_def generate_def try_send_def Let_def)
  then obtain h where h: "generate (se_now s) (Fin 0) 0 0 (se_h s) = Ret h" "h_conn h = se_conn s"
      "generators h = [(sub, wrap64 (i + 1))]" "dataChan h = (dataChan (se_h s))\<lparr>chan_buf := q @ [[?tick]]\<rparr>" "pendingBatch h = p"
    by blast
  have "sess_step pb fe cfg s ((set_h h s)\<lparr>se_now := se_now s\<rparr>)"
    by (rule gen [where now = "\<lambda>_. se_now s", OF _ _ _ h(1)]) (use assms(1) g in \<open>auto simp: stage_def clock_def\<close>)
  then show ?thesis
    using assms(1) h by (intro exI [of _ "(set_h h s)\<lparr>se_now := se_now s\<rparr>"] exI [of _ ?tick])
      (auto simp: stage_def generated_tick_def)
qed

lemma stage_take:
  assumes "stage sub n ([tick] # q) p k s" "tick_Mode tick = sub_mode sub" "int (length p) + 1 < max_batch_size cfg"
  shows "\<exists>s'. sess_step pb fe cfg s s' \<and> stage sub n q (p @ [tick]) k s' \<and> se_taken s' = se_taken s @ [tick] \<and> se_sent s' = se_sent s \<and>
    last (h_timers (se_h s')) = \<lparr> tm_kind = RunFlushBatch, tm_when = Some (se_now s + batch_window cfg) \<rparr> \<and> h_timers (se_h s') \<noteq> []"
proof -
  let ?s1 = "(se_s s)\<lparr>ss_h := (se_h s)\<lparr>dataChan := (dataChan (se_h s))\<lparr>chan_buf := q\<rparr>\<rparr>\<rparr>"
  have pop: "pop_data (se_s s) = ([tick], ?s1)"
    using assms(1) by (simp add: stage_def pop_data_def recv_def)
  let ?h = "arm_batch_timer (se_now s + batch_window cfg) ((ss_h ?s1)\<lparr>pendingBatch := p @ [tick]\<rparr>)"
  have tk: "take_ticks (se_now s) cfg [tick] ?s1 = ([tick], False, ?s1\<lparr>ss_h := ?h, ss_drops := 0\<rparr>)"
    using assms by (simp add: stage_def take_ticks_def filterTicksBySubscription_def GetSubscription_def arm_batch_timer_def Let_def)
  have "clearing s = 0" using assms(1) by (simp add: stage_def clearing_def)
  let ?s' = "s\<lparr>se_s := ?s1\<lparr>ss_h := ?h, ss_drops := 0\<rparr>, se_now := se_now s, se_pc := (if False then Flushing else Polling),
      se_taken := se_taken s @ [tick], se_overlap := (se_overlap s \<or> clearing s > 0)\<rparr>"
  have "sess_step pb fe cfg s ?s'"
    by (rule take_data [where now = "\<lambda>_. se_now s", OF _ _ _ _ pop tk]) (use assms(1) in \<open>auto simp: stage_def clock_def\<close>)
  moreover have "stage sub n q (p @ [tick]) k ?s'"
    using assms(1) \<open>clearing s = 0\<close> by (auto simp: stage_def arm_batch_timer_def Let_def)
  moreover have "last (h_timers (se_h ?s')) = \<lparr> tm_kind = RunFlushBatch, tm_when = Some (se_now s + batch_window cfg) \<rparr>"
      "h_timers (se_h ?s') \<noteq> []" "se_taken ?s' = se_taken s @ [tick]" "se_sent ?s' = se_sent s"
    by (simp_all add: arm_batch_timer_def new_timer_def Let_def)
  ultimately show ?thesis by blast
qed

lemma stage_fire:
  assumes "stage sub n q p k s" "i < length (h_timers (se_h s))" "h_timers (se_h s) ! i = \<lparr> tm_kind = RunFlushBatch, tm_when = Some d \<rparr>"
  shows "\<exists>s'. sess_step pb fe cfg s s' \<and> stage sub n q p (k + 1) s' \<and> se_taken s' = se_taken s \<and> se_sent s' = se_sent s"
proof -
  let ?t = "max (se_now s) d"
  let ?s' = "(set_h ((se_h s)\<lparr>h_timers := set_timer None i (h_timers (se_h s))\<rparr>) s)\<lparr>se_now := ?t, se_started := se_started s + 1\<rparr>"
  have "sess_step pb fe cfg s ?s'"
    by (rule fire_flush [where now = "\<lambda>_. ?t", OF _ assms(2)]) (auto simp: assms(3) clock_def due_def)
  then show ?thesis using assms(1) by (intro exI [of _ ?s']) (auto simp: stage_def)
qed

lemma SendDataBatch_ok:
  assumes "room (Suc n) c" "ts \<noteq> []" "\<And>b. marshal_Batch pb b = Inr (bp b)"
  shows "\<exists>c'. SendDataBatch pb now ts c = Ret (None, c') \<and> room n c' \<and> conn_sub c' = conn_sub c"
proof -
  let ?c = "c\<lparr>messagesSent := messagesSent c + 1, bytesSent := bytesSent c + of_nat (length ts * 64)\<rparr>"
  have "room (Suc n) ?c" using assms(1) by (simp add: room_def)
  from room_SendMessage [of n ?c "marshal_Batch pb", OF this assms(3)] show ?thesis
    using assms(2) SendMessage_same same_but_queueD(1) by (fastforce simp: SendDataBatch_def Let_def)
qed

lemma flush_send_ok:
  assumes "room (Suc n) (h_conn (ss_h s))" "pendingBatch (ss_h s) \<noteq> []" "\<And>b. marshal_Batch pb b = Inr (bp b)"
  shows "\<exists>c'. flush_send pb now s = Ret (True, s\<lparr>ss_h := (ss_h s)\<lparr>h_conn := c'\<rparr>\<rparr>) \<and> room n c' \<and> conn_sub c' = conn_sub (h_conn (ss_h s))"
  using SendDataBatch_ok [OF assms(1,2), of pb bp now, OF assms(3)] assms(2) by (auto simp: flush_send_def)

text \<open>
  The protobuf parameter of the sample session: every encoding is empty, every SUBSCRIBE payload asks for second ticks.
\<close>

definition sample_sub :: SubscribeRequest where
  "sample_sub = \<lparr> sub_Mode = 1, sub_Symbols = [], sub_StartTimeMs = 0, sub_Metadata = [] \<rparr>"

definition sample_pb :: protobuf where
  "sample_pb = \<lparr> marshal_Ack = \<lambda>_. Inr [], marshal_Error = \<lambda>_. Inr [], marshal_Pong = \<lambda>_. Inr [], marshal_Batch = \<lambda>_. Inr [],
     unmarshal_Auth = \<lambda>_. Inl (ExternalError []), unmarshal_Heartbeat = \<lambda>_. Inl (ExternalError []),
     unmarshal_Subscribe = \<lambda>_. Inr sample_sub \<rparr>"

definition sample_fe :: fmt_env where
  "sample_fe = \<lparr> fmt_float = \<lambda>_. [], mode_String = \<lambda>_. [] \<rparr>"

definition sample_session :: Session where
  "sample_session = \<lparr> ClientID = [], Username = ''u'', Authenticated = True, AuthTime = 0, LastActivity = 0 \<rparr>"

definition sample_client :: "Connection outcome" where
  "sample_client = (case NewConnection (\<lambda>_. 0) ''10.0.0.1:5''
       \<lparr> segments = [wire ProtocolVersion MessageTypeSubscribe []], read_end = E Io_EOF \<rparr>
       \<lparr> sent = [], write_fail = None \<rparr> DefaultConfig of
     Panic \<Rightarrow> Panic | Ret c \<Rightarrow> Ret (SetAuthenticated sample_session c))"

definition sample_start :: "sess outcome" where
  "sample_start = (case sample_client of Panic \<Rightarrow> Panic | Ret c \<Rightarrow> sess_init (\<lambda>_. 0) c DefaultConfig None)"

lemma sample_start_parts:
  obtains c s where "sample_client = Ret c" "sess_init (\<lambda>_. 0) c DefaultConfig None = Ret s" "sample_start = Ret s"
    "conn_sub c = None" "chan_closed (writeQueue c) = conn_closed c" "\<not> conn_closed c"
    "subscribe_waiting sample_pb (se_now s) sample_sub (se_h s)" "ss_result (se_s s) = None" "loop_ready (se_now s) (se_s s) DefaultC"
    "h_authenticated (se_h s)" "has_logger (se_h s)" "h_config (se_h s) = Some DefaultConfig" "conn_sub (se_conn s) = None"
    "room 5 (se_conn s)" "generators (se_h s) = []" "dataChan (se_h s) = make_chan 100" "pendingBatch (se_h s) = []"
    "se_taken s = []" "se_sent s = []" "se_pc s = Polling" "\<not> ss_stopped (se_s s)" "se_started s = 0" "se_inflight s = 0" "\<not> se_overlap s"
proof -
  have v: "ValidateSubscribeRequest 0 (Some sample_sub) = None"
    by (simp add: ValidateSubscribeRequest_def sample_sub_def pb_modes MaxSymbolsCount_def validateMetadata_def MaxMetadataEntries_def)
  have n: "unat (of_nat DefaultMaxMessageSize :: u32) + 4 < 2 ^ 32" by (simp add: DefaultMaxMessageSize_def)
  obtain c where c: "sample_client = Ret c" by (simp add: sample_client_def NewConnection_def DefaultConfig_def)
  obtain s where s: "sess_init (\<lambda>_. 0) c DefaultConfig None = Ret s"
    by (simp add: sess_init_def Handle_start_def NewConnectionHandler_def Let_def)
  have st: "sample_start = Ret s" by (simp add: sample_start_def c s)
  have conn: "conn_sub c = None" "chan_closed (writeQueue c) = conn_closed c" "\<not> conn_closed c" "room 5 c" "conn_authenticated c"
      "NetIO.pending (fr_r (conn_reader c)) = wire ProtocolVersion MessageTypeSubscribe [] @ []"
      "fr_maxMessageSize (conn_reader c) = of_nat DefaultMaxMessageSize"
    using c by (auto simp: sample_client_def NewConnection_def DefaultConfig_def SetAuthenticated_def NewFrameReader_def NetIO.pending_def
        room_def make_chan_def)
  have sess: "se_conn s = c" "se_now s = 0" "ss_result (se_s s) = None" "loop_ready 0 (se_s s) DefaultC"
    "h_authenticated (se_h s)" "has_logger (se_h s)" "h_config (se_h s) = Some DefaultConfig"
    "generators (se_h s) = []" "dataChan (se_h s) = make_chan 100" "pendingBatch (se_h s) = []"
    "se_taken s = []" "se_sent s = []" "se_pc s = Polling" "\<not> ss_stopped (se_s s)" "se_started s = 0" "se_inflight s = 0" "\<not> se_overlap s"
    using s conn(5) by (auto simp: sess_init_def Handle_start_def NewConnectionHandler_def Conn_IsAuthenticated_def heartbeat_due_def due_def
        new_timer_def DefaultConfig_def second_def millisecond_def make_chan_def Let_def)
  have "subscribe_waiting sample_pb 0 sample_sub (se_h s)"
    unfolding subscribe_waiting_def sess(1) conn(6,7)
    by (intro exI [of _ "[]"] conjI) (use v n in \<open>simp_all add: sample_pb_def\<close>)
  then show ?thesis using that c s st conn sess by simp
qed

text \<open>The sample session up to a started timer goroutine with one tick pending and another one in the channel.\<close>

abbreviation sample_steps :: "sess \<Rightarrow> sess \<Rightarrow> bool" where
  "sample_steps \<equiv> (sess_step sample_pb sample_fe DefaultConfig)\<^sup>*\<^sup>*"

lemma sample_subscribed:
  obtains c i s where "sample_client = Ret c" "sess_init (\<lambda>_. 0) c DefaultConfig None = Ret i" "conn_sub c = None"
    "chan_closed (writeQueue c) = conn_closed c" "sample_steps i s"
    "stage (NewSubscription 0 1) 4 [] [] 0 s" "se_taken s = []" "se_sent s = []"
proof -
  obtain c i where c: "sample_client = Ret c" "sess_init (\<lambda>_. 0) c DefaultConfig None = Ret i" "conn_sub c = None"
      "chan_closed (writeQueue c) = conn_closed c"
    and pre: "subscribe_waiting sample_pb (se_now i) sample_sub (se_h i)" "ss_result (se_s i) = None" "loop_ready (se_now i) (se_s i) DefaultC"
      "h_authenticated (se_h i)" "has_logger (se_h i)" "h_config (se_h i) = Some DefaultConfig" "conn_sub (se_conn i) = None" "room (Suc 4) (se_conn i)"
    and rest: "generators (se_h i) = []" "dataChan (se_h i) = make_chan 100" "pendingBatch (se_h i) = []"
      "se_taken i = []" "se_sent i = []" "se_pc i = Polling" "\<not> ss_stopped (se_s i)" "se_started i = 0" "se_inflight i = 0" "\<not> se_overlap i"
    by (rule sample_start_parts) simp
  have "marshal_Ack sample_pb ack = Inr []" for ack by (simp add: sample_pb_def)
  then obtain h' where h: "sess_step sample_pb sample_fe DefaultConfig i (set_h h' i)"
      "conn_sub (h_conn h') = Some (NewSubscription (se_now i) (sub_Mode sample_sub))" "room 4 (h_conn h')"
      "generators h' = generators (se_h i) @ [(NewSubscription (se_now i) (sub_Mode sample_sub), 0)]"
      "dataChan h' = dataChan (se_h i)" "pendingBatch h' = pendingBatch (se_h i)"
    using step_subscribe [OF pre] by metis
  have "se_now i = 0" using c(2) by (auto simp: sess_init_def Handle_start_def NewConnectionHandler_def Let_def)
  then have "stage (NewSubscription 0 1) 4 [] [] 0 (set_h h' i)"
    using h rest by (simp add: stage_def sample_sub_def NewSubscription_def gen_interval_def pb_modes make_chan_def)
  with c h(1) rest show ?thesis by (intro that [of c i "set_h h' i"]) simp_all
qed

lemma sample_racing:
  obtains c i s tick1 tick2 where "sample_client = Ret c" "sess_init (\<lambda>_. 0) c DefaultConfig None = Ret i" "conn_sub c = None"
    "chan_closed (writeQueue c) = conn_closed c"
    "sample_steps i s" "stage (NewSubscription 0 1) 4 [[tick2]] [tick1] 1 s" "tick_Mode tick2 = 1" "se_taken s = [tick1]" "se_sent s = []"
proof -
  obtain c i s0 where c: "sample_client = Ret c" "sess_init (\<lambda>_. 0) c DefaultConfig None = Ret i" "conn_sub c = None"
      "chan_closed (writeQueue c) = conn_closed c"
    and s0: "sample_steps i s0" "stage (NewSubscription 0 1) 4 [] [] 0 s0" "se_taken s0 = []" "se_sent s0 = []"
    by (rule sample_subscribed) simp
  let ?st = "sess_step sample_pb sample_fe DefaultConfig" and ?sub = "NewSubscription 0 1"
  have m: "sub_mode ?sub = 1" by (simp add: NewSubscription_def)
  obtain s1 tick1 where s1: "?st s0 s1" "stage ?sub 4 [[tick1]] [] 0 s1" "tick_Mode tick1 = sub_mode ?sub" "se_taken s1 = []" "se_sent s1 = []"
    using stage_gen [OF s0(2)] s0(3,4) by fastforce
  have cap: "int (length []) + 1 < max_batch_size DefaultConfig" by (simp add: max_batch_size_def DefaultConfig_def)
  obtain s2 where s2: "?st s1 s2" "stage ?sub 4 [] [tick1] 0 s2" "se_taken s2 = [tick1]" "se_sent s2 = []"
      "last (h_timers (se_h s2)) = \<lparr> tm_kind = RunFlushBatch, tm_when = Some (se_now s1 + batch_window DefaultConfig) \<rparr>" "h_timers (se_h s2) \<noteq> []"
    using stage_take [OF s1(2,3) cap] s1(4,5) by fastforce
  obtain s3 where s3: "?st s2 s3" "stage ?sub 4 [] [tick1] 1 s3" "se_taken s3 = [tick1]" "se_sent s3 = []"
    using stage_fire [OF s2(2), of "length (h_timers (se_h s2)) - 1"] s2(3-6) by (fastforce simp: last_conv_nth)
  obtain s4 tick2 where s4: "?st s3 s4" "stage ?sub 4 [[tick2]] [tick1] 1 s4" "tick_Mode tick2 = sub_mode ?sub" "se_taken s4 = [tick1]" "se_sent s4 = []"
    using stage_gen [OF s3(2)] s3(3,4) by fastforce
  have "sample_steps i s4"
    by (rule rtranclp.rtrancl_into_rtrancl [OF rtranclp.rtrancl_into_rtrancl [OF rtranclp.rtrancl_into_rtrancl
        [OF rtranclp.rtrancl_into_rtrancl [OF s0(1) s1(1)] s2(1)] s3(1)] s4(1)])
  with c s4 m show ?thesis by (intro that [of c i s4 tick2 tick1]) simp_all
qed

text \<open>A timer goroutine between sending and clearing while the delivery loop takes more ticks.\<close>

lemma flush_race:
  assumes "se_started s > 0" "se_pc s = Polling" "\<not> ss_stopped (se_s s)" "chan_buf (dataChan (se_h s)) = ticks # q"
    and "flush_send pb (\<lambda>_. se_now s) (se_s s) = Ret (True, (se_s s)\<lparr>ss_h := (se_h s)\<lparr>h_conn := c\<rparr>\<rparr>)"
    and "conn_sub c = conn_sub (se_conn s)"
  shows "\<exists>s'. (sess_step pb fe cfg)\<^sup>*\<^sup>* s s' \<and> se_taken s' = se_taken s @ filterTicksBySubscription ticks (se_h s) \<and>
    se_sent s' = se_sent s @ [pendingBatch (se_h s)] \<and> pendingBatch (se_h s') = []"
proof -
  let ?s1 = "s\<lparr>se_s := (se_s s)\<lparr>ss_h := (se_h s)\<lparr>h_conn := c\<rparr>\<rparr>, se_now := se_now s, se_started := se_started s - 1,
      se_inflight := se_inflight s + (if True then 1 else 0), se_sent := se_sent s @ (if True then [pendingBatch (se_h s)] else []),
      se_overlap := (se_overlap s \<or> clearing s > 0)\<rparr>"
  have st1: "sess_step pb fe cfg s ?s1"
    by (rule timer_flush [where now = "\<lambda>_. se_now s", OF _ assms(1,5)]) (simp add: clock_def)
  obtain ts s2 where pop: "pop_data (se_s ?s1) = (ts, s2)" by (rule prod.exhaust)
  have p: "ts = ticks" "h_conn (ss_h s2) = c"
    using pop assms(4) by (auto simp: pop_data_def recv_def)
  obtain new full s3 where tk: "take_ticks (se_now ?s1) cfg ticks s2 = (new, full, s3)" by (rule prod_cases3)
  have new: "new = filterTicksBySubscription ticks (se_h s)"
    using tk p(2) assms(6)
    by (auto simp: take_ticks_def filterTicksBySubscription_def GetSubscription_def Let_def split: if_splits)
  let ?s2 = "?s1\<lparr>se_s := s3, se_now := se_now s, se_pc := (if full then Flushing else Polling), se_taken := se_taken ?s1 @ new,
      se_overlap := (se_overlap ?s1 \<or> clearing ?s1 > 0)\<rparr>"
  have st2: "sess_step pb fe cfg ?s1 ?s2"
    by (rule take_data [where now = "\<lambda>_. se_now s", OF _ _ _ _ pop [unfolded p(1)]])
       (use assms tk in \<open>simp_all add: clock_def\<close>)
  let ?s3 = "?s2\<lparr>se_s := flush_clear (se_s ?s2), se_inflight := se_inflight ?s2 - 1\<rparr>"
  have st3: "sess_step pb fe cfg ?s2 ?s3" by (rule timer_clear) simp
  have "(sess_step pb fe cfg)\<^sup>*\<^sup>* s ?s3"
    by (rule converse_rtranclp_into_rtranclp [OF st1 converse_rtranclp_into_rtranclp [OF st2 r_into_rtranclp [of "sess_step pb fe cfg", OF st3]]])
  moreover have "pendingBatch (se_h ?s3) = []" "se_taken ?s3 = se_taken s @ new" "se_sent ?s3 = se_sent s @ [pendingBatch (se_h s)]"
    by (simp_all add: flush_clear_evolves)
  ultimately show ?thesis unfolding new by blast
qed

lemma sample_race:
  assumes "stage sub 4 [[tick2]] [tick1] 1 s"
  shows "\<exists>s'. sample_steps s s' \<and> se_sent s' = se_sent s @ [[tick1]]"
proof -
  have r: "room (Suc 3) (h_conn (ss_h (se_s s)))" "pendingBatch (ss_h (se_s s)) \<noteq> []" "\<And>b. marshal_Batch sample_pb b = Inr []"
    using assms by (auto simp: stage_def sample_pb_def)
  obtain c where c: "flush_send sample_pb (\<lambda>_. se_now s) (se_s s) = Ret (True, (se_s s)\<lparr>ss_h := (se_h s)\<lparr>h_conn := c\<rparr>\<rparr>)"
      "conn_sub c = conn_sub (se_conn s)"
    using flush_send_ok [OF r(1,2), of sample_pb "\<lambda>_. []", OF r(3)] by blast
  have "se_started s > 0" "se_pc s = Polling" "\<not> ss_stopped (se_s s)" "chan_buf (dataChan (se_h s)) = [tick2] # []"
    "pendingBatch (se_h s) = [tick1]"
    using assms by (auto simp: stage_def)
  from flush_race [OF this(1-4) c] this(5) show ?thesis by fastforce
qed

section \<open>Properties\<close>



text \<open>
  Every batch sent to a client is non-empty and consists of ticks of the mode the client subscribed to, and that
  mode is SECOND or MINUTE; nothing is sent to a client without a subscription.
\<close>

theorem batches_match_subscription:
  assumes "sess_init now conn cfg srv = Ret i" "conn_sub conn = None" "(sess_step pb fe cfg)\<^sup>*\<^sup>* i s"
  shows "list_all (\<lambda>b. b \<noteq> [] \<and> (\<exists>sub. conn_sub (se_conn s) = Some sub \<and>
     sub_mode sub \<in> {SUBSCRIPTION_MODE_SECOND, SUBSCRIPTION_MODE_MINUTE} \<and> list_all (\<lambda>t. tick_Mode t = sub_mode sub) b)) (se_sent s)"
proof -
  have "mode_inv i" using sess_init_parts [OF assms(1)] assms(2) by (simp add: mode_inv_def)
  then have m: "mode_inv s" by (rule modes.holds_reachable [OF assms(3)])
  have "\<exists>sub. conn_sub (se_conn s) = Some sub \<and> sub_mode sub \<in> {SUBSCRIPTION_MODE_SECOND, SUBSCRIPTION_MODE_MINUTE} \<and>
      list_all (\<lambda>t. tick_Mode t = sub_mode sub) b" if "b \<in> set (se_sent s)" for b
  proof -
    have "matches (se_conn s) b" "b \<noteq> []" using m that by (auto simp: mode_inv_def list_all_iff)
    then show ?thesis using matches_mode m by (fastforce simp: mode_inv_def mode_ok_def pb_modes)
  qed
  then show ?thesis using m by (auto simp: mode_inv_def list_all_iff)
qed

theorem batches_match_subscription_witness:
  "\<exists>c i s tick. sample_client = Ret c \<and> sess_init (\<lambda>_. 0) c DefaultConfig None = Ret i \<and> sample_steps i s \<and> se_sent s = [[tick]] \<and>
     list_all (\<lambda>b. b \<noteq> [] \<and> (\<exists>sub. conn_sub (se_conn s) = Some sub \<and>
       sub_mode sub \<in> {SUBSCRIPTION_MODE_SECOND, SUBSCRIPTION_MODE_MINUTE} \<and> list_all (\<lambda>t. tick_Mode t = sub_mode sub) b)) (se_sent s)"
proof -
  obtain c i s tick1 tick2 where c: "sample_client = Ret c" "sess_init (\<lambda>_. 0) c DefaultConfig None = Ret i" "conn_sub c = None"
    and s: "sample_steps i s" "stage (NewSubscription 0 1) 4 [[tick2]] [tick1] 1 s" "se_sent s = []"
    by (rule sample_racing)
  obtain s' where s': "sample_steps s s'" "se_sent s' = [[tick1]]" using sample_race [OF s(2)] s(3) s(2) by (auto simp: stage_def)
  have "sample_steps i s'" using s(1) s'(1) by (rule rtranclp_trans)
  from c this s' batches_match_subscription [OF c(2,3) this] show ?thesis by blast
qed

text \<open>
  A subscription is final: once set, it is the connection's subscription after any further activity.
\<close>

theorem subscription_final:
  assumes "(sess_step pb fe cfg)\<^sup>*\<^sup>* s s'" "conn_sub (se_conn s) = Some sub"
  shows "conn_sub (se_conn s') = Some sub"
  by (rule fixed.holds_reachable [OF assms])

theorem subscription_final_witness:
  "\<exists>c i s s'. sample_client = Ret c \<and> sess_init (\<lambda>_. 0) c DefaultConfig None = Ret i \<and> sample_steps i s \<and> sample_steps s s' \<and>
     se_sent s = [] \<and> se_sent s' \<noteq> [] \<and> conn_sub (se_conn s) = Some (NewSubscription 0 1) \<and> conn_sub (se_conn s') = Some (NewSubscription 0 1)"
proof -
  obtain c i s tick1 tick2 where c: "sample_client = Ret c" "sess_init (\<lambda>_. 0) c DefaultConfig None = Ret i"
    and s: "sample_steps i s" "stage (NewSubscription 0 1) 4 [[tick2]] [tick1] 1 s" "se_sent s = []"
    by (rule sample_racing)
  obtain s' where s': "sample_steps s s'" "se_sent s' = [[tick1]]" using sample_race [OF s(2)] s(3) s(2) by (auto simp: stage_def)
  have sub: "conn_sub (se_conn s) = Some (NewSubscription 0 1)" using s(2) by (simp add: stage_def)
  from subscription_final [OF s'(1) sub] sub c s s' show ?thesis by fastforce
qed

text \<open>
  C11: Heartbeats do not keep a connection alive.  Whatever the client sends, as long as the connection is open
  the timer started when the handler was created is still armed, and when it expires, one heartbeat timeout after the
  creation of the handler, the connection is closed.
\<close>

theorem heartbeats_do_not_help:
  assumes "sess_init now conn cfg srv = Ret i" "chan_closed (writeQueue conn) = conn_closed conn"
    and "(sess_step pb fe cfg)\<^sup>*\<^sup>* i s" "\<not> conn_closed (se_conn s)"
  shows "h_timers (se_h s) ! 1 = \<lparr> tm_kind = RunHeartbeatTimeout, tm_when = Some (now 2 + HeartbeatTimeout cfg) \<rparr> \<and>
    (\<exists>s'. sess_step pb fe cfg s s' \<and> conn_closed (se_conn s') \<and> se_now s' = max (se_now s) (now 2 + HeartbeatTimeout cfg))"
proof -
  let ?d = "now 2 + HeartbeatTimeout cfg"
  let ?t = "max (se_now s) ?d"
  have "doomed ?d i" using sess_init_parts [OF assms(1)] assms(2) by (simp add: doomed_def)
  then have d: "doomed ?d s" by (rule doom.holds_reachable [OF assms(3)])
  let ?h = "(se_h s)\<lparr>h_timers := set_timer None 1 (h_timers (se_h s))\<rparr>"
  obtain c where c: "Close (\<lambda>k. ?t) (se_conn s) = Ret c" using d Close_Ret by (auto simp: doomed_def)
  then have h: "handleHeartbeatTimeout (\<lambda>k. ?t) ?h = Ret (?h\<lparr>h_cancelled := True, h_conn := c\<rparr>)"
    using d by (simp add: handleHeartbeatTimeout_def logged_def doomed_def)
  have "sess_step pb fe cfg s ((set_h (?h\<lparr>h_cancelled := True, h_conn := c\<rparr>) s)\<lparr>se_now := ?t\<rparr>)"
    by (rule fire_heartbeat [OF _ _ _ _ h])
       (use d assms(4) in \<open>auto simp: doomed_def clock_def timer_free_def off_def due_def\<close>)
  moreover have "h_timers (se_h s) ! 1 = \<lparr> tm_kind = RunHeartbeatTimeout, tm_when = Some ?d \<rparr>"
    using d assms(4) by (cases "h_timers (se_h s) ! 1") (auto simp: doomed_def)
  ultimately show ?thesis using Close_conn_parts [OF c] by fastforce
qed

theorem heartbeats_do_not_help_witness:
  "\<exists>c i s. sample_client = Ret c \<and> sess_init (\<lambda>_. 0) c DefaultConfig None = Ret i \<and> sample_steps i s \<and> se_taken s \<noteq> [] \<and>
     (\<exists>s'. sess_step sample_pb sample_fe DefaultConfig s s' \<and> conn_closed (se_conn s') \<and> se_now s' = max (se_now s) (20 * second))"
proof -
  obtain c i s tick1 tick2 where c: "sample_client = Ret c" "sess_init (\<lambda>_. 0) c DefaultConfig None = Ret i"
      "chan_closed (writeQueue c) = conn_closed c"
    and s: "sample_steps i s" "stage (NewSubscription 0 1) 4 [[tick2]] [tick1] 1 s" "se_taken s = [tick1]"
    by (rule sample_racing)
  have "\<not> conn_closed (se_conn s)" using s(2) by (simp add: stage_def room_def)
  from heartbeats_do_not_help [OF c(2,3) s(1) this]
  obtain s' where s': "sess_step sample_pb sample_fe DefaultConfig s s'" "conn_closed (se_conn s')" "se_now s' = max (se_now s) (20 * second)"
    by (auto simp: DefaultConfig_def)
  have "se_taken s \<noteq> []" using s(3) by simp
  with c s(1) s' show ?thesis by blast
qed

text \<open>
  C12: Ticks can be lost.  When a batch timer has expired and its goroutine sends the pending batch, ticks that the
  delivery loop takes before the goroutine clears the batch are neither sent nor kept.
\<close>

theorem flush_race_loses_ticks:
  assumes "se_started s > 0" "se_pc s = Polling" "\<not> ss_stopped (se_s s)" "chan_buf (dataChan (se_h s)) = ticks # q"
    and "pendingBatch (se_h s) \<noteq> []" "room (Suc n) (se_conn s)" "\<And>b. marshal_Batch pb b = Inr (bp b)"
    and "se_taken s = concat (se_sent s) @ pendingBatch (se_h s)"
  shows "\<exists>s'. (sess_step pb fe cfg)\<^sup>*\<^sup>* s s' \<and> pendingBatch (se_h s') = [] \<and>
    se_taken s' = concat (se_sent s') @ filterTicksBySubscription ticks (se_h s)"
proof -
  obtain c where "flush_send pb (\<lambda>_. se_now s) (se_s s) = Ret (True, (se_s s)\<lparr>ss_h := (se_h s)\<lparr>h_conn := c\<rparr>\<rparr>)"
      "conn_sub c = conn_sub (se_conn s)"
    using flush_send_ok [OF assms(6,5), of pb bp, OF assms(7)] by blast
  from flush_race [OF assms(1-4) this] assms(8) show ?thesis by fastforce
qed

theorem flush_race_loses_ticks_witness:
  "\<exists>c i s s' tick. sample_client = Ret c \<and> sess_init (\<lambda>_. 0) c DefaultConfig None = Ret i \<and> sample_steps i s \<and> sample_steps s s' \<and>
     pendingBatch (se_h s') = [] \<and> se_taken s' = concat (se_sent s') @ [tick]"
proof -
  obtain c i s tick1 tick2 where c: "sample_client = Ret c" "sess_init (\<lambda>_. 0) c DefaultConfig None = Ret i"
    and s: "sample_steps i s" "stage (NewSubscription 0 1) 4 [[tick2]] [tick1] 1 s" "tick_Mode tick2 = 1" "se_taken s = [tick1]" "se_sent s = []"
    by (rule sample_racing)
  have f: "filterTicksBySubscription [tick2] (se_h s) = [tick2]"
    using s(2,3) by (simp add: stage_def filterTicksBySubscription_def GetSubscription_def NewSubscription_def)
  have "\<exists>s'. sample_steps s s' \<and> pendingBatch (se_h s') = [] \<and> se_taken s' = concat (se_sent s') @ filterTicksBySubscription [tick2] (se_h s)"
    by (rule flush_race_loses_ticks [where bp = "\<lambda>_. []" and n = 3]) (use s in \<open>auto simp: stage_def sample_pb_def\<close>)
  then show ?thesis using c s(1) unfolding f by blast
qed

text \<open>
  C13: A valid SUBSCRIBE frame at the head of the input of an authenticated client without a subscription, with room in
  the write queue, is accepted in one step of the message loop: the subscription is set with the requested mode and a tick generator
  runs for it.
\<close>

theorem subscribe_accepted:
  assumes "subscribe_waiting pb (se_now s) sub (se_h s)" "ss_result (se_s s) = None" "loop_ready (se_now s) (se_s s) DefaultC"
    and "h_authenticated (se_h s)" "has_logger (se_h s)" "h_config (se_h s) = Some cfg'"
    and "conn_sub (se_conn s) = None" "room (Suc n) (se_conn s)" "\<And>ack. marshal_Ack pb ack = Inr (ackp ack)"
  shows "\<exists>s'. sess_step pb fe cfg s s' \<and> ss_result (se_s s') = None \<and> conn_sub (se_conn s') = Some (NewSubscription (se_now s) (sub_Mode sub)) \<and>
    generators (se_h s') = generators (se_h s) @ [(NewSubscription (se_now s) (sub_Mode sub), 0)]"
proof -
  obtain h' where "sess_step pb fe cfg s (set_h h' s)" "conn_sub (h_conn h') = Some (NewSubscription (se_now s) (sub_Mode sub))"
      "generators h' = generators (se_h s) @ [(NewSubscription (se_now s) (sub_Mode sub), 0)]"
    by (rule step_subscribe [OF assms])
  then show ?thesis using assms(2) by (intro exI [of _ "set_h h' s"]) simp
qed

theorem subscribe_accepted_witness:
  "\<exists>c i s'. sample_client = Ret c \<and> sess_init (\<lambda>_. 0) c DefaultConfig None = Ret i \<and> sess_step sample_pb sample_fe DefaultConfig i s' \<and>
     conn_sub (se_conn s') = Some (NewSubscription (se_now i) 1)"
proof -
  obtain c i where c: "sample_client = Ret c" "sess_init (\<lambda>_. 0) c DefaultConfig None = Ret i"
    and pre: "subscribe_waiting sample_pb (se_now i) sample_sub (se_h i)" "ss_result (se_s i) = None" "loop_ready (se_now i) (se_s i) DefaultC"
      "h_authenticated (se_h i)" "has_logger (se_h i)" "h_config (se_h i) = Some DefaultConfig" "conn_sub (se_conn i) = None" "room (Suc 4) (se_conn i)"
    by (rule sample_start_parts) simp
  have "\<exists>s'. sess_step sample_pb sample_fe DefaultConfig i s' \<and> ss_result (se_s s') = None \<and>
      conn_sub (se_conn s') = Some (NewSubscription (se_now i) (sub_Mode sample_sub)) \<and>
      generators (se_h s') = generators (se_h i) @ [(NewSubscription (se_now i) (sub_Mode sample_sub), 0)]"
    by (rule subscribe_accepted [OF pre, where ackp = "\<lambda>_. []"]) (simp add: sample_pb_def)
  then show ?thesis using c by (auto simp: sample_sub_def)
qed

end
