(* ===== verification/ServerProps.thy ===== *)
theory ServerProps
  imports ServerTables SessionProps
begin

text \<open>The properties of the whole server, with a sample run in which a client connects, authenticates and is served.\<close>

definition sys_safe :: "protobuf \<Rightarrow> ServerConfig \<Rightarrow> Config \<Rightarrow> IPFilter option \<Rightarrow> system \<Rightarrow> bool" where
  "sys_safe pb cfg acfg f s \<longleftrightarrow> sys_const cfg acfg f s \<and> filter_ok f s \<and> clients_ok pb acfg s"

interpretation safe: step_invariant "srv_step pb fe" "sys_safe pb cfg acfg f" for pb fe cfg acfg f
  by unfold_locales (auto simp: sys_safe_def intro: sys_const_step filter_ok_step clients_ok_step)

interpretation books: step_invariant "srv_step pb fe" "\<lambda>s. counters_ok s \<and> tables_ok s" for pb fe
  by unfold_locales (auto intro: counters_ok_step tables_ok_step)

lemma Start_parts:
  assumes "Server_Start None None (NewServer cfg acfg) = (None, v)"
  shows "\<exists>f. NewIPFilterFromStrings (AllowCIDRs cfg) (BlockCIDRs cfg) = Inr f \<and>
    v = (NewServer cfg acfg)\<lparr> ipFilter := Some f, srv_listening := True, srv_wg := 1 \<rparr>"
  using assms by (auto simp: Server_Start_def NewServer_def Let_def split: sum.splits)

lemma sys_safe_init:
  assumes "Server_Start None None (NewServer cfg acfg) = (None, v)"
  shows "sys_safe pb cfg acfg (ipFilter v) (system_of v p)"
  using Start_parts [OF assms]
  by (auto simp: sys_safe_def sys_const_def filter_ok_def clients_ok_def system_of_def NewServer_def NewAuthenticator_def)

lemma books_init:
  assumes "Server_Start None None (NewServer cfg acfg) = (None, v)"
  shows "counters_ok (system_of v p) \<and> tables_ok (system_of v p)"
  using Start_parts [OF assms]
  by (auto simp: counters_ok_def tables_ok_def tables_def system_of_def NewServer_def NewAuthenticator_def wrap32_def)

lemma mode_inv_batches:
  assumes "mode_inv se"
  shows "list_all (\<lambda>b. b \<noteq> [] \<and> (\<exists>sub. conn_sub (se_conn se) = Some sub \<and>
     sub_mode sub \<in> {SUBSCRIPTION_MODE_SECOND, SUBSCRIPTION_MODE_MINUTE} \<and> list_all (\<lambda>t. tick_Mode t = sub_mode sub) b)) (se_sent se)"
proof -
  have "\<exists>sub. conn_sub (se_conn se) = Some sub \<and> sub_mode sub \<in> {SUBSCRIPTION_MODE_SECOND, SUBSCRIPTION_MODE_MINUTE} \<and>
      list_all (\<lambda>t. tick_Mode t = sub_mode sub) b" if "b \<in> set (se_sent se)" for b
  proof -
    have "matches (se_conn se) b" "b \<noteq> []" using assms that by (auto simp: mode_inv_def list_all_iff)
    then show ?thesis using matches_mode assms by (fastforce simp: mode_inv_def mode_ok_def pb_modes)
  qed
  then show ?thesis using assms by (auto simp: mode_inv_def list_all_iff)
qed

lemma session_presents:
  assumes "Server_Start None None (NewServer cfg acfg) = (None, v)" "(srv_step pb fe)\<^sup>*\<^sup>* (system_of v p) s"
    and "i < length (sv_clients s)" "cl_sess (sv_clients s ! i) = Some se"
  shows "presents pb acfg (cl_in (sv_clients s ! i))" "mode_inv se"
proof -
  have "clients_ok pb acfg s"
    using safe.holds_reachable [OF assms(2) sys_safe_init [OF assms(1)]] by (simp add: sys_safe_def)
  then have "client_ok pb acfg (sv_clients s ! i)" using assms(3) by (simp add: clients_ok_def list_all_at)
  then show "presents pb acfg (cl_in (sv_clients s ! i))" "mode_inv se" using assms(4) by (auto simp: client_ok_def)
qed

lemma clients_permitted:
  assumes "Server_Start None None (NewServer cfg acfg) = (None, v)" "(srv_step pb fe)\<^sup>*\<^sup>* (system_of v p) s"
    and "list_prefixes (AllowCIDRs cfg) = Some a" "list_prefixes (BlockCIDRs cfg) = Some b" "i < length (sv_clients s)"
  shows "\<exists>host port ip. SplitHostPort (cl_addr (sv_clients s ! i)) = Inr (host, port) \<and> ParseIP host = Some ip \<and>
    permits a b (normalizeIP ip)"
proof -
  obtain f where f: "NewIPFilterFromStrings (AllowCIDRs cfg) (BlockCIDRs cfg) = Inr f"
      "\<And>ip. IPFilter_Allow (Some f) (Some ip) = Ret (permits a b (normalizeIP ip))"
    using filter_permits [OF assms(3,4)] by blast
  then have v: "ipFilter v = Some f" using Start_parts [OF assms(1)] by auto
  have "filter_ok (ipFilter v) s"
    using safe.holds_reachable [OF assms(2) sys_safe_init [OF assms(1)]] by (simp add: sys_safe_def)
  then have l: "lets_in (Some f) (cl_addr (sv_clients s ! i))" using assms(5) lets_in_at v by (auto simp: filter_ok_def)
  have "ParseIP [] = None" by (simp add: ParseIP_def ParseAddr_def)
  then obtain host port where h: "SplitHostPort (cl_addr (sv_clients s ! i)) = Inr (host, port)"
    using l by (cases "SplitHostPort (cl_addr (sv_clients s ! i))") (auto simp: lets_in_def IPFilter_Allow_def)
  then obtain ip where ip: "ParseIP host = Some ip"
    using l by (cases "ParseIP host") (auto simp: lets_in_def IPFilter_Allow_def)
  then show ?thesis using h l f(2) by (simp add: lets_in_def)
qed

section \<open>Properties\<close>

text \<open>
  C26: in every reachable state of a started server a client has a session, and so can be sent data, only if
  the bytes it sent begin with an AUTH frame that carries the configured user name and password; and every batch
  handed to its connection is non-empty and holds only ticks of the mode it subscribed to.
\<close>

theorem only_authenticated_served:
  assumes "Server_Start None None (NewServer cfg acfg) = (None, v)" "(srv_step pb fe)\<^sup>*\<^sup>* (system_of v p) s"
    and "i < length (sv_clients s)" "cl_sess (sv_clients s ! i) = Some se"
  shows "presents pb acfg (cl_in (sv_clients s ! i)) \<and>
    list_all (\<lambda>b. b \<noteq> [] \<and> (\<exists>sub. conn_sub (se_conn se) = Some sub \<and>
      sub_mode sub \<in> {SUBSCRIPTION_MODE_SECOND, SUBSCRIPTION_MODE_MINUTE} \<and> list_all (\<lambda>t. tick_Mode t = sub_mode sub) b)) (se_sent se)"
  using session_presents [OF assms] mode_inv_batches by blast

text \<open>
  C27: every client the server has ever handed to a handler has an address that the configured lists permit.
\<close>

theorem only_permitted_clients:
  assumes "Server_Start None None (NewServer cfg acfg) = (None, v)" "(srv_step pb fe)\<^sup>*\<^sup>* (system_of v p) s"
    and "list_prefixes (AllowCIDRs cfg) = Some a" "list_prefixes (BlockCIDRs cfg) = Some b" "i < length (sv_clients s)"
  shows "\<exists>host port ip. SplitHostPort (cl_addr (sv_clients s ! i)) = Inr (host, port) \<and> ParseIP host = Some ip \<and>
    permits a b (normalizeIP ip)"
  by (rule clients_permitted [OF assms])

text \<open>
  C30: the books of the server are right in every reachable state: \<open>activeConns\<close> is the number of connections being
  handled, every entry of the connection table and every authenticated session belongs to a connection that has not been
  unregistered, and the wait group counts the accept loop and every connection that ever got a goroutine of its own,
  also after it has ended.
\<close>

theorem server_books:
  assumes "Server_Start None None (NewServer cfg acfg) = (None, v)" "(srv_step pb fe)\<^sup>*\<^sup>* (system_of v p) s"
  shows "activeConns (sv s) = wrap32 (int (length (filter counted_client (sv_clients s)))) \<and>
    tables (srv_conns (sv s)) (fset (fmdom (sessions (srv_auth (sv s))))) (sv_clients s) \<and>
    srv_wg (sv s) = of_bool (sv_accept s \<noteq> AcceptEnded) + int (length (filter cl_direct (sv_clients s)))"
  using books.holds_reachable [OF assms(2) books_init [OF assms(1)]] by (simp add: counters_ok_def tables_ok_def)

section \<open>A run\<close>

lemma accept_run:
  assumes acc: "sv_accept s = Accepting" "srv_listening (sv s)" "filter_gate (fst a) (sv s) = Ret True"
    and d: "CheckConnectionAllowed (fst a) t t (srv_ddos (sv s)) = (True, d)"
    and ok: "\<not> ShouldRejectConnection (srv_breach (sv s))" "limit_gate (sv s)"
    and p: "Submit (length (sv_clients s)) (sv_pool s) = Ret (r, p)"
  shows "\<exists>s'. (srv_step pb fe)\<^sup>*\<^sup>* s s' \<and> sv_clients s' = sv_clients s @ [new_client a (\<not> r)] \<and> sv_pool s' = p \<and>
    srv_config (sv s') = srv_config (sv s) \<and> srv_auth (sv s') = srv_auth (sv s) \<and> srv_ctx (sv s') = srv_ctx (sv s)"
proof -
  let ?v = "(sv s)\<lparr> srv_ddos := d \<rparr>"
  let ?s1 = "s\<lparr> sv_accept := Filtering a \<rparr>" let ?s2 = "s\<lparr> sv_accept := Screening a \<rparr>"
  let ?s3 = "s\<lparr> sv := ?v, sv_accept := Shedding a \<rparr>" let ?s4 = "s\<lparr> sv := ?v, sv_accept := Limiting a \<rparr>"
  let ?s5 = "s\<lparr> sv := ?v, sv_accept := Submitting a \<rparr>"
  let ?s6 = "?s5\<lparr> sv_accept := Accepting, sv_pool := p, sv_clients := sv_clients s @ [new_client a (\<not> r)],
    sv := ?v\<lparr> srv_wg := srv_wg ?v + (if r then 0 else 1) \<rparr> \<rparr>"
  have "srv_step pb fe s ?s1" using acc(1,2) by (rule srv_step.accept)
  moreover have "srv_step pb fe ?s1 ?s2" using srv_step.gate_filter [of ?s1 a True pb fe] acc(3) by simp
  moreover have "srv_step pb fe ?s2 ?s3" using srv_step.gate_ddos [of ?s2 a t t True d pb fe] d by simp
  moreover have "srv_step pb fe ?s3 ?s4" using srv_step.gate_breach [of ?s3 a pb fe] ok(1) by simp
  moreover have "srv_step pb fe ?s4 ?s5" using srv_step.gate_limit [of ?s4 a pb fe] ok(2) by (simp add: limit_gate_def)
  moreover have "srv_step pb fe ?s5 ?s6" using srv_step.submit [of ?s5 a r p pb fe] p by simp
  ultimately have "(srv_step pb fe)\<^sup>*\<^sup>* s ?s6" by (meson converse_rtranclp_into_rtranclp rtranclp.rtrancl_refl)
  then show ?thesis by (rule exI [where x = ?s6, OF conjI]) simp
qed

lemma pool_run:
  assumes w: "pl_workers (sv_pool s) = Waiting # ws" "\<forall>i. Running i \<notin> set ws"
    and q: "chan_buf (taskQueue (pl_pool (sv_pool s))) = i # is"
  shows "\<exists>p. (srv_step pb fe)\<^sup>*\<^sup>* s (s\<lparr> sv_pool := p \<rparr>) \<and> Running i \<in> set (pl_workers p)"
proof -
  let ?p = "sv_pool s"
  obtain q' where q': "recv (taskQueue (pl_pool ?p)) = Some (Some i, q')" using q by (simp add: recv_def)
  let ?p1 = "set_worker 0 (Got i) (set_pool ((pl_pool ?p)\<lparr> taskQueue := q' \<rparr>) (?p\<lparr> pl_started := pl_started ?p @ [i] \<rparr>))"
  let ?p2 = "set_worker 0 (Running i) (set_pool (add_queued (- 1) (pl_pool ?p1)) ?p1)"
  have "pool_step ?p ?p1" using pool_step.take_task [of 0 ?p i q'] w q' by simp
  then have "srv_step pb fe s (s\<lparr> sv_pool := ?p1 \<rparr>)"
    using w by (intro srv_step.pool_runs) auto
  moreover have "pool_step ?p1 ?p2" using pool_step.begin_task [of 0 ?p1 i] w by simp
  then have "srv_step pb fe (s\<lparr> sv_pool := ?p1 \<rparr>) (s\<lparr> sv_pool := ?p2 \<rparr>)"
    using srv_step.pool_runs [of "s\<lparr> sv_pool := ?p1 \<rparr>" ?p2 pb fe] w by auto
  ultimately have "(srv_step pb fe)\<^sup>*\<^sup>* s (s\<lparr> sv_pool := ?p2 \<rparr>)" by (meson converse_rtranclp_into_rtranclp rtranclp.rtrancl_refl)
  then show ?thesis by (rule exI [where x = ?p2, OF conjI]) (simp add: w)
qed

text \<open>A client with the right credentials is served.\<close>

lemma process_ok:
  assumes v: "srv_auth v = NewAuthenticator acfg" and c: "NewConnection (\<lambda>_. 0) addr i out cfg = Ret c"
    and i: "NetIO.pending i = wire ProtocolVersion MessageTypeAuth p @ q" "length p \<le> unat (MaxMessageSize cfg)"
      "MaxMessageSize cfg \<noteq> 0" "unat (MaxMessageSize cfg) + 4 < 2 ^ 32"
    and req: "unmarshal_Auth pb p = Inr req" "auth_Username req = cfg_Username acfg" "auth_Password req = cfg_Password acfg"
    and ack: "\<And>m. marshal_Ack pb m = Inr (ackp m)" and size: "1 \<le> MaxWriteQueueSize cfg" "MaxWriteQueueSize cfg < 2 ^ 31"
  shows "\<exists>se v'. processConnection pb (\<lambda>_. 0) AuthDefault c v = Ret (Serves se, v')"
proof -
  let ?c = "SetReadDeadline (0 + AuthTimeout (srv_config v)) c"
  have parts: "NetIO.pending (fr_r (conn_reader ?c)) = wire ProtocolVersion MessageTypeAuth p @ q" "\<not> conn_closed ?c"
      "fr_maxMessageSize (conn_reader ?c) = MaxMessageSize cfg" "room 1 ?c" "conn_remote ?c = addr"
    using c i(1,3) size by (auto simp: NewConnection_def SetReadDeadline_def NewFrameReader_def room_def make_chan_def split: if_splits)
  obtain c' where c': "Conn_ReadFrame (\<lambda>k. 0) ?c = (Ret (Inr (new_frame ProtocolVersion MessageTypeAuth p)), c')" "room 1 c' = room 1 ?c"
    using read_one [OF parts(1,2), of "\<lambda>_. 0" 1] i(2,4) parts(3) by (metis (no_types, lifting))
  obtain session a where a: "Authenticate (unmarshal_Auth pb) (\<lambda>_. 0) (conn_remote c') (new_frame ProtocolVersion MessageTypeAuth p)
      (srv_auth v) = (Inr session, a)"
    using req by (auto simp: v Authenticate_def NewAuthenticator_def NewRateLimiter_def Allow_def new_frame_def Let_def)
  have "room (Suc 0) (SetAuthenticated session c')" using c'(2) parts(4) by (simp add: room_def SetAuthenticated_def)
  then obtain c'' where c'': "SendAuthSuccess pb (\<lambda>_. 0) (SetAuthenticated session c') = Ret (None, c'')"
    unfolding SendAuthSuccess_def using room_SendMessage [where pm = "marshal_Ack pb", OF _ ack] by blast
  obtain se where "sess_init (\<lambda>_. 0) (SetReadDeadline 0 c'') (srv_config v) (Some (authFailures v)) = Ret se"
    by (auto simp: sess_init_def Handle_start_def NewConnectionHandler_def Let_def)
  then show ?thesis using c' a c''
    by (auto simp: processConnection_def first_frame_def ValidateFirstFrame_def new_frame_def auth_succeeded_def Let_def)
qed

text \<open>A server that admits one network, and a client of that network that logs in.\<close>

definition sample_server :: ServerConfig where
  "sample_server = DefaultConfig\<lparr> AllowCIDRs := [''1.2.3.0/24''] \<rparr>"

definition good_request :: AuthRequest where
  "good_request = \<lparr> auth_Username = ''user'', auth_Password = ''secret'', auth_ClientId = [], auth_Version = [] \<rparr>"

definition login_pb :: protobuf where
  "login_pb = sample_pb\<lparr> unmarshal_Auth := \<lambda>_. Inr good_request \<rparr>"

definition login_conn :: incoming where
  "login_conn = (''1.2.3.4:5'', \<lparr> segments = [wire ProtocolVersion MessageTypeAuth []], read_end = E Io_EOF \<rparr>, \<lparr> sent = [], write_fail = None \<rparr>)"

lemma sample_lists:
  "list_prefixes (AllowCIDRs sample_server) = Some [([1, 2, 3, 0], 24)]" "list_prefixes (BlockCIDRs sample_server) = Some []"
proof -
  have t: "TrimSpace ''1.2.3.0/24'' = ''1.2.3.0/24''"
    by (simp add: TrimSpace_def trim_left.simps trim_right.simps decode_rune_def decode_bytes.simps width_def IsSpace_def decode_last_rune_def)
  have i: "index_byte CHR ''/'' ''1.2.3.0/24'' = Some 7" by code_simp
  have a: "ParseAddr ''1.2.3.0'' = Some (True, v4InV6Prefix @ [1, 2, 3, 0])" by code_simp
  have b: "parse_bits ''24'' = Some 24" by (simp add: parse_bits_def decimal_def is_digit_def digit_value_def)
  have n: "normalizeIP (v4InV6Prefix @ [1, 2, 3, 0]) = [1, 2, 3, 0]" by code_simp
  show "list_prefixes (AllowCIDRs sample_server) = Some [([1, 2, 3, 0], 24)]"
    by (simp add: sample_server_def DefaultConfig_def list_prefixes_def entries_def t entry_prefix_def i a b n)
  show "list_prefixes (BlockCIDRs sample_server) = Some []"
    by (simp add: sample_server_def DefaultConfig_def list_prefixes_def entries_def)
qed

lemma login_parts:
  "NetIO.pending (fst (snd login_conn)) = wire ProtocolVersion MessageTypeAuth [] @ []" "fst login_conn = ''1.2.3.4:5''"
  "MaxMessageSize sample_server \<noteq> 0" "unat (MaxMessageSize sample_server) + 4 < 2 ^ 32"
  "1 \<le> MaxWriteQueueSize sample_server" "MaxWriteQueueSize sample_server < 2 ^ 31" "0 < AuthTimeout sample_server"
  by (simp_all add: login_conn_def NetIO.pending_def sample_server_def DefaultConfig_def DefaultMaxMessageSize_def second_def)

lemma serve_run:
  assumes c: "sv_clients s = [new_client login_conn False]" "Running 0 \<in> set (pl_workers (sv_pool s))"
    and v: "srv_config (sv s) = sample_server" "srv_auth (sv s) = NewAuthenticator sample_config" "srv_ctx (sv s) = None"
  shows "\<exists>s' se. (srv_step login_pb fe)\<^sup>*\<^sup>* s s' \<and> length (sv_clients s') = 1 \<and> cl_sess (sv_clients s' ! 0) = Some se \<and>
    counted_client (sv_clients s' ! 0)"
proof -
  obtain addr i out where l: "login_conn = (addr, i, out)" by (cases login_conn) auto
  let ?c = "new_client login_conn False"
  let ?s1 = "set_client 0 (?c\<lparr> cl_pc := Entered \<rparr>) (set_sv (enter_connection (sv s)) s)"
  have 1: "srv_step login_pb fe s ?s1" by (rule srv_step.enter) (simp_all add: c l new_client_def)
  obtain conn where conn: "NewConnection (\<lambda>_. 0) addr i out sample_server = Ret conn"
    by (simp add: NewConnection_def sample_server_def DefaultConfig_def)
  let ?v2 = "(registerConnection (conn_id conn) 0 (sv ?s1))\<lparr> srv_ddos := RecordPortAccess addr 8080 0 (srv_ddos (sv ?s1)) \<rparr>"
  let ?s2 = "set_client 0 (?c\<lparr> cl_pc := Registered, cl_conn := Some conn \<rparr>) (set_sv ?v2 ?s1)"
  have 2: "srv_step login_pb fe ?s1 ?s2"
    using srv_step.register [of 0 ?s1 _ "\<lambda>_. 0" conn login_pb fe 0] conn
    by (simp add: c l v new_client_def enter_connection_def)
  have v2: "srv_auth ?v2 = NewAuthenticator sample_config" "srv_ctx ?v2 = None" "srv_config ?v2 = sample_server"
    using v by (simp_all add: registerConnection_def enter_connection_def)
  have pb: "unmarshal_Auth login_pb [] = Inr good_request" "\<And>m. marshal_Ack login_pb m = Inr []"
      "auth_Username good_request = cfg_Username sample_config" "auth_Password good_request = cfg_Password sample_config"
    by (simp_all add: login_pb_def sample_pb_def good_request_def sample_config_def)
  have i: "NetIO.pending i = wire ProtocolVersion MessageTypeAuth [] @ []" using login_parts(1) unfolding l by (simp only: fst_conv snd_conv)
  obtain se v' where 3: "processConnection login_pb (\<lambda>_. 0) AuthDefault conn ?v2 = Ret (Serves se, v')"
    using process_ok [OF v2(1) conn i _ login_parts(3,4) pb(1,3,4,2) login_parts(5,6)] by auto
  have 4: "auth_ready (\<lambda>_. 0) ?v2 AuthDefault" using v2 login_parts(7) by simp
  have 5: "srv_step login_pb fe ?s2 (set_client 0 (?c\<lparr> cl_conn := Some conn, cl_pc := Serving, cl_sess := Some se \<rparr>) (set_sv v' ?s2))"
    using srv_step.process_serves [of 0 ?s2 _ conn "\<lambda>_. 0" AuthDefault login_pb se v' fe] 3 4 by (simp add: c)
  let ?s3 = "set_client 0 (?c\<lparr> cl_conn := Some conn, cl_pc := Serving, cl_sess := Some se \<rparr>) (set_sv v' ?s2)"
  have "(srv_step login_pb fe)\<^sup>*\<^sup>* s ?s3"
    by (rule converse_rtranclp_into_rtranclp [OF 1 converse_rtranclp_into_rtranclp [OF 2 r_into_rtranclp [where r = "srv_step login_pb fe", OF 5]]])
  then show ?thesis by (rule exI [where x = ?s3, OF exI [where x = se, OF conjI]]) (simp add: c counted_client_def)
qed

lemma sample_submit:
  "\<exists>p ws. Submit 0 sample_pool = Ret (True, p) \<and> pl_workers p = Waiting # ws \<and> (\<forall>i. Running i \<notin> set ws) \<and>
     chan_buf (taskQueue (pl_pool p)) = [0]"
  by (simp add: Submit_def send_task_def try_send_def sample_pool_def fresh_pool_def make_chan_def numeral_2_eq_2 startWorker_def
      scaleUp_def shouldScaleUp_def pool_ops Let_def wrap32_def)

lemma sample_run:
  "\<exists>v s se. Server_Start None None (NewServer sample_server sample_config) = (None, v) \<and>
     (srv_step login_pb fe)\<^sup>*\<^sup>* (system_of v sample_pool) s \<and> length (sv_clients s) = 1 \<and>
     cl_sess (sv_clients s ! 0) = Some se \<and> counted_client (sv_clients s ! 0)"
proof -
  obtain f where f: "NewIPFilterFromStrings (AllowCIDRs sample_server) (BlockCIDRs sample_server) = Inr f"
      "\<And>ip. IPFilter_Allow (Some f) (Some ip) = Ret (permits [([1, 2, 3, 0], 24)] [] (normalizeIP ip))"
    using filter_permits [OF sample_lists] by blast
  let ?v = "(NewServer sample_server sample_config)\<lparr> ipFilter := Some f, srv_listening := True, srv_wg := 1 \<rparr>"
  let ?s = "system_of ?v sample_pool"
  have start: "Server_Start None None (NewServer sample_server sample_config) = (None, ?v)"
    using f(1) by (simp add: Server_Start_def NewServer_def Let_def)
  have "permits [([1, 2, 3, 0], 24)] [] (normalizeIP (v4InV6Prefix @ [1, 2, 3, 4]))" by code_simp
  then have gate: "filter_gate (fst login_conn) (sv ?s) = Ret True"
    by (simp add: filter_gate_def system_of_def login_parts(2) sample_hosts f(2))
  obtain d where d: "CheckConnectionAllowed (fst login_conn) 100 100 (srv_ddos (sv ?s)) = (True, d)"
    by (simp add: system_of_def NewServer_def login_parts(2) CheckConnectionAllowed_def sample_hosts IsPortScanning_def
        checkConnectionRate_def NewDDoSProtection_def NewPortScanDetector_def put_rate_def time_consts Let_def time_sub_def)
  have ok: "\<not> ShouldRejectConnection (srv_breach (sv ?s))" "limit_gate (sv ?s)"
    by (simp_all add: system_of_def NewServer_def ShouldRejectConnection_def NewResourceBreachHandler_def limit_gate_def sample_server_def DefaultConfig_def wrap32_def)
  obtain p ws where p: "Submit 0 sample_pool = Ret (True, p)" "pl_workers p = Waiting # ws" "\<forall>i. Running i \<notin> set ws"
      "chan_buf (taskQueue (pl_pool p)) = [0]"
    using sample_submit by blast
  obtain s1 where s1: "(srv_step login_pb fe)\<^sup>*\<^sup>* ?s s1" "sv_clients s1 = [new_client login_conn False]" "sv_pool s1 = p"
      "srv_config (sv s1) = sample_server" "srv_auth (sv s1) = NewAuthenticator sample_config" "srv_ctx (sv s1) = None"
    using accept_run [OF _ _ gate d ok, of True p login_pb fe] p(1) by (auto simp: system_of_def NewServer_def)
  obtain q where q: "(srv_step login_pb fe)\<^sup>*\<^sup>* s1 (s1\<lparr> sv_pool := q \<rparr>)" "Running 0 \<in> set (pl_workers q)"
    using pool_run [of s1 ws 0 "[]" login_pb fe] p s1(3) by auto
  obtain s2 se where s2: "(srv_step login_pb fe)\<^sup>*\<^sup>* (s1\<lparr> sv_pool := q \<rparr>) s2" "length (sv_clients s2) = 1"
      "cl_sess (sv_clients s2 ! 0) = Some se" "counted_client (sv_clients s2 ! 0)"
    using serve_run [of "s1\<lparr> sv_pool := q \<rparr>" fe] s1 q(2) by auto
  then show ?thesis using start rtranclp_trans [OF s1(1) rtranclp_trans [OF q(1) s2(1)]] by blast
qed

theorem only_authenticated_served_witness:
  "\<exists>v s se. Server_Start None None (NewServer sample_server sample_config) = (None, v) \<and>
     (srv_step login_pb sample_fe)\<^sup>*\<^sup>* (system_of v sample_pool) s \<and> cl_sess (sv_clients s ! 0) = Some se \<and>
     presents login_pb sample_config (cl_in (sv_clients s ! 0))"
proof -
  obtain v s se where r: "Server_Start None None (NewServer sample_server sample_config) = (None, v)"
      "(srv_step login_pb sample_fe)\<^sup>*\<^sup>* (system_of v sample_pool) s" "length (sv_clients s) = 1" "cl_sess (sv_clients s ! 0) = Some se"
    using sample_run by blast
  then show ?thesis using only_authenticated_served [OF r(1,2) _ r(4)] by auto
qed

theorem only_permitted_clients_witness:
  "\<exists>v s. (srv_step login_pb sample_fe)\<^sup>*\<^sup>* (system_of v sample_pool) s \<and> length (sv_clients s) = 1 \<and>
     (\<exists>host port ip. SplitHostPort (cl_addr (sv_clients s ! 0)) = Inr (host, port) \<and> ParseIP host = Some ip \<and>
        permits [([1, 2, 3, 0], 24)] [] (normalizeIP ip))"
proof -
  obtain v s se where r: "Server_Start None None (NewServer sample_server sample_config) = (None, v)"
      "(srv_step login_pb sample_fe)\<^sup>*\<^sup>* (system_of v sample_pool) s" "length (sv_clients s) = 1"
    using sample_run by blast
  then show ?thesis using only_permitted_clients [OF r(1,2) sample_lists, of 0] by auto
qed

theorem server_books_witness:
  "\<exists>v s. (srv_step login_pb sample_fe)\<^sup>*\<^sup>* (system_of v sample_pool) s \<and> length (sv_clients s) = 1 \<and> activeConns (sv s) = 1"
proof -
  obtain v s se where r: "Server_Start None None (NewServer sample_server sample_config) = (None, v)"
      "(srv_step login_pb sample_fe)\<^sup>*\<^sup>* (system_of v sample_pool) s" "length (sv_clients s) = 1" "counted_client (sv_clients s ! 0)"
    using sample_run by blast
  then have "filter counted_client (sv_clients s) = sv_clients s" by (cases "sv_clients s") auto
  then have "activeConns (sv s) = 1" using server_books [OF r(1,2)] r(3) by (simp add: wrap32_def)
  then show ?thesis using r by blast
qed

end
