(* ===== verification/GoConv.thy ===== *)
theory GoConv
  imports GoIP GoStrings FloatArith
begin

text \<open>
  The parts of \<open>strconv\<close>, \<open>time\<close>, \<open>strings\<close> and \<open>net\<close> with which the program reads its environment: decimal numbers,
  booleans, durations, letter case and \<open>JoinHostPort\<close>.  The environment itself maps the name of a variable to its text, which
  is empty when the variable is not set.
\<close>

type_synonym environment = "string \<Rightarrow> string"

section \<open>Numbers and booleans\<close>

fun strip_sign :: "string \<Rightarrow> bool \<times> string" where
  "strip_sign (c # s) = (if c = CHR ''-'' then (True, s) else if c = CHR ''+'' then (False, s) else (False, c # s))"
| "strip_sign [] = (False, [])"

text \<open>\<open>strconv.Atoi\<close> on a 64-bit platform: \<open>None\<close> is a syntax or a range error.\<close>

definition Atoi :: "string \<Rightarrow> int option" where
  "Atoi s = (case strip_sign s of (neg, ds) \<Rightarrow>
     if ds \<noteq> [] \<and> list_all is_digit ds \<and> (if neg then decimal ds \<le> 2 ^ 63 else decimal ds < 2 ^ 63)
     then Some (if neg then - int (decimal ds) else int (decimal ds)) else None)"

text \<open>\<open>strconv.ParseUint(s, 10, 64)\<close>.\<close>

definition ParseUint :: "string \<Rightarrow> u64 option" where
  "ParseUint s = (if s \<noteq> [] \<and> list_all is_digit s \<and> decimal s < 2 ^ 64 then Some (of_nat (decimal s)) else None)"

definition ParseBool :: "string \<Rightarrow> bool option" where
  "ParseBool s =
    (if s \<in> {''1'', ''t'', ''T'', ''TRUE'', ''true'', ''True''} then Some True
     else if s \<in> {''0'', ''f'', ''F'', ''FALSE'', ''false'', ''False''} then Some False else None)"

section \<open>Durations\<close>

text \<open>\<open>leadingInt\<close>: the digits at the start of the text, \<open>None\<close> above \<open>2 ^ 63\<close>.\<close>

fun leadingInt :: "nat \<Rightarrow> string \<Rightarrow> (nat \<times> string) option" where
  "leadingInt x (c # s) =
    (if is_digit c then
       if x > 2 ^ 63 div 10 then None
       else let x = x * 10 + digit_value c in if x > 2 ^ 63 then None else leadingInt x s
     else Some (x, c # s))"
| "leadingInt x [] = Some (x, [])"

text \<open>\<open>leadingFraction\<close>: the digits after a period as a number and the power of ten to divide it by; further digits are dropped.\<close>

fun leadingFraction :: "nat \<Rightarrow> f64 \<Rightarrow> bool \<Rightarrow> string \<Rightarrow> nat \<times> f64 \<times> string" where
  "leadingFraction x scale overflow (c # s) =
    (if is_digit c then
       if overflow \<or> x > (2 ^ 63 - 1) div 10 then leadingFraction x scale True s
       else let y = x * 10 + digit_value c in
         if y > 2 ^ 63 then leadingFraction x scale True s
         else leadingFraction y (f64_mul scale (Fin 10)) False s
     else (x, scale, c # s))"
| "leadingFraction x scale overflow [] = (x, scale, [])"

definition duration_unit :: "string \<Rightarrow> nat option" where
  "duration_unit u = map_of
     [(''ns'', 1), (''us'', 1000), ([CHR 0xC2, CHR 0xB5, CHR ''s''], 1000), ([CHR 0xCE, CHR 0xBC, CHR ''s''], 1000),
      (''ms'', 1000000), (''s'', 1000000000), (''m'', 60000000000), (''h'', 3600000000000)] u"

definition number_char :: "char \<Rightarrow> bool" where
  "number_char c \<longleftrightarrow> c = CHR ''.'' \<or> is_digit c"

text \<open>\<open>uint64(float64(f) * (float64(unit) / scale))\<close>; the product is at most \<open>unit\<close>, so the conversion is in range.\<close>

definition fraction_ns :: "nat \<Rightarrow> f64 \<Rightarrow> nat \<Rightarrow> nat" where
  "fraction_ns f scale unit =
    (case f64_to_int (f64_mul (f64_of_int (int f)) (f64_div (f64_of_int (int unit)) scale)) of Some i \<Rightarrow> nat i | None \<Rightarrow> 0)"

definition after_period :: "string \<Rightarrow> nat \<times> f64 \<times> string" where
  "after_period s = (case s of c # r \<Rightarrow> if c = CHR ''.'' then leadingFraction 0 (Fin 1) False r else (0, Fin 1, s) | [] \<Rightarrow> (0, Fin 1, s))"

text \<open>One group of number and unit: its nanoseconds and the rest of the text.\<close>

definition duration_group :: "string \<Rightarrow> (nat \<times> string) option" where
  "duration_group s =
    (if \<not> number_char (hd s) then None
     else (case leadingInt 0 s of None \<Rightarrow> None | Some (v, s1) \<Rightarrow>
       (case after_period s1 of (f, scale, s2) \<Rightarrow>
          let pre = length s1 \<noteq> length s; post = s1 \<noteq> [] \<and> hd s1 = CHR ''.'' \<and> Suc (length s2) \<noteq> length s1 in
          if \<not> pre \<and> \<not> post then None
          else let u = takeWhile (\<lambda>c. \<not> number_char c) s2; s3 = dropWhile (\<lambda>c. \<not> number_char c) s2 in
            if u = [] then None
            else (case duration_unit u of None \<Rightarrow> None | Some unit \<Rightarrow>
              if v > 2 ^ 63 div unit then None
              else let v = v * unit + (if f > 0 then fraction_ns f scale unit else 0) in
                if f > 0 \<and> v > 2 ^ 63 then None else Some (v, s3)))))"

lemma leadingInt_length: "leadingInt x s = Some (v, r) \<Longrightarrow> length r \<le> length s"
  by (induction x s rule: leadingInt.induct) (auto simp: Let_def split: if_splits)

lemma leadingFraction_length: "leadingFraction x sc b s = (f, sc', r) \<Longrightarrow> length r \<le> length s"
  by (induction x sc b s rule: leadingFraction.induct) (auto simp: Let_def split: if_splits)

lemma after_period_length: "after_period s = (f, sc, r) \<Longrightarrow> length r \<le> length s"
  by (cases s) (auto simp: after_period_def dest: leadingFraction_length split: if_splits)

lemma duration_group_length: "duration_group s = Some (v, r) \<Longrightarrow> length r < length s"
proof -
  assume g: "duration_group s = Some (v, r)"
  then obtain w s1 f sc s2 where "leadingInt 0 s = Some (w, s1)" "after_period s1 = (f, sc, s2)"
      "takeWhile (\<lambda>c. \<not> number_char c) s2 \<noteq> []" "r = dropWhile (\<lambda>c. \<not> number_char c) s2"
    by (auto simp: duration_group_def Let_def split: if_splits option.splits prod.splits)
  moreover from this(3) have "length (dropWhile (\<lambda>c. \<not> number_char c) s2) < length s2"
    by (cases s2) (auto simp: length_dropWhile_le le_imp_less_Suc)
  ultimately show ?thesis using leadingInt_length after_period_length by fastforce
qed

function duration_loop :: "nat \<Rightarrow> string \<Rightarrow> nat option" where
  "duration_loop d s =
    (if s = [] then Some d
     else (case duration_group s of None \<Rightarrow> None | Some (v, r) \<Rightarrow>
       let d = (d + v) mod 2 ^ 64 in if d > 2 ^ 63 then None else duration_loop d r))"
  by auto
termination by (relation "measure (length \<circ> snd)") (auto dest: duration_group_length)

declare duration_loop.simps [simp del]

definition ParseDuration :: "string \<Rightarrow> duration option" where
  "ParseDuration s = (case strip_sign s of (neg, r) \<Rightarrow>
     if r = ''0'' then Some 0
     else if r = [] then None
     else (case duration_loop 0 r of
       None \<Rightarrow> None
     | Some d \<Rightarrow> if neg then Some (wrap64 (- wrap64 (int d))) else if d > 2 ^ 63 - 1 then None else Some (int d)))"

section \<open>Strings\<close>

text \<open>
  \<open>strings.ToLower(s) == t\<close> for an ASCII text \<open>t\<close>.  Outside ASCII only two runes have an ASCII lower case (the dotted capital
  I and the Kelvin sign), so the others may stay as they are.
\<close>

definition lower_rune :: "nat \<Rightarrow> nat" where
  "lower_rune r = (if 65 \<le> r \<and> r \<le> 90 then r + 32 else if r = 0x130 then 105 else if r = 0x212A then 107 else r)"

definition lower_is :: "string \<Rightarrow> string \<Rightarrow> bool" where
  "lower_is s t \<longleftrightarrow> map lower_rune (runes s) = map of_char t"

definition JoinHostPort :: "string \<Rightarrow> string \<Rightarrow> string" where
  "JoinHostPort host port =
    (if CHR '':'' \<in> set host then ''['' @ host @ '']:'' @ port else host @ '':'' @ port)"

section \<open>Variables\<close>

definition env_text :: "environment \<Rightarrow> string \<Rightarrow> string option" where
  "env_text env name = (if env name \<noteq> [] then Some (env name) else None)"

definition env_int :: "environment \<Rightarrow> string \<Rightarrow> int option" where
  "env_int env name = (if env name \<noteq> [] then Atoi (env name) else None)"

definition env_uint :: "environment \<Rightarrow> string \<Rightarrow> u64 option" where
  "env_uint env name = (if env name \<noteq> [] then ParseUint (env name) else None)"

definition env_duration :: "environment \<Rightarrow> string \<Rightarrow> duration option" where
  "env_duration env name = (if env name \<noteq> [] then ParseDuration (env name) else None)"

text \<open>A variable that is set and well formed changes the configuration.\<close>

definition on_opt :: "'v option \<Rightarrow> ('v \<Rightarrow> 'c \<Rightarrow> 'c) \<Rightarrow> 'c \<Rightarrow> 'c" where
  "on_opt v f cfg = (case v of Some x \<Rightarrow> f x cfg | None \<Rightarrow> cfg)"

lemma on_opt_keeps: "(\<And>x c. g (f x c) = g c) \<Longrightarrow> g (on_opt v f cfg) = g cfg"
  by (simp add: on_opt_def split: option.split)

lemma on_opt_sets: "g (on_opt v f cfg) = (case v of Some x \<Rightarrow> g (f x cfg) | None \<Rightarrow> g cfg)"
  by (simp add: on_opt_def split: option.split)

section \<open>Reading back what was printed\<close>

lemma strip_sign_show: "strip_sign (show_int i @ s) = (i < 0, show_nat (nat \<bar>i\<bar>) @ s)"
proof (cases "i < 0")
  case False
  obtain c ds where "show_nat (nat i) = c # ds" "is_digit c"
    using show_nat_digits [of "nat i"] by (cases "show_nat (nat i)") auto
  moreover from this(2) have "c \<noteq> CHR ''-''" "c \<noteq> CHR ''+''" by (auto simp: is_digit_def)
  ultimately show ?thesis using False by (simp add: show_int_def)
qed (simp add: show_int_def)

lemma Atoi_show: "in_i64 i \<Longrightarrow> Atoi (show_int i) = Some i"
  using show_nat_digits [of "nat \<bar>i\<bar>"] strip_sign_show [of i "[]"]
  by (auto simp: Atoi_def in_i64_def nat_le_iff nat_less_iff)

lemma foldl_digits_ge: "x \<le> foldl (\<lambda>n c. n * 10 + digit_value c) x ds"
proof (induction ds arbitrary: x)
  case (Cons c ds)
  have "x \<le> x * 10 + digit_value c" by simp
  then show ?case using Cons.IH [of "x * 10 + digit_value c"] by simp
qed simp

lemma leadingInt_digits:
  assumes "list_all is_digit ds" "s = [] \<or> \<not> is_digit (hd s)" "foldl (\<lambda>n c. n * 10 + digit_value c) x ds \<le> 2 ^ 63"
  shows "leadingInt x (ds @ s) = Some (foldl (\<lambda>n c. n * 10 + digit_value c) x ds, s)"
  using assms
proof (induction ds arbitrary: x)
  case Nil
  then show ?case by (cases s) auto
next
  case (Cons c ds)
  have "x * 10 + digit_value c \<le> 2 ^ 63" using foldl_digits_ge [of "x * 10 + digit_value c" ds] Cons.prems(3) by simp
  moreover from this have "x \<le> 2 ^ 63 div 10" by linarith
  ultimately show ?case using Cons.IH [of "x * 10 + digit_value c"] Cons.prems by (simp add: Let_def)
qed

lemma wrap64_neg:
  assumes "0 \<le> k" "k \<le> 2 ^ 63"
  shows "wrap64 (- wrap64 k) = - k"
proof (cases "k = 2 ^ 63")
  case False
  then have "in_i64 k" "in_i64 (- k)" using assms by (simp_all add: in_i64_def)
  then show ?thesis by simp
qed (simp add: wrap64_def)

text \<open>A number followed by a unit is a duration of its own.\<close>

lemma ParseDuration_show:
  assumes u: "duration_unit u = Some unit" "list_all (\<lambda>c. \<not> number_char c) u" "u \<noteq> []" "0 < unit"
    and i: "in_i64 (i * int unit)"
  shows "ParseDuration (show_int i @ u) = Some (i * int unit)"
proof -
  let ?n = "nat \<bar>i\<bar>" let ?s = "show_nat ?n @ u"
  have d: "list_all is_digit (show_nat ?n)" "show_nat ?n \<noteq> []" using show_nat_digits by auto
  have hd: "hd u \<noteq> CHR ''.''" "\<not> is_digit (hd u)" using u(2,3) by (cases u; auto simp: number_char_def)+
  have "\<bar>i * int unit\<bar> \<le> 2 ^ 63" using i by (auto simp: in_i64_def)
  then have "int (?n * unit) \<le> int (2 ^ 63)" by (simp add: abs_mult)
  then have b: "?n * unit \<le> 2 ^ 63" by (simp only: of_nat_le_iff)
  have "?n \<le> ?n * unit" using u(4) by simp
  then have "?n \<le> 2 ^ 63" using b by (rule order_trans)
  then have n: "decimal (show_nat ?n) \<le> 2 ^ 63" by simp
  have l: "leadingInt 0 ?s = Some (?n, u)"
    using leadingInt_digits [OF d(1), of u 0] n hd(2) decimal_show_nat [of ?n] unfolding decimal_def by simp
  have a: "after_period u = (0, Fin 1, u)" using hd(1) u(3) by (cases u) (auto simp: after_period_def)
  have q: "\<not> ?n > 2 ^ 63 div unit" using b u(4) by (simp add: not_less less_eq_div_iff_mult_less_eq)
  have "number_char (hd ?s)" using d by (cases "show_nat ?n") (auto simp: number_char_def)
  moreover have tw: "takeWhile (\<lambda>c. \<not> number_char c) u = u" "dropWhile (\<lambda>c. \<not> number_char c) u = []"
    using u(2) by (auto simp: list_all_iff)
  moreover have "length u \<noteq> length ?s" using d(2) by simp
  ultimately have "duration_group ?s = Some (?n * unit, [])"
    using q u(3) unfolding duration_group_def l option.case prod.case a Let_def tw u(1) by simp
  then have g: "duration_loop 0 ?s = Some (?n * unit)"
    using d(2) b by (subst duration_loop.simps, simp, subst duration_loop.simps, simp)
  have "?s \<noteq> ''0''" "?s \<noteq> []" using hd d u(3) by (cases "show_nat ?n"; cases u; auto simp: is_digit_def)+
  moreover have "wrap64 (- wrap64 (int (?n * unit))) = i * int unit" if "i < 0"
  proof -
    have "int (?n * unit) \<le> 2 ^ 63" using \<open>\<bar>i * int unit\<bar> \<le> 2 ^ 63\<close> by (simp add: abs_mult)
    then have "wrap64 (- wrap64 (int (?n * unit))) = - int (?n * unit)" by (intro wrap64_neg) simp_all
    then show ?thesis using that by simp
  qed
  moreover have e: "int (?n * unit) = i * int unit" if "\<not> i < 0" using that by simp
  moreover have "\<not> ?n * unit > 2 ^ 63 - 1" if "\<not> i < 0"
  proof -
    have "int (?n * unit) \<le> int (2 ^ 63 - 1)" unfolding e [OF that] using i by (simp add: in_i64_def)
    then show ?thesis by (simp only: of_nat_le_iff not_less)
  qed
  ultimately show ?thesis unfolding ParseDuration_def strip_sign_show prod.case g option.case by simp
qed

end
