(* ===== verification/Tls.thy ===== *)
theory Tls
  imports GoConv
begin

text \<open>
  The TLS settings of \<open>internal/server/tls.go\<close>: defaults, environment, validation, the \<open>tls.Config\<close> built from them and the
  check of client certificates.  Files and certificates are seen through \<open>tls_world\<close>: \<open>tls.LoadX509KeyPair\<close>,
  \<open>ioutil.ReadFile\<close>, the certificates found in PEM data, \<open>x509.ParseCertificate\<close> and whether \<open>os.Stat\<close> reports a
  missing file.
\<close>

section \<open>State\<close>

definition VersionTLS10 :: u16 where "VersionTLS10 = 0x0301"
definition VersionTLS11 :: u16 where "VersionTLS11 = 0x0302"
definition VersionTLS12 :: u16 where "VersionTLS12 = 0x0303"
definition VersionTLS13 :: u16 where "VersionTLS13 = 0x0304"

lemmas tls_versions = VersionTLS10_def VersionTLS11_def VersionTLS12_def VersionTLS13_def

text \<open>\<open>tls.ClientAuthType\<close> counts from \<open>NoClientCert = 0\<close>.\<close>

definition NoClientCert :: int where "NoClientCert = 0"
definition RequestClientCert :: int where "RequestClientCert = 1"
definition RequireAnyClientCert :: int where "RequireAnyClientCert = 2"
definition VerifyClientCertIfGiven :: int where "VerifyClientCertIfGiven = 3"
definition RequireAndVerifyClientCert :: int where "RequireAndVerifyClientCert = 4"

lemmas client_auth_types = NoClientCert_def RequestClientCert_def RequireAnyClientCert_def VerifyClientCertIfGiven_def
  RequireAndVerifyClientCert_def

record TLSConfig =
  tls_Enabled :: bool
  tls_CertFile :: string
  tls_KeyFile :: string
  tls_CAFile :: string
  tls_ClientAuth :: int
  tls_ClientCAFile :: string
  tls_MinVersion :: u16
  tls_MaxVersion :: u16
  tls_CipherSuites :: "u16 list"
  tls_CurvePreferences :: "u16 list"
  tls_OCSPEnabled :: bool
  tls_InsecureSkipVerify :: bool
  tls_CertWatchEnabled :: bool
  tls_CertCheckInterval :: duration

record certificate =
  cert_NotBefore :: time
  cert_NotAfter :: time

record tls_world =
  LoadX509KeyPair :: "string \<Rightarrow> string \<Rightarrow> go_error + bytes"
  ReadFile :: "string \<Rightarrow> go_error + bytes"
  pem_certs :: "bytes \<Rightarrow> certificate list"
  ParseCertificate :: "bytes \<Rightarrow> go_error + certificate"
  file_missing :: "string \<Rightarrow> bool"

text \<open>The \<open>tls.Config\<close> handed to the listener; the two callbacks are set or not.\<close>

record listener_config =
  tc_Certificates :: "bytes list"
  tc_MinVersion :: u16
  tc_MaxVersion :: u16
  tc_CipherSuites :: "u16 list"
  tc_CurvePreferences :: "u16 list"
  tc_ClientAuth :: int
  tc_InsecureSkipVerify :: bool
  tc_ClientCAs :: "certificate list option"
  tc_VerifyPeer :: bool
  tc_VerifyConnection :: bool

section \<open>Operations\<close>

definition DefaultTLSConfig :: TLSConfig where
  "DefaultTLSConfig = \<lparr> tls_Enabled = False, tls_CertFile = [], tls_KeyFile = [], tls_CAFile = [], tls_ClientAuth = NoClientCert,
     tls_ClientCAFile = [], tls_MinVersion = VersionTLS13, tls_MaxVersion = VersionTLS13,
     tls_CipherSuites = [0x1302, 0x1301, 0x1303], tls_CurvePreferences = [29, 24, 23], tls_OCSPEnabled = False,
     tls_InsecureSkipVerify = False, tls_CertWatchEnabled = False, tls_CertCheckInterval = 5 * minute \<rparr>"

definition client_auth_of :: "string \<Rightarrow> int \<Rightarrow> int" where
  "client_auth_of v old =
    (if lower_is v ''none'' then NoClientCert else if lower_is v ''request'' then RequestClientCert
     else if lower_is v ''require'' then RequireAnyClientCert else if lower_is v ''verify'' then VerifyClientCertIfGiven
     else if lower_is v ''require_verify'' then RequireAndVerifyClientCert else old)"

definition LoadTLSConfigFromEnv :: "environment \<Rightarrow> TLSConfig \<Rightarrow> TLSConfig" where
  "LoadTLSConfigFromEnv env cfg =
    (let cfg = on_opt (env_text env ''TLS_ENABLED'') (\<lambda>v c. c\<lparr> tls_Enabled := lower_is v ''true'' \<rparr>) cfg;
         cfg = on_opt (env_text env ''TLS_CERT_FILE'') (\<lambda>v c. c\<lparr> tls_CertFile := v \<rparr>) cfg;
         cfg = on_opt (env_text env ''TLS_KEY_FILE'') (\<lambda>v c. c\<lparr> tls_KeyFile := v \<rparr>) cfg;
         cfg = on_opt (env_text env ''TLS_CA_FILE'') (\<lambda>v c. c\<lparr> tls_CAFile := v \<rparr>) cfg;
         cfg = on_opt (env_text env ''TLS_CLIENT_CA_FILE'') (\<lambda>v c. c\<lparr> tls_ClientCAFile := v \<rparr>) cfg;
         cfg = on_opt (env_text env ''TLS_CLIENT_AUTH'') (\<lambda>v c. c\<lparr> tls_ClientAuth := client_auth_of v (tls_ClientAuth c) \<rparr>) cfg;
         cfg = on_opt (env_text env ''TLS_OCSP_ENABLED'') (\<lambda>v c. c\<lparr> tls_OCSPEnabled := lower_is v ''true'' \<rparr>) cfg;
         cfg = on_opt (env_text env ''TLS_INSECURE_SKIP_VERIFY'') (\<lambda>v c. c\<lparr> tls_InsecureSkipVerify := lower_is v ''true'' \<rparr>) cfg;
         cfg = on_opt (env_text env ''TLS_CERT_WATCH_ENABLED'') (\<lambda>v c. c\<lparr> tls_CertWatchEnabled := lower_is v ''true'' \<rparr>) cfg
     in on_opt (env_duration env ''TLS_CERT_CHECK_INTERVAL'')
          (\<lambda>d c. c\<lparr> tls_CertCheckInterval := d \<rparr>) cfg)"

definition setupClientCertValidation :: "tls_world \<Rightarrow> TLSConfig \<Rightarrow> listener_config \<Rightarrow> go_error + listener_config" where
  "setupClientCertValidation w cfg t =
    (if tls_ClientCAFile cfg = [] then Inl (Errorf ''TLS_CLIENT_CA_FILE must be specified for client certificate authentication'')
     else (case ReadFile w (tls_ClientCAFile cfg) of
       Inl e \<Rightarrow> Inl (Wrapf ''failed to read client CA file'' e)
     | Inr pem \<Rightarrow>
       if pem_certs w pem = [] then Inl (Errorf ''failed to parse client CA certificate'')
       else Inr (t\<lparr> tc_ClientCAs := Some (pem_certs w pem), tc_VerifyPeer := True \<rparr>)))"

definition BuildTLSConfig :: "tls_world \<Rightarrow> TLSConfig \<Rightarrow> go_error + listener_config option" where
  "BuildTLSConfig w cfg =
    (if \<not> tls_Enabled cfg then Inr None
     else if tls_CertFile cfg = [] \<or> tls_KeyFile cfg = []
     then Inl (Errorf ''TLS_CERT_FILE and TLS_KEY_FILE must be specified when TLS is enabled'')
     else (case LoadX509KeyPair w (tls_CertFile cfg) (tls_KeyFile cfg) of
       Inl e \<Rightarrow> Inl (Wrapf ''failed to load server certificate'' e)
     | Inr cert \<Rightarrow>
       let t = \<lparr> tc_Certificates = [cert], tc_MinVersion = tls_MinVersion cfg, tc_MaxVersion = tls_MaxVersion cfg,
             tc_CipherSuites = tls_CipherSuites cfg, tc_CurvePreferences = tls_CurvePreferences cfg, tc_ClientAuth = tls_ClientAuth cfg,
             tc_InsecureSkipVerify = tls_InsecureSkipVerify cfg, tc_ClientCAs = None, tc_VerifyPeer = False, tc_VerifyConnection = False \<rparr>
       in (case (if tls_ClientAuth cfg \<noteq> NoClientCert then setupClientCertValidation w cfg t else Inr t) of
         Inl e \<Rightarrow> Inl (Wrapf ''failed to setup client certificate validation'' e)
       | Inr t \<Rightarrow> Inr (Some (if tls_OCSPEnabled cfg then t\<lparr> tc_VerifyConnection := True \<rparr> else t)))))"

definition verifyClientCertificate :: "tls_world \<Rightarrow> time \<Rightarrow> bytes list \<Rightarrow> go_error option" where
  "verifyClientCertificate w now rawCerts = (case rawCerts of
     [] \<Rightarrow> Some (Errorf ''no client certificate provided'')
   | raw # _ \<Rightarrow> (case ParseCertificate w raw of
       Inl e \<Rightarrow> Some (Wrapf ''failed to parse client certificate'' e)
     | Inr cert \<Rightarrow>
       if now < cert_NotBefore cert then Some (Errorf ''client certificate not yet valid'')
       else if now > cert_NotAfter cert then Some (Errorf ''client certificate has expired'')
       else None))"

definition verifyConnectionWithOCSP :: "'a list \<Rightarrow> go_error option" where
  "verifyConnectionWithOCSP peers = (if peers = [] then Some (Errorf ''no peer certificates'') else None)"

definition ValidateTLSConfig :: "tls_world \<Rightarrow> TLSConfig \<Rightarrow> go_error option" where
  "ValidateTLSConfig w cfg =
    (if \<not> tls_Enabled cfg then None
     else if tls_CertFile cfg \<noteq> [] \<and> file_missing w (tls_CertFile cfg)
     then Some (Errorf (''TLS certificate file does not exist: '' @ tls_CertFile cfg))
     else if tls_KeyFile cfg \<noteq> [] \<and> file_missing w (tls_KeyFile cfg)
     then Some (Errorf (''TLS key file does not exist: '' @ tls_KeyFile cfg))
     else if tls_ClientCAFile cfg \<noteq> [] \<and> file_missing w (tls_ClientCAFile cfg)
     then Some (Errorf (''TLS client CA file does not exist: '' @ tls_ClientCAFile cfg))
     else if tls_MinVersion cfg > tls_MaxVersion cfg then Some (Errorf ''TLS min version cannot be greater than max version'')
     else if tls_MinVersion cfg < VersionTLS13 then Some (Errorf ''minimum TLS version must be 1.3 for security compliance'')
     else None)"

definition getTLSVersionString :: "u16 \<Rightarrow> string" where
  "getTLSVersionString v =
    (if v = VersionTLS10 then ''TLS 1.0'' else if v = VersionTLS11 then ''TLS 1.1'' else if v = VersionTLS12 then ''TLS 1.2''
     else if v = VersionTLS13 then ''TLS 1.3'' else ''Unknown ('' @ show_nat (unat v) @ '')'')"

definition getClientAuthString :: "int \<Rightarrow> string" where
  "getClientAuthString a =
    (if a = NoClientCert then ''None'' else if a = RequestClientCert then ''Request'' else if a = RequireAnyClientCert then ''Require Any''
     else if a = VerifyClientCertIfGiven then ''Verify If Given'' else if a = RequireAndVerifyClientCert then ''Require and Verify''
     else ''Unknown ('' @ show_int a @ '')'')"

record TLSInfo =
  info_enabled :: bool
  info_min_version :: string
  info_max_version :: string
  info_client_auth :: string
  info_ocsp_enabled :: bool
  info_cert_watch_enabled :: bool
  info_files :: "(string \<times> string) list"

definition GetTLSInfo :: "TLSConfig \<Rightarrow> TLSInfo" where
  "GetTLSInfo cfg = \<lparr> info_enabled = tls_Enabled cfg, info_min_version = getTLSVersionString (tls_MinVersion cfg),
     info_max_version = getTLSVersionString (tls_MaxVersion cfg), info_client_auth = getClientAuthString (tls_ClientAuth cfg),
     info_ocsp_enabled = tls_OCSPEnabled cfg, info_cert_watch_enabled = tls_CertWatchEnabled cfg,
     info_files = (if tls_Enabled cfg
       then [(''cert_file'', tls_CertFile cfg), (''key_file'', tls_KeyFile cfg)] @
         (if tls_ClientCAFile cfg \<noteq> [] then [(''client_ca_file'', tls_ClientCAFile cfg)] else [])
       else []) \<rparr>"

section \<open>Properties\<close>

text \<open>What the environment cannot change.\<close>

lemmas tls_keeps = on_opt_keeps [where g = tls_MinVersion] on_opt_keeps [where g = tls_MaxVersion] on_opt_keeps [where g = tls_CipherSuites]
  on_opt_keeps [where g = tls_CertFile] on_opt_keeps [where g = tls_KeyFile] on_opt_keeps [where g = tls_ClientCAFile]
  on_opt_keeps [where g = tls_Enabled] on_opt_keeps [where g = tls_ClientAuth]

lemmas tls_sets = on_opt_sets [where g = tls_CertFile and v = "env_text env ''TLS_CERT_FILE''" for env]
  on_opt_sets [where g = tls_KeyFile and v = "env_text env ''TLS_KEY_FILE''" for env]
  on_opt_sets [where g = tls_ClientCAFile and v = "env_text env ''TLS_CLIENT_CA_FILE''" for env]
  on_opt_sets [where g = tls_ClientAuth and v = "env_text env ''TLS_CLIENT_AUTH''" for env]
  on_opt_sets [where g = tls_Enabled and v = "env_text env ''TLS_ENABLED''" for env]

lemma Load_fields [simp]:
  "tls_MinVersion (LoadTLSConfigFromEnv env cfg) = tls_MinVersion cfg"
  "tls_MaxVersion (LoadTLSConfigFromEnv env cfg) = tls_MaxVersion cfg"
  "tls_CipherSuites (LoadTLSConfigFromEnv env cfg) = tls_CipherSuites cfg"
  "tls_CertFile (LoadTLSConfigFromEnv env cfg) = (case env_text env ''TLS_CERT_FILE'' of Some v \<Rightarrow> v | None \<Rightarrow> tls_CertFile cfg)"
  "tls_KeyFile (LoadTLSConfigFromEnv env cfg) = (case env_text env ''TLS_KEY_FILE'' of Some v \<Rightarrow> v | None \<Rightarrow> tls_KeyFile cfg)"
  "tls_ClientCAFile (LoadTLSConfigFromEnv env cfg) =
     (case env_text env ''TLS_CLIENT_CA_FILE'' of Some v \<Rightarrow> v | None \<Rightarrow> tls_ClientCAFile cfg)"
  "tls_Enabled (LoadTLSConfigFromEnv env cfg) = (case env_text env ''TLS_ENABLED'' of Some v \<Rightarrow> lower_is v ''true'' | None \<Rightarrow> tls_Enabled cfg)"
  "tls_ClientAuth (LoadTLSConfigFromEnv env cfg) =
     (case env_text env ''TLS_CLIENT_AUTH'' of Some v \<Rightarrow> client_auth_of v (tls_ClientAuth cfg) | None \<Rightarrow> tls_ClientAuth cfg)"
  by (simp_all add: LoadTLSConfigFromEnv_def Let_def tls_sets tls_keeps split: option.split)

lemma Build_cases:
  assumes "BuildTLSConfig w cfg = Inr (Some t)"
  obtains cert where "tls_Enabled cfg" "LoadX509KeyPair w (tls_CertFile cfg) (tls_KeyFile cfg) = Inr cert" "tc_Certificates t = [cert]"
    "tc_MinVersion t = tls_MinVersion cfg" "tc_MaxVersion t = tls_MaxVersion cfg" "tc_CipherSuites t = tls_CipherSuites cfg"
    "tc_ClientAuth t = tls_ClientAuth cfg" "tc_VerifyConnection t = tls_OCSPEnabled cfg"
    "tc_VerifyPeer t \<longleftrightarrow> tls_ClientAuth cfg \<noteq> NoClientCert"
    "tls_ClientAuth cfg \<noteq> NoClientCert \<Longrightarrow> \<exists>pem. ReadFile w (tls_ClientCAFile cfg) = Inr pem \<and>
       pem_certs w pem \<noteq> [] \<and> tc_ClientCAs t = Some (pem_certs w pem)"
  using assms by (auto simp: BuildTLSConfig_def setupClientCertValidation_def Let_def split: if_splits sum.splits)


text \<open>A server with mutual TLS.\<close>

definition mtls_env :: environment where
  "mtls_env = (\<lambda>_. [])(''TLS_ENABLED'' := ''True'', ''TLS_CERT_FILE'' := ''c'', ''TLS_KEY_FILE'' := ''k'', ''TLS_CLIENT_AUTH'' := ''VERIFY'',
     ''TLS_CLIENT_CA_FILE'' := ''ca'')"

definition mtls_world :: tls_world where
  "mtls_world = \<lparr> LoadX509KeyPair = \<lambda>_ _. Inr [1], ReadFile = \<lambda>_. Inr [2], pem_certs = \<lambda>_. [\<lparr> cert_NotBefore = 0, cert_NotAfter = 9 \<rparr>],
     ParseCertificate = \<lambda>_. Inr \<lparr> cert_NotBefore = 0, cert_NotAfter = 9 \<rparr>, file_missing = \<lambda>_. False \<rparr>"

lemma mtls_parts:
  "lower_is ''True'' ''true''" "client_auth_of ''VERIFY'' NoClientCert = VerifyClientCertIfGiven"
  by code_simp+

lemma Build_mtls:
  assumes "tls_Enabled cfg" "tls_CertFile cfg \<noteq> []" "tls_KeyFile cfg \<noteq> []" "tls_ClientCAFile cfg \<noteq> []"
  shows "\<exists>t. BuildTLSConfig mtls_world cfg = Inr (Some t) \<and> tc_ClientAuth t = tls_ClientAuth cfg"
  using assms by (simp add: BuildTLSConfig_def setupClientCertValidation_def mtls_world_def Let_def)


end
