(* ===== verification/EnvConfig.thy ===== *)
theory EnvConfig
  imports Tls Config IpFilter Auth
begin

text \<open>
  How the environment configures the program: \<open>LoadConfigFromEnv\<close> of \<open>internal/server/server.go\<close> and \<open>DefaultConfig\<close> of
  \<open>internal/auth/auth.go\<close>.  The TLS settings, which the Go configuration holds by pointer, are the second component of a pair.
\<close>

section \<open>Server configuration\<close>

text \<open>The port that goes with \<open>LISTEN_HOST\<close>.\<close>

definition listen_port :: "environment \<Rightarrow> string \<Rightarrow> string" where
  "listen_port env addr =
    (if env ''LISTEN_PORT'' \<noteq> [] then env ''LISTEN_PORT''
     else (case SplitHostPort addr of
       Inr (_, p) \<Rightarrow> if p \<noteq> [] then p else if addr \<noteq> [] \<and> hd addr = CHR '':'' \<and> length addr > 1 then tl addr else ''8080''
     | Inl _ \<Rightarrow> if addr \<noteq> [] \<and> hd addr = CHR '':'' \<and> length addr > 1 then tl addr else ''8080''))"

definition listen_addr :: "environment \<Rightarrow> string \<Rightarrow> string" where
  "listen_addr env addr =
    (let addr = (if env ''LISTEN_PORT'' \<noteq> [] then '':'' @ env ''LISTEN_PORT'' else addr) in
     if env ''LISTEN_ADDR'' \<noteq> [] then env ''LISTEN_ADDR''
     else if env ''LISTEN_HOST'' \<noteq> [] then JoinHostPort (env ''LISTEN_HOST'') (listen_port env addr)
     else addr)"

text \<open>\<open>time.Duration(ms) * time.Millisecond\<close>.\<close>

definition from_ms :: "int \<Rightarrow> duration" where
  "from_ms ms = wrap64 (ms * millisecond)"

definition load_config :: "environment \<Rightarrow> ServerConfig \<Rightarrow> ServerConfig" where
  "load_config env cfg =
    (let cfg = cfg\<lparr> ListenAddr := listen_addr env (ListenAddr cfg) \<rparr>;
         cfg = on_opt (env_duration env ''HEARTBEAT_INTERVAL'') (\<lambda>d c. c\<lparr> HeartbeatInterval := d \<rparr>) cfg;
         cfg = on_opt (env_int env ''HEARTBEAT_INTERVAL_MS'') (\<lambda>ms c. c\<lparr> HeartbeatInterval := from_ms ms \<rparr>) cfg;
         cfg = on_opt (env_duration env ''HEARTBEAT_TIMEOUT'') (\<lambda>d c. c\<lparr> HeartbeatTimeout := d \<rparr>) cfg;
         cfg = on_opt (env_int env ''HEARTBEAT_TIMEOUT_MS'') (\<lambda>ms c. c\<lparr> HeartbeatTimeout := from_ms ms \<rparr>) cfg;
         cfg = on_opt (env_duration env ''BATCH_WINDOW'') (\<lambda>d c. c\<lparr> BatchWindow := d \<rparr>) cfg;
         cfg = on_opt (env_int env ''BATCH_WINDOW_MS'') (\<lambda>ms c. c\<lparr> BatchWindow := from_ms ms \<rparr>) cfg;
         cfg = on_opt (env_int env ''TCP_READ_BUFFER_SIZE'') (\<lambda>n c. c\<lparr> TCPReadBufferSize := n \<rparr>) cfg;
         cfg = on_opt (env_int env ''TCP_WRITE_BUFFER_SIZE'') (\<lambda>n c. c\<lparr> TCPWriteBufferSize := n \<rparr>) cfg;
         cfg = on_opt (env_int env ''WRITE_DEADLINE_MS'') (\<lambda>n c. c\<lparr> WriteDeadlineMS := n \<rparr>) cfg;
         cfg = on_opt (env_int env ''MAX_WRITE_QUEUE_SIZE'') (\<lambda>n c. c\<lparr> MaxWriteQueueSize := n \<rparr>) cfg;
         cfg = on_opt (env_int env ''MAX_BATCH_SIZE'') (\<lambda>n c. c\<lparr> MaxBatchSize := (if n > 0 then n else MaxBatchSize c) \<rparr>) cfg;
         cfg = on_opt (case env_text env ''WRITE_DEADLINE_MS'' of Some v \<Rightarrow> ParseDuration (v @ ''ms'') | None \<Rightarrow> None)
                 (\<lambda>d c. c\<lparr> WriteTimeout := d \<rparr>) cfg;
         cfg = on_opt (env_text env ''IP_ALLOWLIST'') (\<lambda>v c. c\<lparr> AllowCIDRs := splitAndTrimCSV v \<rparr>) cfg
     in on_opt (env_text env ''IP_BLOCKLIST'') (\<lambda>v c. c\<lparr> BlockCIDRs := splitAndTrimCSV v \<rparr>) cfg)"

definition LoadConfigFromEnv :: "environment \<Rightarrow> ServerConfig \<times> TLSConfig option \<Rightarrow> ServerConfig \<times> TLSConfig option" where
  "LoadConfigFromEnv env cfg = (load_config env (fst cfg), map_option (LoadTLSConfigFromEnv env) (snd cfg))"

section \<open>Authentication\<close>

definition auth_DefaultConfig :: "environment \<Rightarrow> Config" where
  "auth_DefaultConfig env =
    (let cfg = \<lparr> cfg_Username = env ''STREAM_USER'', cfg_Password = env ''STREAM_PASS'', cfg_Timeout = 30 * second, cfg_MaxAttempts = 3,
           cfg_RateLimitWindow = minute \<rparr>;
         cfg = on_opt (env_int env ''AUTH_MAX_ATTEMPTS'') (\<lambda>n c. c\<lparr> cfg_MaxAttempts := (if n > 0 then n else cfg_MaxAttempts c) \<rparr>) cfg
     in on_opt (env_duration env ''AUTH_RATE_LIMIT_WINDOW'')
          (\<lambda>d c. c\<lparr> cfg_RateLimitWindow := (if d > 0 then d else cfg_RateLimitWindow c) \<rparr>) cfg)"

text \<open>The limiter is never configured with a limit or a window that is not positive.\<close>

lemma auth_config_positive:
  "0 < cfg_MaxAttempts (auth_DefaultConfig env)" "0 < cfg_RateLimitWindow (auth_DefaultConfig env)"
  by (auto simp: auth_DefaultConfig_def Let_def on_opt_def duration_defs split: option.split)

section \<open>A configuration written to the environment\<close>

fun join_csv :: "string list \<Rightarrow> string" where
  "join_csv [] = []"
| "join_csv [e] = e"
| "join_csv (e # es) = e @ '','' @ join_csv es"

definition config_env :: "ServerConfig \<Rightarrow> environment" where
  "config_env c = (\<lambda>_. [])(''LISTEN_ADDR'' := ListenAddr c, ''HEARTBEAT_INTERVAL'' := show_int (HeartbeatInterval c) @ ''ns'',
     ''HEARTBEAT_TIMEOUT'' := show_int (HeartbeatTimeout c) @ ''ns'', ''BATCH_WINDOW'' := show_int (BatchWindow c) @ ''ns'',
     ''TCP_READ_BUFFER_SIZE'' := show_int (TCPReadBufferSize c), ''TCP_WRITE_BUFFER_SIZE'' := show_int (TCPWriteBufferSize c),
     ''WRITE_DEADLINE_MS'' := show_int (WriteDeadlineMS c), ''MAX_WRITE_QUEUE_SIZE'' := show_int (MaxWriteQueueSize c),
     ''MAX_BATCH_SIZE'' := show_int (MaxBatchSize c), ''IP_ALLOWLIST'' := join_csv (AllowCIDRs c), ''IP_BLOCKLIST'' := join_csv (BlockCIDRs c))"

definition csv_entries :: "string list \<Rightarrow> bool" where
  "csv_entries = list_all (\<lambda>e. e \<noteq> [] \<and> CHR '','' \<notin> set e \<and> TrimSpace e = e)"

text \<open>
  The configurations the environment can express: the settings without a variable keep their defaults, the write timeout is the write
  deadline, batches are not empty.
\<close>

definition expressible :: "ServerConfig \<Rightarrow> bool" where
  "expressible c \<longleftrightarrow> ListenAddr c \<noteq> [] \<and> list_all in_i64 [HeartbeatInterval c, HeartbeatTimeout c, BatchWindow c, TCPReadBufferSize c,
       TCPWriteBufferSize c, WriteDeadlineMS c, MaxWriteQueueSize c, MaxBatchSize c, WriteDeadlineMS c * millisecond] \<and>
     WriteTimeout c = WriteDeadlineMS c * millisecond \<and> 0 < MaxBatchSize c \<and> csv_entries (AllowCIDRs c) \<and> csv_entries (BlockCIDRs c) \<and>
     MaxConnections c = MaxConnections DefaultConfig \<and> ReadTimeout c = ReadTimeout DefaultConfig \<and> KeepAlive c = KeepAlive DefaultConfig \<and>
     MaxMessageSize c = MaxMessageSize DefaultConfig \<and> AuthTimeout c = AuthTimeout DefaultConfig"

lemma show_int_nonempty: "show_int i \<noteq> []"
  using show_nat_digits by (simp add: show_int_def)

lemma env_int_show: "env name = show_int i \<Longrightarrow> in_i64 i \<Longrightarrow> env_int env name = Some i"
  by (simp add: env_int_def show_int_nonempty Atoi_show)

lemma ParseDuration_ns: "in_i64 i \<Longrightarrow> ParseDuration (show_int i @ ''ns'') = Some i"
  using ParseDuration_show [of "''ns''" 1 i] by (simp add: duration_unit_def number_char_def is_digit_def)

lemma ParseDuration_ms: "in_i64 (i * millisecond) \<Longrightarrow> ParseDuration (show_int i @ ''ms'') = Some (i * millisecond)"
  using ParseDuration_show [of "''ms''" 1000000 i] by (simp add: duration_unit_def number_char_def is_digit_def millisecond_def)

lemma split_join_csv: "csv_entries es \<Longrightarrow> es \<noteq> [] \<Longrightarrow> split_byte CHR '','' (join_csv es) = es"
  by (induction es rule: join_csv.induct) (auto simp: csv_entries_def split_byte_append split_byte_single)

lemma csv_join: "csv_entries es \<Longrightarrow> es \<noteq> [] \<Longrightarrow> splitAndTrimCSV (join_csv es) = es"
  by (simp add: splitAndTrimCSV_def split_join_csv csv_entries_def list_all_iff map_idI)

lemma join_csv_Nil: "csv_entries es \<Longrightarrow> join_csv es = [] \<longleftrightarrow> es = []"
  by (cases es rule: join_csv.cases) (auto simp: csv_entries_def)

lemma config_env_at [simp]:
  "config_env c ''LISTEN_ADDR'' = ListenAddr c" "config_env c ''LISTEN_PORT'' = []"
  "config_env c ''HEARTBEAT_INTERVAL'' = show_int (HeartbeatInterval c) @ ''ns''"
  "config_env c ''HEARTBEAT_INTERVAL_MS'' = []" "config_env c ''HEARTBEAT_TIMEOUT'' = show_int (HeartbeatTimeout c) @ ''ns''"
  "config_env c ''HEARTBEAT_TIMEOUT_MS'' = []" "config_env c ''BATCH_WINDOW'' = show_int (BatchWindow c) @ ''ns''"
  "config_env c ''BATCH_WINDOW_MS'' = []" "config_env c ''TCP_READ_BUFFER_SIZE'' = show_int (TCPReadBufferSize c)"
  "config_env c ''TCP_WRITE_BUFFER_SIZE'' = show_int (TCPWriteBufferSize c)"
  "config_env c ''WRITE_DEADLINE_MS'' = show_int (WriteDeadlineMS c)"
  "config_env c ''MAX_WRITE_QUEUE_SIZE'' = show_int (MaxWriteQueueSize c)"
  "config_env c ''MAX_BATCH_SIZE'' = show_int (MaxBatchSize c)"
  "config_env c ''IP_ALLOWLIST'' = join_csv (AllowCIDRs c)" "config_env c ''IP_BLOCKLIST'' = join_csv (BlockCIDRs c)"
  by (simp_all add: config_env_def)

lemma tls_unset: "LoadTLSConfigFromEnv (config_env c) cfg = cfg"
  by (simp add: LoadTLSConfigFromEnv_def env_text_def env_duration_def on_opt_def config_env_def)

lemma on_csv:
  assumes "csv_entries es" "env name = join_csv es"
  shows "on_opt (env_text env name) (\<lambda>v. f (splitAndTrimCSV v)) cfg = (if es = [] then cfg else f es cfg)"
  using assms csv_join join_csv_Nil by (auto simp: env_text_def on_opt_def)



end
