(* ===== verification/Lifecycle.thy ===== *)
theory Lifecycle
  imports ServerProps EnvConfig
begin

text \<open>
  How a server begins and ends: \<open>cmd/server/main.go\<close> and the lifecycle functions of \<open>internal/server/server.go\<close>.

  \<open>main\<close> reads the configuration from the environment and starts the server; \<open>Shutdown\<close> and \<open>Stop\<close> run in a goroutine of their own while
  the rest of the server goes on.  \<open>life_step\<close> is a step of that goroutine or of the rest.
\<close>

section \<open>Start\<close>

text \<open>\<open>listen\<close> is the error of binding the address, if there is one.  The result is the TLS configuration of the listener, or none.\<close>

definition createListener :: "(string \<Rightarrow> go_error option) \<Rightarrow> tls_world \<Rightarrow> ServerConfig \<times> TLSConfig option \<Rightarrow> go_error + listener_config option" where
  "createListener listen w cfg = (case listen (ListenAddr (fst cfg)) of
     Some e \<Rightarrow> Inl (Wrapf (''failed to listen on '' @ ListenAddr (fst cfg)) e)
   | None \<Rightarrow> (case snd cfg of
       Some tls \<Rightarrow> if tls_Enabled tls
         then (case BuildTLSConfig w tls of Inl e \<Rightarrow> Inl (Wrapf ''failed to build TLS config'' e) | Inr t \<Rightarrow> Inr t)
         else Inr None
     | None \<Rightarrow> Inr None))"

text \<open>\<open>bound\<close> is the address of the listener, which differs from the configured one when the port is 0.\<close>

definition server_ListenAddr :: "string \<Rightarrow> Server \<Rightarrow> string" where
  "server_ListenAddr bound s = (if srv_listening s then bound else ListenAddr (srv_config s))"

text \<open>
  \<open>main\<close> up to the point where it waits for a signal.  \<open>NewServer\<close> loads the environment a second time.
\<close>

definition boot_config :: "environment \<Rightarrow> ServerConfig \<times> TLSConfig option" where
  "boot_config env = LoadConfigFromEnv env (LoadConfigFromEnv env (DefaultConfig, Some DefaultTLSConfig))"

definition boot :: "environment \<Rightarrow> (string \<Rightarrow> go_error option) \<Rightarrow> tls_world \<Rightarrow> (go_error option \<times> Server) \<times> listener_config option" where
  "boot env listen w =
    (let cfg = boot_config env;
         tls = (case snd cfg of Some t \<Rightarrow> ValidateTLSConfig w t | None \<Rightarrow> None);
         l = createListener listen w cfg
     in (Server_Start tls (case l of Inl e \<Rightarrow> Some e | Inr _ \<Rightarrow> None) (NewServer (fst cfg) (auth_DefaultConfig env)),
         case l of Inl _ \<Rightarrow> None | Inr t \<Rightarrow> t))"

section \<open>Shutdown and Stop\<close>

text \<open>
  Where the goroutine of \<open>Shutdown\<close> or \<open>Stop\<close> is.  Both end in the same wait.  \<open>Looking\<close> and \<open>Selecting\<close> are the two halves of the
  polling loop, with the deadline of \<open>shutdownCtx\<close>; \<open>Closing\<close> holds the connections of \<open>closeAllConnections\<close> still to be closed.
  \<open>Already\<close> is the early return of a call on a closed server.
\<close>

datatype down_pc = Shutdown_begin | Shutdown_listener | Looking time | Selecting time | Forcing
  | Stop_begin | Stop_listener | Stop_cancel | Stop_pool
  | Snapshot | Closing "nat list" | Waiting | Returned "go_error option" | Already "go_error option"

record life =
  lf_sys :: system
  lf_pc :: down_pc
  lf_now :: time
  lf_deadline :: "time option"
  lf_ctx :: "go_error option"

definition shutdown_timeout :: "time \<Rightarrow> time option \<Rightarrow> duration" where
  "shutdown_timeout now deadline = (case deadline of Some d \<Rightarrow> time_sub d now | None \<Rightarrow> 30 * second)"

abbreviation goes :: "life \<Rightarrow> down_pc \<Rightarrow> life" where
  "goes l pc \<equiv> l\<lparr> lf_pc := pc \<rparr>"

abbreviation moves :: "life \<Rightarrow> system \<Rightarrow> down_pc \<Rightarrow> life" where
  "moves l s pc \<equiv> l\<lparr> lf_sys := s, lf_pc := pc \<rparr>"

inductive life_step :: "protobuf \<Rightarrow> fmt_env \<Rightarrow> life \<Rightarrow> life \<Rightarrow> bool" for pb fe where
  others: "srv_step pb fe (lf_sys l) s \<Longrightarrow> life_step pb fe l (l\<lparr> lf_sys := s \<rparr>)"
| time: "lf_now l \<le> t \<Longrightarrow> life_step pb fe l (l\<lparr> lf_now := t \<rparr>)"
| caller: "life_step pb fe l (l\<lparr> lf_ctx := Some e \<rparr>)"
| shutdown_closed: "lf_pc l = Shutdown_begin \<Longrightarrow> srv_closed (sv (lf_sys l)) \<Longrightarrow> life_step pb fe l (goes l (Already (Some (E ErrServerClosed))))"
| shutdown: "lf_pc l = Shutdown_begin \<Longrightarrow> s = lf_sys l \<Longrightarrow> \<not> srv_closed (sv s) \<Longrightarrow>
    life_step pb fe l (moves l (set_sv ((sv s)\<lparr> srv_closed := True \<rparr>) s) Shutdown_listener)"
| shutdown_listener: "lf_pc l = Shutdown_listener \<Longrightarrow> s = lf_sys l \<Longrightarrow> lf_now l \<le> t \<Longrightarrow>
    life_step pb fe l (moves l (set_sv ((sv s)\<lparr> srv_listening := False \<rparr>) s) (Looking (t + shutdown_timeout (lf_now l) (lf_deadline l))))"
| idle: "lf_pc l = Looking d \<Longrightarrow> activeConns (sv (lf_sys l)) = 0 \<Longrightarrow> life_step pb fe l (goes l Waiting)"
| busy: "lf_pc l = Looking d \<Longrightarrow> activeConns (sv (lf_sys l)) \<noteq> 0 \<Longrightarrow> life_step pb fe l (goes l (Selecting d))"
| tick: "lf_pc l = Selecting d \<Longrightarrow> life_step pb fe l (goes l (Looking d))"
| timeout: "lf_pc l = Selecting d \<Longrightarrow> d \<le> lf_now l \<Longrightarrow> life_step pb fe l (goes l Forcing)"
| force: "lf_pc l = Forcing \<Longrightarrow> s = lf_sys l \<Longrightarrow>
    life_step pb fe l (moves l (set_sv ((sv s)\<lparr> srv_ctx := Some (E Context_Canceled) \<rparr>) s) Snapshot)"
| stop_closed: "lf_pc l = Stop_begin \<Longrightarrow> srv_closed (sv (lf_sys l)) \<Longrightarrow> life_step pb fe l (goes l (Already None))"
| stop: "lf_pc l = Stop_begin \<Longrightarrow> s = lf_sys l \<Longrightarrow> \<not> srv_closed (sv s) \<Longrightarrow>
    life_step pb fe l (moves l (set_sv ((sv s)\<lparr> srv_closed := True \<rparr>) s) Stop_listener)"
| stop_listener: "lf_pc l = Stop_listener \<Longrightarrow> s = lf_sys l \<Longrightarrow>
    life_step pb fe l (moves l (set_sv ((sv s)\<lparr> srv_listening := False \<rparr>) s) Stop_cancel)"
| stop_cancel: "lf_pc l = Stop_cancel \<Longrightarrow> s = lf_sys l \<Longrightarrow>
    life_step pb fe l (moves l (set_sv ((sv s)\<lparr> srv_ctx := Some (E Context_Canceled) \<rparr>) s) Stop_pool)"
| stop_pool: "lf_pc l = Stop_pool \<Longrightarrow> s = lf_sys l \<Longrightarrow> pool_Stop (pl_pool (sv_pool s)) = Ret p \<Longrightarrow>
    life_step pb fe l (moves l (s\<lparr> sv_pool := (sv_pool s)\<lparr> pl_pool := p \<rparr> \<rparr>) Snapshot)"
| stop_pool_panics: "lf_pc l = Stop_pool \<Longrightarrow> s = lf_sys l \<Longrightarrow> pool_Stop (pl_pool (sv_pool s)) = Panic \<Longrightarrow>
    life_step pb fe l (l\<lparr> lf_sys := s\<lparr> sv_crashed := True \<rparr> \<rparr>)"
| snapshot: "lf_pc l = Snapshot \<Longrightarrow> distinct is \<Longrightarrow> set is = fset (fmran (srv_conns (sv (lf_sys l)))) \<Longrightarrow> life_step pb fe l (goes l (Closing is))"
| close_waiting: "lf_pc l = Closing (i # is) \<Longrightarrow> s = lf_sys l \<Longrightarrow> i < length (sv_clients s) \<Longrightarrow> c = sv_clients s ! i \<Longrightarrow> cl_conn c = Some conn \<Longrightarrow>
    cl_sess c = None \<Longrightarrow> Close now conn = Ret conn' \<Longrightarrow>
    life_step pb fe l (moves l (set_client i (c\<lparr> cl_conn := Some conn' \<rparr>) s) (Closing is))"
| close_session: "lf_pc l = Closing (i # is) \<Longrightarrow> s = lf_sys l \<Longrightarrow> i < length (sv_clients s) \<Longrightarrow> c = sv_clients s ! i \<Longrightarrow> cl_sess c = Some se \<Longrightarrow>
    se' = with_failures (authFailures (sv s)) se \<Longrightarrow> clock se' now t \<Longrightarrow> Close now (se_conn se') = Ret conn' \<Longrightarrow>
    life_step pb fe l (moves l (set_client i (c\<lparr> cl_sess := Some ((set_h ((se_h se')\<lparr> h_conn := conn' \<rparr>) se')\<lparr> se_now := t \<rparr>) \<rparr>) s) (Closing is))"
| closed_all: "lf_pc l = Closing [] \<Longrightarrow> life_step pb fe l (goes l Waiting)"
| complete: "lf_pc l = Waiting \<Longrightarrow> srv_wg (sv (lf_sys l)) = 0 \<Longrightarrow> life_step pb fe l (goes l (Returned None))"
| expired: "lf_pc l = Waiting \<Longrightarrow> lf_ctx l = Some e \<Longrightarrow> life_step pb fe l (goes l (Returned (Some e)))"

inductive_cases life_stepE: "life_step pb fe l l'"

text \<open>The moment of the call, in a system that may have been running for any time.\<close>

definition calls :: "down_pc \<Rightarrow> system \<Rightarrow> time \<Rightarrow> time option \<Rightarrow> life" where
  "calls pc s now deadline = \<lparr> lf_sys = s, lf_pc = pc, lf_now = now, lf_deadline = deadline, lf_ctx = None \<rparr>"

section \<open>Invariants\<close>

lemma processConnection_open:
  assumes "processConnection pb now a c v = Ret (r, v')"
  shows "srv_closed v' = srv_closed v" "srv_listening v' = srv_listening v"
  using assms
  by (auto simp: processConnection_def first_frame_def auth_failed_def auth_succeeded_def Let_def
      split: auth_case.splits outcome.splits prod.splits sum.splits option.splits if_splits)

lemma open_step:
  assumes "srv_step pb fe s s'"
  shows "srv_closed (sv s) \<longrightarrow> srv_closed (sv s')" "srv_listening (sv s') \<longrightarrow> srv_listening (sv s)"
  using assms
  by (cases rule: srv_step.cases; simp add: processConnection_open enter_connection_def leave_connection_def registerConnection_def
      unregisterConnection_def)+

lemma ended_step:
  assumes "srv_step pb fe s s'" "sv_accept s = AcceptEnded"
  shows "sv_accept s' = AcceptEnded" "length (sv_clients s') = length (sv_clients s)" "srv_wg (sv s') = srv_wg (sv s)"
proof -
  show "sv_accept s' = AcceptEnded" "length (sv_clients s') = length (sv_clients s)" using assms by (cases rule: srv_step.cases; simp)+
  show "srv_wg (sv s') = srv_wg (sv s)" using assms
    by (cases rule: srv_step.cases) (auto simp: process_frame_def enter_connection_def leave_connection_def registerConnection_def
      unregisterConnection_def dest!: processConnection_parts(1))
qed

lemma wg_zero:
  assumes "counters_ok s" "srv_wg (sv s) = 0"
  shows "sv_accept s = AcceptEnded" "\<forall>c \<in> set (sv_clients s). \<not> cl_direct c"
proof -
  have "of_bool (sv_accept s \<noteq> AcceptEnded) + int (length (filter cl_direct (sv_clients s))) = 0" using assms by (simp add: counters_ok_def)
  then have "(of_bool (sv_accept s \<noteq> AcceptEnded) :: int) = 0" "filter cl_direct (sv_clients s) = []"
    by (cases "sv_accept s = AcceptEnded"; simp)+
  then show "sv_accept s = AcceptEnded" "\<forall>c \<in> set (sv_clients s). \<not> cl_direct c" by (simp_all add: filter_empty_conv)
qed

definition down_inv :: "life \<Rightarrow> bool" where
  "down_inv l \<longleftrightarrow> counters_ok (lf_sys l) \<and>
     (lf_pc l \<notin> {Shutdown_begin, Stop_begin} \<longrightarrow> srv_closed (sv (lf_sys l))) \<and>
     (lf_pc l \<notin> {Shutdown_begin, Stop_begin, Shutdown_listener, Stop_listener} \<and> (\<nexists>e. lf_pc l = Already e) \<longrightarrow> \<not> srv_listening (sv (lf_sys l))) \<and>
     (lf_pc l = Returned None \<longrightarrow> srv_wg (sv (lf_sys l)) = 0)"

lemma client_moves_counters:
  assumes "counters_ok s" "i < length (sv_clients s)" "cl_pc c = cl_pc (sv_clients s ! i)" "cl_direct c = cl_direct (sv_clients s ! i)"
  shows "counters_ok (set_client i c s)"
  using assms by (auto simp: counters_ok_def count_update counted_client_def)

lemma counters_same [simp]:
  "counters_ok (set_sv ((sv s)\<lparr> srv_closed := b \<rparr>) s) = counters_ok s"
  "counters_ok (set_sv ((sv s)\<lparr> srv_listening := b \<rparr>) s) = counters_ok s"
  "counters_ok (set_sv ((sv s)\<lparr> srv_ctx := e \<rparr>) s) = counters_ok s"
  "counters_ok (s\<lparr> sv_pool := p \<rparr>) = counters_ok s"
  "counters_ok (s\<lparr> sv_crashed := b \<rparr>) = counters_ok s"
  by (simp_all add: counters_ok_def)

lemma down_inv_others:
  assumes "down_inv l" "srv_step pb fe (lf_sys l) s"
  shows "down_inv (l\<lparr> lf_sys := s \<rparr>)"
  using assms counters_ok_step [OF _ assms(2)] open_step [OF assms(2)] ended_step(3) [OF assms(2)] wg_zero(1)
  by (auto simp: down_inv_def)

lemma down_inv_step:
  assumes "down_inv l" "life_step pb fe l l'"
  shows "down_inv l'"
  using assms(2,1)
proof (cases rule: life_step.cases)
  case (others s)
  then show ?thesis using down_inv_others assms(1) by blast
next
  case (close_waiting i "is" s c conn now conn')
  then show ?thesis using assms(1) client_moves_counters [of s i "c\<lparr> cl_conn := Some conn' \<rparr>"] by (simp add: down_inv_def)
next
  case (close_session i "is" s c se se' now t conn')
  then show ?thesis
    using assms(1) client_moves_counters [of s i "c\<lparr> cl_sess := Some ((set_h ((se_h se')\<lparr> h_conn := conn' \<rparr>) se')\<lparr> se_now := t \<rparr>) \<rparr>"]
    by (simp add: down_inv_def)
qed (simp_all add: down_inv_def)

interpretation lifecycle: step_invariant "life_step pb fe" down_inv for pb fe
  by unfold_locales (rule down_inv_step)

lemma ended_life:
  assumes "life_step pb fe l l'" "sv_accept (lf_sys l) = AcceptEnded \<and> length (sv_clients (lf_sys l)) = n"
  shows "sv_accept (lf_sys l') = AcceptEnded \<and> length (sv_clients (lf_sys l')) = n"
  using assms(1)
proof (cases rule: life_step.cases)
  case (others s)
  then show ?thesis using ended_step [of pb fe "lf_sys l" s] assms(2) by simp
qed (use assms(2) in simp_all)

interpretation finished: step_invariant "life_step pb fe" "\<lambda>l. sv_accept (lf_sys l) = AcceptEnded \<and> length (sv_clients (lf_sys l)) = n" for pb fe n
  by unfold_locales (rule ended_life)

text \<open>
  C29: when \<open>Shutdown\<close> or \<open>Stop\<close> has closed the server and returns nil, the listener is closed, the accept loop has ended and no client is
  ever accepted again.  Moreover no client was ever given a goroutine of its own because the pool was full: such a client is
  counted in the wait group for ever, and both calls can then only end with the error of the caller's context.
\<close>

theorem shutdown_complete:
  assumes "Server_Start None None (NewServer cfg acfg) = (None, v)" "(srv_step pb fe)\<^sup>*\<^sup>* (system_of v p) s"
    and "pc \<in> {Shutdown_begin, Stop_begin}" "(life_step pb fe)\<^sup>*\<^sup>* (calls pc s now deadline) l" "lf_pc l = Returned None"
  shows "srv_closed (sv (lf_sys l)) \<and> \<not> srv_listening (sv (lf_sys l)) \<and> sv_accept (lf_sys l) = AcceptEnded \<and>
    (\<forall>c \<in> set (sv_clients (lf_sys l)). \<not> cl_direct c) \<and>
    (\<forall>l'. (life_step pb fe)\<^sup>*\<^sup>* l l' \<longrightarrow> length (sv_clients (lf_sys l')) = length (sv_clients (lf_sys l)))"
proof -
  have "counters_ok s" using books.holds_reachable [OF assms(2) books_init [OF assms(1)]] by simp
  then have "down_inv (calls pc s now deadline)" using assms(3) by (auto simp: down_inv_def calls_def)
  then have l: "down_inv l" by (rule lifecycle.holds_reachable [OF assms(4)])
  then have "counters_ok (lf_sys l)" "srv_wg (sv (lf_sys l)) = 0" using assms(5) by (auto simp: down_inv_def)
  then have e: "sv_accept (lf_sys l) = AcceptEnded" "\<forall>c \<in> set (sv_clients (lf_sys l)). \<not> cl_direct c" by (rule wg_zero)+
  then have "length (sv_clients (lf_sys l')) = length (sv_clients (lf_sys l))" if "(life_step pb fe)\<^sup>*\<^sup>* l l'" for l'
    using finished.holds_reachable [OF that, of "length (sv_clients (lf_sys l))"] e(1) by blast
  moreover have "srv_closed (sv (lf_sys l)) \<and> \<not> srv_listening (sv (lf_sys l))" using l assms(5) by (simp add: down_inv_def)
  ultimately show ?thesis using e by blast
qed

lemma quiet_shutdown:
  assumes "sv_accept s = Accepting" "\<not> srv_closed (sv s)" "activeConns (sv s) = 0" "srv_wg (sv s) = 1"
  shows "\<exists>l. (life_step pb fe)\<^sup>*\<^sup>* (calls Shutdown_begin s t None) l \<and> lf_pc l = Returned None \<and> lf_now l = t"
proof -
  let ?l = "\<lambda>s pc. \<lparr> lf_sys = s, lf_pc = pc, lf_now = t, lf_deadline = None, lf_ctx = None \<rparr>"
  let ?s1 = "set_sv ((sv s)\<lparr> srv_closed := True \<rparr>) s" let ?s2 = "set_sv ((sv ?s1)\<lparr> srv_listening := False \<rparr>) ?s1"
  let ?s3 = "?s2\<lparr> sv_accept := AcceptEnded, sv := (sv ?s2)\<lparr> srv_wg := srv_wg (sv ?s2) - 1 \<rparr> \<rparr>" let ?d = "t + shutdown_timeout t None"
  have "life_step pb fe (calls Shutdown_begin s t None) (?l ?s1 Shutdown_listener)"
    using life_step.shutdown [of "?l s Shutdown_begin" s pb fe] assms(2) by (simp add: calls_def)
  moreover have "life_step pb fe (?l ?s1 Shutdown_listener) (?l ?s2 (Looking ?d))"
    using life_step.shutdown_listener [of "?l ?s1 Shutdown_listener" ?s1 t pb fe] by simp
  moreover have "life_step pb fe (?l ?s2 (Looking ?d)) (?l ?s3 (Looking ?d))"
    using life_step.others [of pb fe "?l ?s2 (Looking ?d)" ?s3] srv_step.accept_fails [of ?s2 pb fe] assms(1) by simp
  moreover have "life_step pb fe (?l ?s3 (Looking ?d)) (?l ?s3 Waiting)"
    using life_step.idle [of "?l ?s3 (Looking ?d)" ?d pb fe] assms(3) by simp
  moreover have "life_step pb fe (?l ?s3 Waiting) (?l ?s3 (Returned None))"
    using life_step.complete [of "?l ?s3 Waiting" pb fe] assms(4) by simp
  ultimately have "(life_step pb fe)\<^sup>*\<^sup>* (calls Shutdown_begin s t None) (?l ?s3 (Returned None))"
    by (meson converse_rtranclp_into_rtranclp rtranclp.rtrancl_refl)
  then show ?thesis by (intro exI [of _ "?l ?s3 (Returned None)"]) simp
qed

theorem shutdown_complete_witness:
  "\<exists>v l. (life_step login_pb sample_fe)\<^sup>*\<^sup>* (calls Shutdown_begin (system_of v sample_pool) 0 None) l \<and> sv_accept (lf_sys l) = AcceptEnded \<and>
     (\<forall>l'. (life_step login_pb sample_fe)\<^sup>*\<^sup>* l l' \<longrightarrow> length (sv_clients (lf_sys l')) = length (sv_clients (lf_sys l)))"
proof -
  obtain v s se where v: "Server_Start None None (NewServer sample_server sample_config) = (None, v)"
    using sample_run by blast
  then obtain f where "v = (NewServer sample_server sample_config)\<lparr> ipFilter := f, srv_listening := True, srv_wg := 1 \<rparr>"
    using Start_parts by blast
  then have "\<not> srv_closed v" "activeConns v = 0" "srv_wg v = 1" by (simp_all add: NewServer_def)
  then obtain l where "(life_step login_pb sample_fe)\<^sup>*\<^sup>* (calls Shutdown_begin (system_of v sample_pool) 0 None) l" "lf_pc l = Returned None"
    using quiet_shutdown [of "system_of v sample_pool" login_pb sample_fe 0] by (auto simp: system_of_def)
  then show ?thesis using shutdown_complete [OF v rtranclp.rtrancl_refl, of Shutdown_begin] by blast
qed

section \<open>From the environment to the client\<close>

lemma no_entries: "splitAndTrimCSV [] = []"
  by (simp add: splitAndTrimCSV_def TrimSpace_def split_byte.simps trim_left.simps trim_right.simps)

lemma loaded_lists:
  "AllowCIDRs (load_config env c) = (if env ''IP_ALLOWLIST'' \<noteq> [] then splitAndTrimCSV (env ''IP_ALLOWLIST'') else AllowCIDRs c)"
  "BlockCIDRs (load_config env c) = (if env ''IP_BLOCKLIST'' \<noteq> [] then splitAndTrimCSV (env ''IP_BLOCKLIST'') else BlockCIDRs c)"
  unfolding load_config_def Let_def
  by (simp_all add: on_opt_keeps [where g = AllowCIDRs] on_opt_keeps [where g = BlockCIDRs]
      on_opt_sets [where g = AllowCIDRs and v = "env_text env ''IP_ALLOWLIST''"] on_opt_sets [where g = BlockCIDRs and v = "env_text env ''IP_BLOCKLIST''"]
      split: option.split) (simp_all add: env_text_def)

lemma boot_lists:
  "AllowCIDRs (fst (boot_config env)) = splitAndTrimCSV (env ''IP_ALLOWLIST'')"
  "BlockCIDRs (fst (boot_config env)) = splitAndTrimCSV (env ''IP_BLOCKLIST'')"
  by (simp_all add: boot_config_def LoadConfigFromEnv_def loaded_lists no_entries DefaultConfig_def)

lemma boot_credentials: "cfg_Username (auth_DefaultConfig env) = env ''STREAM_USER''" "cfg_Password (auth_DefaultConfig env) = env ''STREAM_PASS''"
  by (simp_all add: auth_DefaultConfig_def Let_def on_opt_keeps [where g = cfg_Username] on_opt_keeps [where g = cfg_Password])

lemma booted:
  assumes "boot env listen w = ((None, v), l)"
  shows "Server_Start None None (NewServer (fst (boot_config env)) (auth_DefaultConfig env)) = (None, v)"
    "createListener listen w (boot_config env) = Inr l"
  using assms by (auto simp: boot_def Let_def Server_Start_def split: option.splits sum.splits if_splits)

lemma boot_tls:
  assumes "createListener listen w (boot_config env) = Inr l"
  shows "l \<noteq> None \<longleftrightarrow> lower_is (env ''TLS_ENABLED'') ''true''" "l = Some t \<Longrightarrow> tc_MinVersion t = VersionTLS13"
proof -
  let ?c = "LoadTLSConfigFromEnv env (LoadTLSConfigFromEnv env DefaultTLSConfig)"
  have c: "snd (boot_config env) = Some ?c" by (simp add: boot_config_def LoadConfigFromEnv_def)
  have e: "tls_Enabled ?c \<longleftrightarrow> lower_is (env ''TLS_ENABLED'') ''true''" "tls_MinVersion ?c = VersionTLS13"
    by (auto simp: env_text_def DefaultTLSConfig_def lower_is_def runes.simps)
  have b: "BuildTLSConfig w ?c = Inr l" if "tls_Enabled ?c" using assms that by (auto simp: createListener_def c split: option.splits sum.splits)
  have n: "l = None" if "\<not> tls_Enabled ?c" using assms that by (auto simp: createListener_def c split: option.splits)
  have "l \<noteq> None" if "tls_Enabled ?c" using b [OF that] that by (auto simp: BuildTLSConfig_def Let_def split: sum.splits if_splits)
  then show "l \<noteq> None \<longleftrightarrow> lower_is (env ''TLS_ENABLED'') ''true''" using n e(1) by blast
  show "tc_MinVersion t = VersionTLS13" if "l = Some t"
    using b n that Build_cases [of w ?c t] e(2) by (metis option.distinct(1))
qed

text \<open>
  C28: what the operator writes into the environment is what clients meet.  A server started by \<open>main\<close> listens with TLS exactly when
  \<open>TLS_ENABLED\<close> is true, and then with version 1.3; the lists \<open>IP_ALLOWLIST\<close> and \<open>IP_BLOCKLIST\<close> are well formed and permit the address of
  every client that is ever handed to a handler; and a client has a session only if its first frame carries \<open>STREAM_USER\<close> and \<open>STREAM_PASS\<close>.
\<close>

theorem environment_enforced:
  assumes "boot env listen w = ((None, v), l)" "(srv_step pb fe)\<^sup>*\<^sup>* (system_of v p) s"
  shows "(l \<noteq> None \<longleftrightarrow> lower_is (env ''TLS_ENABLED'') ''true'') \<and> (\<forall>t. l = Some t \<longrightarrow> tc_MinVersion t = VersionTLS13) \<and>
    (\<exists>a b. list_prefixes (splitAndTrimCSV (env ''IP_ALLOWLIST'')) = Some a \<and> list_prefixes (splitAndTrimCSV (env ''IP_BLOCKLIST'')) = Some b \<and>
      (\<forall>i < length (sv_clients s).
        (\<exists>host port ip. SplitHostPort (cl_addr (sv_clients s ! i)) = Inr (host, port) \<and> ParseIP host = Some ip \<and> permits a b (normalizeIP ip)) \<and>
        (cl_sess (sv_clients s ! i) \<noteq> None \<longrightarrow>
          (\<exists>pl rest req. pending (cl_in (sv_clients s ! i)) = wire ProtocolVersion MessageTypeAuth pl @ rest \<and> unmarshal_Auth pb pl = Inr req \<and>
             auth_Username req = env ''STREAM_USER'' \<and> auth_Password req = env ''STREAM_PASS''))))"
proof -
  note start = booted(1) [OF assms(1)]
  obtain f where f: "NewIPFilterFromStrings (splitAndTrimCSV (env ''IP_ALLOWLIST'')) (splitAndTrimCSV (env ''IP_BLOCKLIST'')) = Inr f"
    using Start_parts [OF start] by (auto simp: boot_lists)
  then obtain a b where ab: "list_prefixes (splitAndTrimCSV (env ''IP_ALLOWLIST'')) = Some a" "list_prefixes (splitAndTrimCSV (env ''IP_BLOCKLIST'')) = Some b"
    using parseCIDRList_None by (fastforce simp: NewIPFilterFromStrings_def split: sum.splits)
  have "\<exists>pl rest req. pending (cl_in (sv_clients s ! i)) = wire ProtocolVersion MessageTypeAuth pl @ rest \<and> unmarshal_Auth pb pl = Inr req \<and>
      auth_Username req = env ''STREAM_USER'' \<and> auth_Password req = env ''STREAM_PASS''"
    if "i < length (sv_clients s)" "cl_sess (sv_clients s ! i) \<noteq> None" for i
    using session_presents(1) [OF start assms(2) that(1)] that(2) by (auto simp: presents_def boot_credentials)
  moreover have "\<exists>host port ip. SplitHostPort (cl_addr (sv_clients s ! i)) = Inr (host, port) \<and> ParseIP host = Some ip \<and> permits a b (normalizeIP ip)"
    if "i < length (sv_clients s)" for i
    using clients_permitted [OF start assms(2), unfolded boot_lists, OF ab that] .
  ultimately show ?thesis using ab boot_tls [OF booted(2) [OF assms(1)]] by blast
qed

text \<open>An environment with credentials and an allow list.\<close>

definition sample_env :: environment where
  "sample_env = (\<lambda>_. [])(''STREAM_USER'' := ''user'', ''STREAM_PASS'' := ''secret'', ''AUTH_MAX_ATTEMPTS'' := ''1'', ''IP_ALLOWLIST'' := ''1.2.3.0/24'')"

lemma sample_env_at:
  "sample_env ''LISTEN_PORT'' = []" "sample_env ''LISTEN_ADDR'' = []" "sample_env ''LISTEN_HOST'' = []" "sample_env ''HEARTBEAT_INTERVAL'' = []"
  "sample_env ''HEARTBEAT_INTERVAL_MS'' = []" "sample_env ''HEARTBEAT_TIMEOUT'' = []" "sample_env ''HEARTBEAT_TIMEOUT_MS'' = []"
  "sample_env ''BATCH_WINDOW'' = []" "sample_env ''BATCH_WINDOW_MS'' = []" "sample_env ''TCP_READ_BUFFER_SIZE'' = []"
  "sample_env ''TCP_WRITE_BUFFER_SIZE'' = []" "sample_env ''WRITE_DEADLINE_MS'' = []" "sample_env ''MAX_WRITE_QUEUE_SIZE'' = []"
  "sample_env ''MAX_BATCH_SIZE'' = []" "sample_env ''IP_ALLOWLIST'' = ''1.2.3.0/24''" "sample_env ''IP_BLOCKLIST'' = []"
  "sample_env ''AUTH_MAX_ATTEMPTS'' = ''1''" "sample_env ''AUTH_RATE_LIMIT_WINDOW'' = []" "sample_env ''STREAM_USER'' = ''user''"
  "sample_env ''STREAM_PASS'' = ''secret''" "sample_env ''TLS_ENABLED'' = []" "sample_env ''TLS_CERT_FILE'' = []" "sample_env ''TLS_KEY_FILE'' = []"
  "sample_env ''TLS_CA_FILE'' = []" "sample_env ''TLS_CLIENT_CA_FILE'' = []" "sample_env ''TLS_CLIENT_AUTH'' = []"
  "sample_env ''TLS_OCSP_ENABLED'' = []" "sample_env ''TLS_INSECURE_SKIP_VERIFY'' = []" "sample_env ''TLS_CERT_WATCH_ENABLED'' = []"
  "sample_env ''TLS_CERT_CHECK_INTERVAL'' = []"
  by (simp_all add: sample_env_def)

lemma sample_load:
  assumes "c = DefaultConfig \<or> c = sample_server"
  shows "load_config sample_env c = sample_server"
proof -
  have "TrimSpace ''1.2.3.0/24'' = ''1.2.3.0/24''"
    by (simp add: TrimSpace_def trim_left.simps trim_right.simps decode_rune_def decode_bytes.simps width_def IsSpace_def decode_last_rune_def)
  then have l: "splitAndTrimCSV ''1.2.3.0/24'' = [''1.2.3.0/24'']" by (simp add: splitAndTrimCSV_def split_byte.simps)
  have "load_config sample_env c = c\<lparr> AllowCIDRs := [''1.2.3.0/24''] \<rparr>"
    unfolding load_config_def Let_def env_int_def env_duration_def env_text_def listen_addr_def sample_env_at
    by (simp add: on_opt_def l)
  then show ?thesis using assms by (auto simp: sample_server_def)
qed

lemma sample_boot:
  assumes "Server_Start None None (NewServer sample_server sample_config) = (None, v)"
  shows "boot sample_env (\<lambda>_. None) w = ((None, v), None)"
proof -
  have "load_config sample_env DefaultConfig = sample_server" "load_config sample_env sample_server = sample_server"
    by (rule sample_load, simp)+
  moreover have "LoadTLSConfigFromEnv sample_env c = c" for c
    unfolding LoadTLSConfigFromEnv_def Let_def env_text_def env_duration_def sample_env_at by (simp add: on_opt_def)
  ultimately have c: "boot_config sample_env = (sample_server, Some DefaultTLSConfig)" by (simp add: boot_config_def LoadConfigFromEnv_def)
  have "show_int 1 = ''1''" by code_simp
  then have "Atoi ''1'' = Some 1" using Atoi_show [of 1] by (simp add: in_i64_def)
  then have a: "auth_DefaultConfig sample_env = sample_config"
    unfolding auth_DefaultConfig_def Let_def env_int_def env_duration_def sample_env_at by (simp add: on_opt_def sample_config_def)
  have "\<not> tls_Enabled DefaultTLSConfig" by (simp add: DefaultTLSConfig_def)
  then have "ValidateTLSConfig w DefaultTLSConfig = None" "createListener (\<lambda>_. None) w (boot_config sample_env) = Inr None"
    by (simp_all add: ValidateTLSConfig_def createListener_def c)
  then show ?thesis unfolding boot_def a Let_def by (simp add: c assms)
qed

theorem environment_enforced_witness:
  "\<exists>v s. boot sample_env (\<lambda>_. None) mtls_world = ((None, v), None) \<and> (srv_step login_pb sample_fe)\<^sup>*\<^sup>* (system_of v sample_pool) s \<and>
     length (sv_clients s) = 1 \<and> (\<exists>pl rest. pending (cl_in (sv_clients s ! 0)) = wire ProtocolVersion MessageTypeAuth pl @ rest)"
proof -
  obtain v s se where r: "Server_Start None None (NewServer sample_server sample_config) = (None, v)"
      "(srv_step login_pb sample_fe)\<^sup>*\<^sup>* (system_of v sample_pool) s" "length (sv_clients s) = 1" "cl_sess (sv_clients s ! 0) = Some se"
    using sample_run by blast
  have b: "boot sample_env (\<lambda>_. None) mtls_world = ((None, v), None)" by (rule sample_boot [OF r(1)])
  have "\<exists>pl rest. pending (cl_in (sv_clients s ! 0)) = wire ProtocolVersion MessageTypeAuth pl @ rest"
    using environment_enforced [OF b r(2)] r(3,4) by fastforce
  then show ?thesis using b r(2,3) by blast
qed

end
