(* ===== verification/FloatRound.thy ===== *)
theory FloatRound
  imports FloatArith Prelude
begin

text \<open>
  Rounding to \<open>float64\<close> against a threshold: a positive rational on one side of a representable number is not rounded to the
  other side.  With this the comparison of a quotient of small integers with a constant is a comparison of integers.
\<close>

lemma floorlog_rat:
  assumes "0 < n"
  shows "2 powi (int (floorlog 2 n) - 1) \<le> (of_nat n :: rat)" "(of_nat n :: rat) < 2 powi int (floorlog 2 n)"
proof -
  let ?k = "floorlog 2 n"
  have k: "0 < ?k" using assms by (simp add: floorlog_def)
  have "n < 2 ^ ?k" "2 ^ (?k - 1) \<le> n" using floorlog_bounds [of n 2] assms by auto
  then have "(of_nat (2 ^ (?k - 1)) :: rat) \<le> of_nat n" "(of_nat n :: rat) < of_nat (2 ^ ?k)"
    by (simp_all only: of_nat_le_iff of_nat_less_iff)
  moreover have "int ?k - 1 = int (?k - 1)" using k by simp
  ultimately show "2 powi (int ?k - 1) \<le> (of_nat n :: rat)" "(of_nat n :: rat) < 2 powi int ?k"
    by (simp_all only: power_int_of_nat of_nat_power of_nat_numeral)
qed

lemma powi_mono: "a \<le> b \<Longrightarrow> (2 :: rat) powi a \<le> 2 powi b"
  by (rule power_int_increasing) simp_all

lemma powi_less: "(2 :: rat) powi a < 2 powi b \<Longrightarrow> a < b"
  using powi_mono [of b a] by (cases "a < b") auto

lemma powi_pos: "0 < (2 :: rat) powi a"
  by (rule zero_less_power_int) simp

lemma powi_split: "(2 :: rat) powi (a + b) = 2 powi a * 2 powi b"
  by (rule power_int_add) simp

text \<open>The binade of a positive number.\<close>

lemma binade_spec:
  assumes "0 < r"
  shows "2 powi binade r \<le> r \<and> r < 2 powi (binade r + 1)"
proof -
  obtain n d where q: "quotient_of r = (n, d)" by (cases "quotient_of r")
  have d: "0 < d" and r: "r = of_int n / of_int d" using quotient_of_denom_pos [OF q] quotient_of_div [OF q] by simp_all
  then have n: "0 < n" using assms by (simp add: zero_less_divide_iff)
  define p where "p = int (floorlog 2 (nat n))"
  define k where "k = int (floorlog 2 (nat d))"
  have np: "2 powi (p - 1) \<le> (of_int n :: rat)" "(of_int n :: rat) < 2 powi p"
    using floorlog_rat [of "nat n"] n by (simp_all add: p_def)
  have dk: "2 powi (k - 1) \<le> (of_int d :: rat)" "(of_int d :: rat) < 2 powi k"
    using floorlog_rat [of "nat d"] d by (simp_all add: k_def)
  have pos: "0 < (of_int n :: rat)" "0 < (of_int d :: rat)" using n d by simp_all
  have "r < 2 powi p / 2 powi (k - 1)" unfolding r using np dk pos powi_pos by (intro frac_less) auto
  also have "\<dots> = 2 powi (p - k + 1)" by (simp add: power_int_diff power_int_add)
  finally have u: "r < 2 powi (p - k + 1)" .
  have "2 powi (p - 1) / 2 powi k \<le> r" unfolding r using np dk pos powi_pos by (intro frac_le) auto
  moreover have "2 powi (p - 1) / 2 powi k = (2 :: rat) powi (p - k - 1)" by (simp add: power_int_diff)
  ultimately have l: "2 powi (p - k - 1) \<le> r" by simp
  have "binade r = (if 2 powi (p - k) \<le> r then p - k else p - k - 1)"
    using assms q by (simp add: binade_def p_def k_def Let_def)
  then show ?thesis using u l by (simp add: not_le split: if_splits)
qed

lemma binade_unique:
  assumes "2 powi e \<le> r" "r < 2 powi (e + 1)"
  shows "binade r = e"
proof -
  have "0 < r" using assms(1) powi_pos [of e] by linarith
  then have "2 powi e < (2 :: rat) powi (binade r + 1)" "(2 :: rat) powi binade r < 2 powi (e + 1)"
    using binade_spec [of r] assms by linarith+
  then have "e < binade r + 1" "binade r < e + 1" by (auto dest: powi_less)
  then show ?thesis by simp
qed

lemma binade_mono: "0 < x \<Longrightarrow> x \<le> y \<Longrightarrow> binade x \<le> binade y"
  using binade_spec [of x] binade_spec [of y] powi_less [of "binade x" "binade y + 1"] by linarith

lemma unit_exp_mono: "0 < x \<Longrightarrow> x \<le> y \<Longrightarrow> unit_exp x \<le> unit_exp y"
  using binade_mono [of x y] by (auto simp: unit_exp_def)

definition representable :: "rat \<Rightarrow> bool" where
  "representable d \<longleftrightarrow> (\<exists>k. d = of_int k * 2 powi unit_exp d)"

lemma nearest_le:
  assumes "0 < x" "x \<le> d" "representable d"
  shows "nearest x \<le> d"
proof -
  obtain k where k: "d = of_int k * 2 powi unit_exp d" using assms(3) by (auto simp: representable_def)
  define m where "m = nat (unit_exp d - unit_exp x)"
  have "unit_exp d = unit_exp x + int m" using unit_exp_mono [OF assms(1,2)] by (simp add: m_def)
  then have "d = of_int (k * 2 ^ m) * 2 powi unit_exp x" using k by (simp add: powi_split)
  then have "x / 2 powi unit_exp x \<le> of_int (k * 2 ^ m)" using assms(2) powi_pos [of "unit_exp x"] by (simp add: pos_divide_le_eq)
  then have "half_even (x / 2 powi unit_exp x) \<le> k * 2 ^ m" using half_even_mono half_even_int by metis
  then have "nearest x \<le> of_int (k * 2 ^ m) * 2 powi unit_exp x"
    unfolding nearest_def using assms(1) powi_pos [of "unit_exp x"] by (simp add: mult_right_mono del: of_int_mult)
  then show ?thesis using \<open>d = of_int (k * 2 ^ m) * 2 powi unit_exp x\<close> by simp
qed

lemma nearest_ge:
  assumes "0 < d" "d \<le> x" "representable d"
  shows "d \<le> nearest x"
proof -
  let ?u = "unit_exp x"
  have x: "0 < x" using assms by simp
  have ge: "of_int j * 2 powi ?u \<le> nearest x" if "of_int j * 2 powi ?u \<le> x" for j
  proof -
    have "of_int j \<le> x / 2 powi ?u" using that powi_pos [of ?u] by (simp add: pos_le_divide_eq)
    then have "j \<le> half_even (x / 2 powi ?u)" using half_even_mono half_even_int by metis
    then show ?thesis unfolding nearest_def using x powi_pos [of ?u] by (simp add: mult_right_mono)
  qed
  show ?thesis
  proof (cases "unit_exp d = ?u")
    case True
    then show ?thesis using ge assms(2,3) by (metis representable_def)
  next
    case False
    then have "unit_exp d < ?u" using unit_exp_mono [OF assms(1,2)] by simp
    then have b: "binade d + 1 \<le> binade x" "?u = binade x - 52" by (auto simp: unit_exp_def)
    have "2 powi binade x = of_int (2 ^ 52) * (2 :: rat) powi ?u"
      using powi_split [of 52 ?u] b(2) by simp
    then have "2 powi binade x \<le> nearest x" using ge [of "2 ^ 52"] binade_spec [OF x] by simp
    moreover have "d < 2 powi binade x" using binade_spec [OF assms(1)] powi_mono [OF b(1)] by linarith
    ultimately show ?thesis by linarith
  qed
qed

lemma nearest_nonpos: "x \<le> 0 \<Longrightarrow> nearest x \<le> 0"
proof (cases "x = 0")
  case False
  assume "x \<le> 0"
  then have "x / 2 powi unit_exp x \<le> of_int 0" using powi_pos [of "unit_exp x"] by (simp add: divide_le_0_iff)
  then have "half_even (x / 2 powi unit_exp x) \<le> 0" using half_even_mono half_even_int by metis
  then show ?thesis unfolding nearest_def using False powi_pos [of "unit_exp x"] by (simp add: mult_nonpos_nonneg)
qed (simp add: nearest_def)

text \<open>
  \<open>float64(a) / float64(m) > c\<close> for a constant \<open>p / q\<close> that the compiler rounds up to \<open>t\<close>; \<open>t'\<close> is the next \<open>float64\<close>.
\<close>

lemma quotient_gt:
  assumes m: "0 < m" "m \<le> 2 ^ b" "b < 53" and a: "\<bar>a\<bar> < 2 ^ 53" and q: "0 < q"
    and t: "representable t" "of_int p / of_int q \<le> t" "0 < t" "t < 1"
    and t': "representable t'" "t < t'" "t' \<le> of_int p / of_int q + 1 / (of_int q * 2 ^ b)"
  shows "f64_gt (f64_div (f64_of_int a) (f64_of_int m)) (Fin t) \<longleftrightarrow> p * m < q * a"
proof -
  define x where "x = (of_int a / of_int m :: rat)"
  have mq: "0 < (of_int m :: rat)" "0 < (of_int q :: rat)" using m q by simp_all
  have "(2 :: int) ^ b < 2 ^ 53" using m(3) by (intro power_strict_increasing) simp_all
  then have "m < 2 ^ 53" using m(2) by linarith
  then have div: "f64_div (f64_of_int a) (f64_of_int m) = round64 x"
    using a m by (simp add: f64_of_int_exact x_def)
  have "(1 :: rat) \<le> max64" using pow53_max64 by (rule order_trans [rotated]) simp
  then have big: "t < max64" using t(4) by linarith
  show ?thesis
  proof (cases "p * m < q * a")
    case False
    then have "of_int (q * a) \<le> (of_int (p * m) :: rat)" by (simp only: of_int_le_iff not_less)
    then have "x \<le> of_int p / of_int q" using mq by (simp add: x_def field_simps)
    then have "x \<le> t" using t(2) by linarith
    then have "nearest x \<le> t" using nearest_le [OF _ _ t(1)] nearest_nonpos [of x] t(3) by (cases "0 < x") auto
    then show ?thesis using False big by (auto simp: div round64_def Let_def)
  next
    case True
    then have "of_int (p * m + 1) \<le> (of_int (q * a) :: rat)" by (simp only: of_int_le_iff)
    then have "of_int (p * m + 1) / (of_int q * of_int m) \<le> of_int (q * a) / (of_int q * of_int m :: rat)"
      using mq by (intro divide_right_mono) simp_all
    moreover have "of_int (p * m + 1) / (of_int q * of_int m) = of_int p / of_int q + 1 / (of_int q * of_int m :: rat)"
        "of_int (q * a) / (of_int q * of_int m) = x"
      using mq by (simp_all add: x_def add_divide_distrib)
    ultimately have "of_int p / of_int q + 1 / (of_int q * of_int m) \<le> x" by simp
    moreover have "(of_int m :: rat) \<le> of_int (2 ^ b)" using m(2) by (simp only: of_int_le_iff)
    then have "1 / (of_int q * 2 ^ b) \<le> 1 / (of_int q * of_int m :: rat)" using mq by (intro divide_left_mono mult_left_mono) auto
    ultimately have "t' \<le> x" using t'(3) by linarith
    then have "t < nearest x" using nearest_ge [OF _ _ t'(1)] t(3) t'(2) by fastforce
    moreover have "- max64 < nearest x" using calculation t(3) max64_pos by linarith
    ultimately show ?thesis using True by (auto simp: div round64_def Let_def)
  qed
qed

lemma representable_half:
  assumes "2 ^ 52 \<le> k" "k < 2 ^ 53"
  shows "representable (of_int k / 2 ^ 53)"
proof -
  have "(2 :: rat) ^ 52 \<le> of_int k" "of_int k < (2 :: rat) ^ 53"
    using assms by (metis of_int_le_iff of_int_numeral of_int_power, metis of_int_less_iff of_int_numeral of_int_power)
  then have "binade (of_int k / 2 ^ 53) = - 1" by (intro binade_unique) (simp_all add: power_int_minus field_simps)
  then have "unit_exp (of_int k / 2 ^ 53) = - 53" by (simp add: unit_exp_def)
  then show ?thesis by (auto simp: representable_def power_int_minus field_simps intro!: exI [of _ k])
qed

text \<open>The constants \<open>0.9\<close>, \<open>0.8\<close> and \<open>0.5\<close>.\<close>

definition f64_0_9 :: f64 where "f64_0_9 = Fin (8106479329266893 / 2 ^ 53)"
definition f64_0_8 :: f64 where "f64_0_8 = Fin (7205759403792794 / 2 ^ 53)"
definition f64_0_5 :: f64 where "f64_0_5 = Fin (1 / 2)"

lemma representable_at: "4503599627370496 \<le> k \<Longrightarrow> k < 9007199254740992 \<Longrightarrow> representable (of_int k / 2 ^ 53)"
  by (rule representable_half) simp_all

lemma ratio_gt_half:
  assumes "0 < m" "m \<le> 2 ^ 52" "\<bar>a\<bar> < 2 ^ 53"
  shows "f64_gt (f64_div (f64_of_int a) (f64_of_int m)) f64_0_5 \<longleftrightarrow> m < 2 * a"
  using quotient_gt [OF assms(1,2) _ assms(3), of 2 "1 / 2" 1 "4503599627370497 / 2 ^ 53"]
    representable_at [of 4503599627370496] representable_at [of 4503599627370497] by (simp add: f64_0_5_def)

lemma ratio_gt:
  assumes "0 < m" "m \<le> 2 ^ 31" "\<bar>a\<bar> < 2 ^ 53"
  shows "f64_gt (f64_div (f64_of_int a) (f64_of_int m)) f64_0_9 \<longleftrightarrow> 9 * m < 10 * a"
    "f64_gt (f64_div (f64_of_int a) (f64_of_int m)) f64_0_8 \<longleftrightarrow> 4 * m < 5 * a"
  using quotient_gt [OF assms(1,2) _ assms(3), of 10 "8106479329266893 / 2 ^ 53" 9 "8106479329266894 / 2 ^ 53"]
    quotient_gt [OF assms(1,2) _ assms(3), of 5 "7205759403792794 / 2 ^ 53" 4 "7205759403792795 / 2 ^ 53"]
    representable_at [of 8106479329266893] representable_at [of 8106479329266894]
    representable_at [of 7205759403792794] representable_at [of 7205759403792795]
  by (simp_all add: f64_0_9_def f64_0_8_def)

section \<open>Seconds\<close>

text \<open>\<open>Duration.Seconds\<close>: whole seconds plus the rest over a billion.\<close>

definition duration_Seconds :: "duration \<Rightarrow> f64" where
  "duration_Seconds d = f64_add (f64_of_int (go_div d second))
     (f64_div (f64_of_int (d - go_div d second * second)) (f64_of_int 1000000000))"

end
