(* ===== verification/NetMonitor.thy ===== *)
theory NetMonitor
  imports Resources FloatRound
begin

text \<open>
  The network monitor of \<open>internal/server/network_monitor.go\<close>: counters of connection attempts, a check every ten seconds and
  alerts with a cooldown.  An alert is handed to every handler in a goroutine of its own; the model records it with the instant
  at which the cooldown was tested.  Handlers are known by a number.
\<close>

section \<open>State\<close>

record NetworkAlert =
  na_Level :: AlertLevel
  na_Type :: string
  na_Message :: string
  na_Timestamp :: time
  na_Metadata :: "(string \<times> fval) list"

record NetworkMonitor =
  nm_maxConnectionsPerSecond :: int
  nm_maxFailedConnectionsRate :: f64
  nm_maxPortScanAttemptsPerMin :: int
  nm_connectionAttempts :: u64
  nm_failedConnections :: u64
  nm_portScanAttempts :: u64
  nm_lastAlertTime :: time
  nm_alertCooldown :: duration
  nm_alertHandlers :: "nat list"
  nm_cancelled :: bool

record SentAlert =
  sent_at :: time
  sent_alert :: NetworkAlert
  sent_to :: "nat list"

definition NewNetworkMonitor :: NetworkMonitor where
  "NewNetworkMonitor = \<lparr> nm_maxConnectionsPerSecond = 1000, nm_maxFailedConnectionsRate = f64_0_5, nm_maxPortScanAttemptsPerMin = 100,
     nm_connectionAttempts = 0, nm_failedConnections = 0, nm_portScanAttempts = 0, nm_lastAlertTime = 0, nm_alertCooldown = 5 * minute,
     nm_alertHandlers = [], nm_cancelled = False \<rparr>"

section \<open>Operations\<close>

text \<open>The level with which \<open>LogAlertHandler\<close> logs an alert (\<open>slog.LevelInfo\<close>, \<open>LevelWarn\<close> and \<open>LevelError\<close>).\<close>

fun log_level :: "AlertLevel \<Rightarrow> int" where
  "log_level AlertLevelInfo = 0"
| "log_level AlertLevelWarning = 4"
| "log_level AlertLevelCritical = 8"

definition nm_AddAlertHandler :: "nat \<Rightarrow> NetworkMonitor \<Rightarrow> NetworkMonitor" where
  "nm_AddAlertHandler h m = m\<lparr> nm_alertHandlers := nm_alertHandlers m @ [h] \<rparr>"

definition RecordConnectionAttempt :: "bool \<Rightarrow> NetworkMonitor \<Rightarrow> NetworkMonitor" where
  "RecordConnectionAttempt success m =
    (let m = m\<lparr> nm_connectionAttempts := nm_connectionAttempts m + 1 \<rparr> in
     if \<not> success then m\<lparr> nm_failedConnections := nm_failedConnections m + 1 \<rparr> else m)"

definition RecordPortScanAttempt :: "NetworkMonitor \<Rightarrow> NetworkMonitor" where
  "RecordPortScanAttempt m = m\<lparr> nm_portScanAttempts := nm_portScanAttempts m + 1 \<rparr>"

definition SetThresholds :: "int \<Rightarrow> f64 \<Rightarrow> int \<Rightarrow> NetworkMonitor \<Rightarrow> NetworkMonitor" where
  "SetThresholds c r p m = m\<lparr> nm_maxConnectionsPerSecond := c, nm_maxFailedConnectionsRate := r, nm_maxPortScanAttemptsPerMin := p \<rparr>"

definition nm_Stop :: "NetworkMonitor \<Rightarrow> NetworkMonitor" where
  "nm_Stop m = m\<lparr> nm_cancelled := True \<rparr>"

definition nm_triggerAlert :: "time \<Rightarrow> NetworkAlert \<Rightarrow> NetworkMonitor \<times> SentAlert list \<Rightarrow> NetworkMonitor \<times> SentAlert list" where
  "nm_triggerAlert t alert ms = (case ms of (m, out) \<Rightarrow>
     if time_sub t (nm_lastAlertTime m) < nm_alertCooldown m then (m, out)
     else (m\<lparr> nm_lastAlertTime := na_Timestamp alert \<rparr>,
           out @ [\<lparr> sent_at = t, sent_alert = alert, sent_to = nm_alertHandlers m \<rparr>]))"

text \<open>The number of events since the last check, per minute: a \<open>uint64\<close>, read as an \<open>int64\<close> in two of the comparisons.\<close>

definition per_minute :: "u64 \<Rightarrow> u64 \<Rightarrow> u64" where
  "per_minute current before = (current - before) * 6"

definition rate_alert :: "time \<Rightarrow> u64 \<Rightarrow> int \<Rightarrow> NetworkAlert" where
  "rate_alert now r threshold = \<lparr> na_Level = AlertLevelWarning, na_Type = ''high_connection_rate'',
     na_Message = ''High connection rate detected: '' @ show_nat (unat r) @ '' connections/min'', na_Timestamp = now,
     na_Metadata = [(''connections_per_minute'', VInt (uint r)), (''threshold'', VInt threshold)] \<rparr>"

definition failure_alert :: "time \<Rightarrow> f64 \<Rightarrow> u64 \<Rightarrow> u64 \<Rightarrow> f64 \<Rightarrow> NetworkAlert" where
  "failure_alert now rate failed every threshold = \<lparr> na_Level = AlertLevelCritical, na_Type = ''high_failure_rate'',
     na_Message = ''High connection failure rate: '' @ fmt_fixed 2 (f64_mul rate (Fin 100)) @ ''%'', na_Timestamp = now,
     na_Metadata = [(''failure_rate'', VFloat rate), (''failed_per_min'', VInt (uint failed)), (''total_per_min'', VInt (uint every)),
       (''threshold'', VFloat threshold)] \<rparr>"

definition scan_alert :: "time \<Rightarrow> u64 \<Rightarrow> int \<Rightarrow> NetworkAlert" where
  "scan_alert now r threshold = \<lparr> na_Level = AlertLevelCritical, na_Type = ''port_scanning_detected'',
     na_Message = ''High port scanning activity: '' @ show_nat (unat r) @ '' attempts/min'', na_Timestamp = now,
     na_Metadata = [(''port_scans_per_minute'', VInt (uint r)), (''threshold'', VInt threshold)] \<rparr>"

text \<open>\<open>checkMetrics\<close> with the values seen by the last check; it returns the new ones, the monitor and the alerts sent.\<close>

definition checkMetrics :: "(nat \<Rightarrow> time) \<Rightarrow> u64 \<times> u64 \<times> u64 \<Rightarrow> NetworkMonitor \<Rightarrow>
    (u64 \<times> u64 \<times> u64) \<times> NetworkMonitor \<times> SentAlert list" where
  "checkMetrics now seen m = (case seen of (lc, lf, lp) \<Rightarrow>
     let c = nm_connectionAttempts m; f = nm_failedConnections m; p = nm_portScanAttempts m;
         connRate = per_minute c lc; failedRate = per_minute f lf; scanRate = per_minute p lp;
         limit = wrap64 (nm_maxConnectionsPerSecond m * 60);
         st = (m, []);
         st = (if sint connRate > limit then nm_triggerAlert (now 1) (rate_alert (now 0) connRate limit) st else st);
         rate = f64_div (f64_of_int (uint failedRate)) (f64_of_int (uint connRate));
         st = (if c > lc \<and> f64_gt rate (nm_maxFailedConnectionsRate m)
               then nm_triggerAlert (now 2) (failure_alert (now 0) rate failedRate connRate (nm_maxFailedConnectionsRate m)) st else st);
         st = (if sint scanRate > nm_maxPortScanAttemptsPerMin m
               then nm_triggerAlert (now 3) (scan_alert (now 0) scanRate (nm_maxPortScanAttemptsPerMin m)) st else st)
     in ((c, f, p), st))"

record NetworkMetrics =
  nmm_connection_attempts :: u64
  nmm_failed_connections :: u64
  nmm_port_scan_attempts :: u64
  nmm_max_connections_per_second :: int
  nmm_max_failed_connections_rate :: f64
  nmm_max_port_scan_attempts_per_min :: int
  nmm_alert_cooldown_seconds :: f64
  nmm_last_alert_time :: time

definition nm_GetMetrics :: "NetworkMonitor \<Rightarrow> NetworkMetrics" where
  "nm_GetMetrics m = \<lparr> nmm_connection_attempts = nm_connectionAttempts m, nmm_failed_connections = nm_failedConnections m,
     nmm_port_scan_attempts = nm_portScanAttempts m, nmm_max_connections_per_second = nm_maxConnectionsPerSecond m,
     nmm_max_failed_connections_rate = nm_maxFailedConnectionsRate m, nmm_max_port_scan_attempts_per_min = nm_maxPortScanAttemptsPerMin m,
     nmm_alert_cooldown_seconds = duration_Seconds (nm_alertCooldown m), nmm_last_alert_time = nm_lastAlertTime m \<rparr>"

section \<open>The monitoring loop\<close>

text \<open>
  Events of a running monitor.  Besides the monitor and the variables of \<open>monitoringLoop\<close> the state holds what happened: the
  attempts, failures and scans since the last check and every alert with these numbers at the time it was sent.
\<close>

datatype nm_event = Attempt bool | Scan | Handler nat | Tick "nat \<Rightarrow> time"

record nm_state =
  ns_mon :: NetworkMonitor
  ns_last :: "u64 \<times> u64 \<times> u64"
  ns_attempts :: nat
  ns_failed :: nat
  ns_scans :: nat
  ns_log :: "(SentAlert \<times> nat \<times> nat \<times> nat) list"

fun nm_step :: "nm_event \<Rightarrow> nm_state \<Rightarrow> nm_state" where
  "nm_step (Attempt ok) s = s\<lparr> ns_mon := RecordConnectionAttempt ok (ns_mon s), ns_attempts := ns_attempts s + 1,
     ns_failed := ns_failed s + (if ok then 0 else 1) \<rparr>"
| "nm_step Scan s = s\<lparr> ns_mon := RecordPortScanAttempt (ns_mon s), ns_scans := ns_scans s + 1 \<rparr>"
| "nm_step (Handler h) s = s\<lparr> ns_mon := nm_AddAlertHandler h (ns_mon s) \<rparr>"
| "nm_step (Tick now) s = (case checkMetrics now (ns_last s) (ns_mon s) of (seen, m, out) \<Rightarrow>
     s\<lparr> ns_mon := m, ns_last := seen, ns_attempts := 0, ns_failed := 0, ns_scans := 0,
        ns_log := ns_log s @ map (\<lambda>a. (a, ns_attempts s, ns_failed s, ns_scans s)) out \<rparr>)"

definition nm_start :: nm_state where
  "nm_start = \<lparr> ns_mon = NewNetworkMonitor, ns_last = (0, 0, 0), ns_attempts = 0, ns_failed = 0, ns_scans = 0, ns_log = [] \<rparr>"

text \<open>Fewer than \<open>2 ^ 49\<close> events between two checks: six times as many are exact as an \<open>int64\<close> and as a \<open>float64\<close>.\<close>

definition nm_ok :: "nm_event \<Rightarrow> nm_state \<Rightarrow> bool" where
  "nm_ok e s \<longleftrightarrow> ns_attempts s < 2 ^ 49 \<and> ns_scans s < 2 ^ 49"

section \<open>Invariant\<close>

definition counts_ok :: "nm_state \<Rightarrow> bool" where
  "counts_ok s \<longleftrightarrow> (case ns_last s of (lc, lf, lp) \<Rightarrow>
     nm_connectionAttempts (ns_mon s) - lc = of_nat (ns_attempts s) \<and> nm_failedConnections (ns_mon s) - lf = of_nat (ns_failed s) \<and>
     nm_portScanAttempts (ns_mon s) - lp = of_nat (ns_scans s)) \<and> ns_failed s \<le> ns_attempts s"

definition settings_ok :: "nm_state \<Rightarrow> bool" where
  "settings_ok s \<longleftrightarrow> nm_maxConnectionsPerSecond (ns_mon s) = 1000 \<and> nm_maxFailedConnectionsRate (ns_mon s) = f64_0_5 \<and>
     nm_maxPortScanAttemptsPerMin (ns_mon s) = 100 \<and> nm_alertCooldown (ns_mon s) = 5 * minute"

text \<open>An alert is justified by what happened since the check before.\<close>

definition justified :: "SentAlert \<times> nat \<times> nat \<times> nat \<Rightarrow> bool" where
  "justified e = (case e of (a, attempts, failed, scans) \<Rightarrow>
     na_Type (sent_alert a) = ''high_connection_rate'' \<and> 10000 < attempts \<or>
     na_Type (sent_alert a) = ''high_failure_rate'' \<and> attempts < 2 * failed \<or>
     na_Type (sent_alert a) = ''port_scanning_detected'' \<and> 16 < scans)"

definition spaced :: "(SentAlert \<times> 'a) list \<Rightarrow> bool" where
  "spaced = successively (\<lambda>x y. sent_at (fst y) - na_Timestamp (sent_alert (fst x)) \<ge> 5 * minute)"

definition log_ok :: "nm_state \<Rightarrow> bool" where
  "log_ok s \<longleftrightarrow> spaced (ns_log s) \<and> list_all justified (ns_log s) \<and>
     (ns_log s \<noteq> [] \<longrightarrow> nm_lastAlertTime (ns_mon s) = na_Timestamp (sent_alert (fst (last (ns_log s)))))"

section \<open>Preservation\<close>

lemma trigger_keeps [simp]:
  "nm_connectionAttempts (fst (nm_triggerAlert t a st)) = nm_connectionAttempts (fst st)"
  "nm_failedConnections (fst (nm_triggerAlert t a st)) = nm_failedConnections (fst st)"
  "nm_portScanAttempts (fst (nm_triggerAlert t a st)) = nm_portScanAttempts (fst st)"
  "nm_maxConnectionsPerSecond (fst (nm_triggerAlert t a st)) = nm_maxConnectionsPerSecond (fst st)"
  "nm_maxFailedConnectionsRate (fst (nm_triggerAlert t a st)) = nm_maxFailedConnectionsRate (fst st)"
  "nm_maxPortScanAttemptsPerMin (fst (nm_triggerAlert t a st)) = nm_maxPortScanAttemptsPerMin (fst st)"
  "nm_alertCooldown (fst (nm_triggerAlert t a st)) = nm_alertCooldown (fst st)"
  by (simp_all add: nm_triggerAlert_def split: prod.split)

text \<open>The log with the alerts of a check that is under way.\<close>

definition with_alerts :: "nm_state \<Rightarrow> NetworkMonitor \<times> SentAlert list \<Rightarrow> nm_state" where
  "with_alerts s st = s\<lparr> ns_mon := fst st, ns_log := ns_log s @ map (\<lambda>a. (a, ns_attempts s, ns_failed s, ns_scans s)) (snd st) \<rparr>"

lemma log_snoc:
  assumes "log_ok s" "justified e" "sent_at (fst e) - nm_lastAlertTime (ns_mon s) \<ge> 5 * minute"
    and "nm_lastAlertTime m = na_Timestamp (sent_alert (fst e))"
  shows "log_ok (s\<lparr> ns_mon := m, ns_log := ns_log s @ [e] \<rparr>)"
  using assms by (auto simp: log_ok_def spaced_def successively_append_iff)

lemma trigger_log:
  assumes "log_ok (with_alerts s st)" "nm_alertCooldown (fst st) = 5 * minute"
    and "\<And>to. justified (\<lparr> sent_at = t, sent_alert = alert, sent_to = to \<rparr>, ns_attempts s, ns_failed s, ns_scans s)"
  shows "log_ok (with_alerts s (nm_triggerAlert t alert st))"
proof (cases "time_sub t (nm_lastAlertTime (fst st)) < nm_alertCooldown (fst st)")
  case True
  then show ?thesis using assms(1) by (cases st) (simp add: nm_triggerAlert_def)
next
  case False
  let ?e = "(\<lparr> sent_at = t, sent_alert = alert, sent_to = nm_alertHandlers (fst st) \<rparr>, ns_attempts s, ns_failed s, ns_scans s)"
  have "with_alerts s (nm_triggerAlert t alert st) =
      (with_alerts s st)\<lparr> ns_mon := (fst st)\<lparr> nm_lastAlertTime := na_Timestamp alert \<rparr>, ns_log := ns_log (with_alerts s st) @ [?e] \<rparr>"
    using False by (cases st) (simp add: nm_triggerAlert_def with_alerts_def)
  moreover have "t - nm_lastAlertTime (fst st) \<ge> 5 * minute" using False assms(2) by (simp add: time_sub_less minute_def)
  ultimately show ?thesis using log_snoc [OF assms(1) assms(3)] by (simp add: with_alerts_def)
qed

lemma six_times:
  assumes "c - lc = (of_nat n :: u64)" "n < 2 ^ 49"
  shows "uint (per_minute c lc) = 6 * int n" "sint (per_minute c lc) = 6 * int n"
proof -
  have e: "per_minute c lc = of_nat (6 * n)" using assms(1) by (simp add: per_minute_def mult.commute)
  have b: "6 * n < 2 ^ 63" using assms(2) by simp
  have "unat (of_nat k :: u64) = k" if "k < 2 ^ 64" for k
    using that by (simp add: unsigned_of_nat take_bit_nat_eq_self)
  then have "unat (of_nat (6 * n) :: u64) = 6 * n" using b by (simp del: of_nat_mult)
  then have "uint (per_minute c lc) = int (6 * n)" unfolding e by (metis uint_nat)
  then show u: "uint (per_minute c lc) = 6 * int n" by simp
  have "int (6 * n) < 2 ^ 63" using b by (metis of_nat_less_iff of_nat_numeral of_nat_power)
  then show "sint (per_minute c lc) = 6 * int n"
    using u by (simp add: sint_uint signed_take_bit_int_eq_self)
qed

text \<open>A check as three guarded alerts.\<close>

lemma log_check:
  assumes "counts_ok s" "settings_ok s" "log_ok s" "nm_ok (Tick now) s" "checkMetrics now (ns_last s) (ns_mon s) = (seen, st)"
  shows "log_ok (with_alerts s st)" "settings_ok (with_alerts s st)" "seen = (nm_connectionAttempts (fst st), nm_failedConnections (fst st), nm_portScanAttempts (fst st))"
proof -
  obtain lc lf lp where l: "ns_last s = (lc, lf, lp)" by (cases "ns_last s")
  let ?m = "ns_mon s"
  let ?a = "per_minute (nm_connectionAttempts ?m) lc" and ?f = "per_minute (nm_failedConnections ?m) lf" and ?p = "per_minute (nm_portScanAttempts ?m) lp"
  have c: "nm_connectionAttempts ?m - lc = of_nat (ns_attempts s)" "nm_failedConnections ?m - lf = of_nat (ns_failed s)"
      "nm_portScanAttempts ?m - lp = of_nat (ns_scans s)" "ns_failed s \<le> ns_attempts s"
    using assms(1) l by (simp_all add: counts_ok_def)
  have b: "ns_attempts s < 2 ^ 49" "ns_scans s < 2 ^ 49" "ns_failed s < 2 ^ 49"
    using assms(4) c(4) by (simp_all add: nm_ok_def)
  have set: "nm_maxConnectionsPerSecond ?m = 1000" "nm_maxFailedConnectionsRate ?m = f64_0_5" "nm_maxPortScanAttemptsPerMin ?m = 100"
      "nm_alertCooldown ?m = 5 * minute"
    using assms(2) by (simp_all add: settings_ok_def)
  have w: "wrap64 (nm_maxConnectionsPerSecond ?m * 60) = 60000" by (simp add: set wrap64_def)
  note six = six_times [OF c(1) b(1)] six_times [OF c(2) b(3)] six_times [OF c(3) b(2)]
  define r where "r = f64_div (f64_of_int (uint ?f)) (f64_of_int (uint ?a))"
  define s1 where "s1 = (if sint ?a > 60000 then nm_triggerAlert (now 1) (rate_alert (now 0) ?a 60000) (?m, []) else (?m, []))"
  define s2 where "s2 = (if nm_connectionAttempts ?m > lc \<and> f64_gt r (f64_0_5)
      then nm_triggerAlert (now 2) (failure_alert (now 0) r ?f ?a (f64_0_5)) s1 else s1)"
  have st: "st = (if sint ?p > 100 then nm_triggerAlert (now 3) (scan_alert (now 0) ?p 100) s2 else s2)"
      "seen = (nm_connectionAttempts ?m, nm_failedConnections ?m, nm_portScanAttempts ?m)"
    using assms(5) unfolding checkMetrics_def l prod.case Let_def set(2,3) w s1_def s2_def r_def by (simp_all split: prod.splits)
  have "with_alerts s (?m, []) = s" by (simp add: with_alerts_def)
  then have "log_ok (with_alerts s s1)" unfolding s1_def using assms(3) six(2) set(4)
    by (auto intro!: trigger_log simp: justified_def rate_alert_def)
  moreover have "nm_alertCooldown (fst s1) = 5 * minute" using set(4) by (simp add: s1_def)
  moreover have "ns_attempts s < 2 * ns_failed s" if "nm_connectionAttempts ?m > lc" "f64_gt r f64_0_5"
  proof -
    have "0 < ns_attempts s" using that(1) c(1) by (cases "ns_attempts s") auto
    then show ?thesis using that(2) b c(4) ratio_gt_half [of "6 * int (ns_attempts s)" "6 * int (ns_failed s)"] by (simp add: r_def six)
  qed
  ultimately have "log_ok (with_alerts s s2)" unfolding s2_def
    by (auto intro!: trigger_log simp: justified_def failure_alert_def)
  moreover have "nm_alertCooldown (fst s2) = 5 * minute" using set(4) by (simp add: s2_def s1_def)
  ultimately show "log_ok (with_alerts s st)" unfolding st(1) using six(6)
    by (auto intro!: trigger_log simp: justified_def scan_alert_def)
  show "settings_ok (with_alerts s st)" "seen = (nm_connectionAttempts (fst st), nm_failedConnections (fst st), nm_portScanAttempts (fst st))"
    using assms(2) st(2) unfolding st(1) by (simp_all add: settings_ok_def with_alerts_def s2_def s1_def)
qed

definition nm_inv :: "nm_state \<Rightarrow> bool" where
  "nm_inv s \<longleftrightarrow> counts_ok s \<and> settings_ok s \<and> log_ok s"

lemma nm_inv_tick:
  assumes "nm_inv s" "nm_ok (Tick now) s"
  shows "nm_inv (nm_step (Tick now) s)"
proof -
  obtain seen st where c: "checkMetrics now (ns_last s) (ns_mon s) = (seen, st)"
    by (cases "checkMetrics now (ns_last s) (ns_mon s)") blast
  have "nm_step (Tick now) s = (with_alerts s st)\<lparr> ns_last := seen, ns_attempts := 0, ns_failed := 0, ns_scans := 0 \<rparr>"
    by (simp add: c with_alerts_def split: prod.split)
  then show ?thesis using log_check [OF _ _ _ assms(2) c] assms(1)
    by (simp add: nm_inv_def counts_ok_def settings_ok_def log_ok_def with_alerts_def)
qed

interpretation network: machine nm_step nm_ok nm_inv
proof
  fix s e assume "nm_inv s" "nm_ok e s"
  then show "nm_inv (nm_step e s)"
  proof (cases e)
    case (Tick now)
    then show ?thesis using \<open>nm_inv s\<close> \<open>nm_ok e s\<close> nm_inv_tick by blast
  qed (auto simp: nm_inv_def counts_ok_def settings_ok_def log_ok_def RecordConnectionAttempt_def RecordPortScanAttempt_def
      nm_AddAlertHandler_def algebra_simps split: prod.splits)
qed

lemma nm_inv_start: "nm_inv nm_start"
  by (simp add: nm_inv_def counts_ok_def settings_ok_def log_ok_def nm_start_def NewNetworkMonitor_def spaced_def)

text \<open>Within the cooldown a warning keeps the critical alerts of the same check from being sent.\<close>

lemma warning_hides_critical:
  assumes "sint (per_minute (nm_connectionAttempts m) lc) > wrap64 (nm_maxConnectionsPerSecond m * 60)"
    and "time_sub (now 1) (nm_lastAlertTime m) \<ge> nm_alertCooldown m"
    and "time_sub (now 2) (now 0) < nm_alertCooldown m" "time_sub (now 3) (now 0) < nm_alertCooldown m"
  shows "map (na_Type \<circ> sent_alert) (snd (snd (checkMetrics now (lc, lf, lp) m))) = [''high_connection_rate'']"
  using assms by (simp add: checkMetrics_def nm_triggerAlert_def rate_alert_def Let_def)

text \<open>
  C34: in every run of the monitor each alert is justified by what happened since the check before it (more than ten
  thousand attempts, a failure rate above one half, more than sixteen port scans) and is sent at least five minutes after the time
  stamp of the alert before it.
\<close>

theorem alerts_justified:
  assumes "legal nm_ok nm_step es nm_start"
  shows "spaced (ns_log (run nm_step es nm_start)) \<and> list_all justified (ns_log (run nm_step es nm_start))"
  using network.inv_run [OF nm_inv_start assms] by (simp add: nm_inv_def log_ok_def)

definition scan_events :: "nm_event list" where
  "scan_events = [Handler 1, Scan, Scan, Scan, Scan, Scan, Scan, Scan, Scan, Scan, Scan, Scan, Scan, Scan, Scan, Scan, Scan, Scan,
     Tick (\<lambda>k. 1000000000000 + int k)]"

theorem alerts_justified_witness:
  "\<exists>e. ns_log (run nm_step scan_events nm_start) = [e] \<and> na_Type (sent_alert (fst e)) = ''port_scanning_detected'' \<and> justified e"
proof -
  obtain e where "ns_log (run nm_step scan_events nm_start) = [e]" "na_Type (sent_alert (fst e)) = ''port_scanning_detected''"
    by (simp add: scan_events_def nm_start_def NewNetworkMonitor_def nm_AddAlertHandler_def RecordPortScanAttempt_def checkMetrics_def per_minute_def
        nm_triggerAlert_def scan_alert_def minute_def time_sub_def wrap64_def Let_def)
  moreover have "legal nm_ok nm_step scan_events nm_start"
    by (simp add: scan_events_def nm_start_def nm_ok_def)
  ultimately show ?thesis using alerts_justified [of scan_events] by auto
qed

end
