(* ===== verification/VersionHandler.thy ===== *)
theory VersionHandler
  imports Handler
begin

text \<open>
  \<open>internal/server/version_handler.go\<close>: the version handler with its usage counters and the connection handler that checks the
  version of every frame before it delegates to \<open>processFrame\<close>.  A frame pointer that may be nil is an option.
\<close>

section \<open>Usage statistics\<close>

record VersionStats =
  st_version_counts :: "u8 \<rightharpoonup> int"
  st_deprecated_usage :: int
  st_unsupported_attempts :: int
  st_version_percentages :: "(u8 \<rightharpoonup> f64) option"

definition all_versions :: "u8 list" where
  "all_versions = map of_nat [0..<256]"

definition VersionMetrics_GetStats :: "VersionMetrics \<Rightarrow> VersionStats" where
  "VersionMetrics_GetStats vm =
    (let every = wrap64 (sum_list (map (version_count vm) all_versions)) in
     \<lparr> st_version_counts = VersionCounts vm, st_deprecated_usage = DeprecatedUsage vm, st_unsupported_attempts = UnsupportedAttempts vm,
       st_version_percentages = (if every > 0
         then Some (\<lambda>v. map_option (\<lambda>n. f64_mul (f64_div (f64_of_int n) (f64_of_int every)) (Fin 100)) (VersionCounts vm v)) else None) \<rparr>)"

section \<open>Version handler\<close>

record VersionHandler =
  supportedVersions :: "u8 \<Rightarrow> bool"
  vh_metrics :: VersionMetrics

definition NewVersionHandler :: VersionHandler where
  "NewVersionHandler = \<lparr> supportedVersions = (\<lambda>v. SupportedVersions v \<noteq> None), vh_metrics = NewVersionMetrics \<rparr>"

definition vh_IsVersionSupported :: "VersionHandler \<Rightarrow> u8 \<Rightarrow> bool" where
  "vh_IsVersionSupported vh v = supportedVersions vh v"

definition ValidateFrameVersion :: "time \<Rightarrow> Frame option \<Rightarrow> VersionHandler \<Rightarrow> go_error option \<times> VersionHandler" where
  "ValidateFrameVersion now frame vh = (case frame of
     None \<Rightarrow> (Some (Errorf ''frame is nil''), vh)
   | Some f \<Rightarrow> (ValidateVersion now (Version f),
       vh\<lparr> vh_metrics := (if vh_IsVersionSupported vh (Version f)
         then RecordVersionUsage SupportedVersions (Version f) (vh_metrics vh) else RecordUnsupportedVersion (vh_metrics vh)) \<rparr>))"

definition GetVersionCapabilities :: "u8 \<Rightarrow> go_error + VersionFeatures" where
  "GetVersionCapabilities v = GetVersionFeatures v"

definition isMessageTypeSupported :: "u8 \<Rightarrow> VersionFeatures \<Rightarrow> bool" where
  "isMessageTypeSupported t c =
    (if t = MessageTypeAuth then Authentication c
     else if t = MessageTypeSubscribe then SubscriptionF c
     else if t = MessageTypeHeartbeat then Heartbeat c
     else if t = MessageTypeDataBatch then DataBatchF c
     else if t = MessageTypeError then ErrorReporting c
     else if t = MessageTypeACK then ErrorReporting c
     else if t = MessageTypePong then Heartbeat c
     else False)"

text \<open>The message handler works on a state of its own and may panic.\<close>

definition HandleVersionSpecificMessage ::
    "time \<Rightarrow> Frame option \<Rightarrow> (Frame \<Rightarrow> 's \<Rightarrow> (go_error option \<times> 's) outcome) \<Rightarrow> 's \<Rightarrow> VersionHandler \<Rightarrow> (go_error option \<times> 's) outcome \<times> VersionHandler" where
  "HandleVersionSpecificMessage now frame handle s vh = (case ValidateFrameVersion now frame vh of
     (Some err, vh) \<Rightarrow> (Ret (Some (Wrapf ''version validation failed'' err), s), vh)
   | (None, vh) \<Rightarrow> (case frame of
       None \<Rightarrow> (Panic, vh)
     | Some f \<Rightarrow> (case GetVersionCapabilities (Version f) of
         Inl err \<Rightarrow> (Ret (Some (Wrapf ''failed to get version capabilities'' err), s), vh)
       | Inr capabilities \<Rightarrow>
         if \<not> isMessageTypeSupported (Type f) capabilities
         then (Ret (Some (Errorf (''message type '' @ show_nat (unat (Type f)) @ '' not supported in version 0x'' @ hex2 (Version f))), s), vh)
         else (handle f s, vh))))"

definition CreateVersionSpecificErrorResponse :: "time \<Rightarrow> u8 \<Rightarrow> int \<Rightarrow> string \<Rightarrow> go_error + ErrorResponse" where
  "CreateVersionSpecificErrorResponse now clientVersion code message = (case GetVersionCapabilities clientVersion of
     Inl err \<Rightarrow> Inl err
   | Inr capabilities \<Rightarrow>
     if \<not> ErrorReporting capabilities then Inl (Errorf (''error reporting not supported in version 0x'' @ hex2 clientVersion))
     else Inr \<lparr> err_Code = code, err_Message = message,
       err_Details = (if InputValidation capabilities then ''Version 0x'' @ hex2 clientVersion @ '' error: '' @ message else []),
       err_TimestampMs = unix_milli now \<rparr>)"

definition NegotiateVersion :: "u8 \<Rightarrow> go_error + u8" where
  "NegotiateVersion v = GetVersionNegotiationResponse v"

definition GetVersionMetrics :: "VersionHandler \<Rightarrow> VersionStats" where
  "GetVersionMetrics vh = VersionMetrics_GetStats (vh_metrics vh)"

section \<open>Version-aware connection handler\<close>

text \<open>The version handler is the global one; the state holds it next to the connection handler.\<close>

record VersionAwareConnectionHandler =
  va_base :: ConnectionHandler
  va_versions :: VersionHandler
  clientVersion :: u8

text \<open>
  The embedded handler is created with nothing but its connection: no configuration, no logger, no timers.  Its nil data channel,
  which \<open>processFrame\<close> never touches, is an empty channel without room.
\<close>

definition bare_handler :: "Connection \<Rightarrow> ConnectionHandler" where
  "bare_handler conn = \<lparr> h_conn = conn, h_config = None, lastHeartbeat = 0, heartbeatTimer = None, h_cancelled = False, h_authenticated = False,
     pendingBatch = [], dataChan = make_chan 0, batchTimer = None, has_logger = False, subscriptionTimer = None, h_server = None,
     h_timers = [], generators = [] \<rparr>"

definition NewVersionAwareConnectionHandler :: "VersionHandler \<Rightarrow> Connection \<Rightarrow> VersionAwareConnectionHandler" where
  "NewVersionAwareConnectionHandler global conn = \<lparr> va_base = bare_handler conn, va_versions = global, clientVersion = CurrentProtocolVersion \<rparr>"

definition SetClientVersion :: "u8 \<Rightarrow> VersionAwareConnectionHandler \<Rightarrow> VersionAwareConnectionHandler" where
  "SetClientVersion v vh = vh\<lparr> clientVersion := v \<rparr>"

definition GetClientVersion :: "VersionAwareConnectionHandler \<Rightarrow> u8" where
  "GetClientVersion vh = clientVersion vh"

definition negotiate_first :: "Frame \<Rightarrow> VersionAwareConnectionHandler \<Rightarrow> go_error + VersionAwareConnectionHandler" where
  "negotiate_first f vh =
    (if clientVersion vh = CurrentProtocolVersion \<and> Version f \<noteq> CurrentProtocolVersion then
       (case NegotiateVersion (Version f) of
          Inl err \<Rightarrow> Inl (Wrapf ''version negotiation failed'' err)
        | Inr v \<Rightarrow> Inr (vh\<lparr> clientVersion := v \<rparr>))
     else Inr vh)"

definition ProcessFrameWithVersionCheck ::
    "protobuf \<Rightarrow> fmt_env \<Rightarrow> (nat \<Rightarrow> time) \<Rightarrow> Frame \<Rightarrow> VersionAwareConnectionHandler \<Rightarrow> go_error option outcome \<times> VersionAwareConnectionHandler" where
  "ProcessFrameWithVersionCheck pb fe now f vh = (case negotiate_first f vh of
     Inl err \<Rightarrow> (Ret (Some err), vh)
   | Inr vh \<Rightarrow> (case ValidateFrameVersion (now 0) (Some f) (va_versions vh) of
       (Some err, vs) \<Rightarrow> (Ret (Some err), vh\<lparr> va_versions := vs \<rparr>)
     | (None, vs) \<Rightarrow>
       if \<not> IsVersionCompatible CurrentProtocolVersion (Version f)
       then (Ret (Some (Errorf (''version 0x'' @ hex2 (Version f) @ '' is not compatible with server version 0x'' @
              hex2 CurrentProtocolVersion))), vh\<lparr> va_versions := vs \<rparr>)
       else (case HandleVersionSpecificMessage (now 1) (Some f) (processFrame pb fe (\<lambda>k. now (k + 2))) (va_base vh) vs of
           (Panic, vs) \<Rightarrow> (Panic, vh\<lparr> va_versions := vs \<rparr>)
         | (Ret (err, h), vs) \<Rightarrow> (Ret err, vh\<lparr> va_base := h, va_versions := vs \<rparr>))))"

definition SendVersionSpecificError ::
    "protobuf \<Rightarrow> (nat \<Rightarrow> time) \<Rightarrow> int \<Rightarrow> string \<Rightarrow> VersionAwareConnectionHandler \<Rightarrow> (go_error option \<times> Connection) outcome" where
  "SendVersionSpecificError pb now code message vh = (case CreateVersionSpecificErrorResponse (now 0) (clientVersion vh) code message of
     Inl err \<Rightarrow> Ret (Some err, h_conn (va_base vh))
   | Inr resp \<Rightarrow> SendMessage (marshal_Error pb) (now 1) MessageTypeError resp (h_conn (va_base vh)))"

definition va_GetVersionCapabilities :: "VersionAwareConnectionHandler \<Rightarrow> go_error + VersionFeatures" where
  "va_GetVersionCapabilities vh = GetVersionCapabilities (clientVersion vh)"

section \<open>Properties\<close>

lemma capabilities_v1: "GetVersionCapabilities v = (if v = 1 then Inr v1_features else Inl (Errorf (''unsupported version: 0x'' @ hex2 v)))"
  by (simp add: GetVersionCapabilities_def GetVersionFeatures_in_def GetVersion_in_def SupportedVersions_iff v1_def)

lemma supported_types: "isMessageTypeSupported t v1_features \<longleftrightarrow> known_type t"
  by (auto simp: isMessageTypeSupported_def known_type_def v1_features_def)

lemma negotiated: "negotiate_first f vh = (if clientVersion vh = 1 \<and> Version f \<noteq> 1
    then Inl (Wrapf ''version negotiation failed'' (Errorf (''no compatible version found for client version 0x'' @ hex2 (Version f)))) else Inr vh)"
  by (simp add: negotiate_first_def NegotiateVersion_def GetVersionNegotiationResponse_in_def IsVersionSupported_in_def SupportedVersions_iff
      CurrentProtocolVersion_def Let_def)

lemma compatible_v1: "IsVersionCompatible CurrentProtocolVersion 1"
  by (simp add: IsVersionCompatible_in_def DefaultCompatibilityMatrix_def CurrentProtocolVersion_def)

text \<open>The path of a frame of the current version.\<close>

definition counted_use :: "VersionHandler \<Rightarrow> VersionHandler" where
  "counted_use vh = vh\<lparr> vh_metrics := (if supportedVersions vh 1 then RecordVersionUsage SupportedVersions 1 (vh_metrics vh)
     else RecordUnsupportedVersion (vh_metrics vh)) \<rparr>"

lemma validate_v1: "Version f = 1 \<Longrightarrow> ValidateFrameVersion now (Some f) vh = (None, counted_use vh)"
  using ValidateVersion_default [of now "Version f"] by (simp add: ValidateFrameVersion_def counted_use_def vh_IsVersionSupported_def)

lemma handle_v1:
  assumes "Version f = 1"
  shows "HandleVersionSpecificMessage now (Some f) handle s vh = (if known_type (Type f) then handle f s
    else Ret (Some (Errorf (''message type '' @ show_nat (unat (Type f)) @ '' not supported in version 0x'' @ hex2 1)), s), counted_use vh)"
  by (simp add: HandleVersionSpecificMessage_def validate_v1 [OF assms] capabilities_v1 supported_types assms)

lemma process_v1:
  assumes "Version f = 1"
  shows "ProcessFrameWithVersionCheck pb fe now f vh =
    (case (if known_type (Type f) then processFrame pb fe (\<lambda>k. now (k + 2)) f (va_base vh)
        else Ret (Some (Errorf (''message type '' @ show_nat (unat (Type f)) @ '' not supported in version 0x'' @ hex2 1)), va_base vh)) of
       Panic \<Rightarrow> (Panic, vh\<lparr> va_versions := counted_use (counted_use (va_versions vh)) \<rparr>)
     | Ret (err, h) \<Rightarrow> (Ret err, vh\<lparr> va_base := h, va_versions := counted_use (counted_use (va_versions vh)) \<rparr>))"
  unfolding ProcessFrameWithVersionCheck_def negotiated assms sum.case validate_v1 [OF assms] handle_v1 [OF assms] prod.case option.case
  using compatible_v1 by (simp split: outcome.split)

text \<open>Every frame of the current version is counted twice.\<close>

lemma counted_twice:
  assumes "Version f = 1" "supportedVersions (va_versions vh) 1"
  shows "vh_metrics (va_versions (snd (ProcessFrameWithVersionCheck pb fe now f vh))) =
    RecordVersionUsage SupportedVersions 1 (RecordVersionUsage SupportedVersions 1 (vh_metrics (va_versions vh)))"
  using assms(2) unfolding process_v1 [OF assms(1)] by (auto simp: counted_use_def split: outcome.split prod.split)

text \<open>The bare handler has no logger: every heartbeat makes it panic.\<close>

lemma bare_handler_panics:
  assumes "Version f = 1" "Type f = MessageTypeHeartbeat"
  shows "fst (ProcessFrameWithVersionCheck pb fe now f (NewVersionAwareConnectionHandler vh conn)) = Panic"
proof -
  have "ValidateMessageType MessageTypeHeartbeat = None" by (simp add: ValidateMessageType_def message_types)
  then have "processFrame pb fe (\<lambda>k. now (k + 2)) f (bare_handler conn) = Panic"
    using assms by (simp add: processFrame_def handleHeartbeat_def bare_handler_def logged_def split: sum.split option.split)
  then show ?thesis unfolding process_v1 [OF assms(1)] using assms(2) by (simp add: NewVersionAwareConnectionHandler_def known_type_def)
qed

text \<open>
  C35: the version-aware handler passes a frame to \<open>processFrame\<close>, and reports its result, exactly when the frame has the
  current version and a known message type; every other frame is answered with an error and leaves the connection handler as it
  was.  The negotiated version never changes.
\<close>

theorem version_gate:
  "(if Version f = CurrentProtocolVersion \<and> known_type (Type f)
    then (case processFrame pb fe (\<lambda>k. now (k + 2)) f (va_base vh) of
       Panic \<Rightarrow> fst (ProcessFrameWithVersionCheck pb fe now f vh) = Panic
     | Ret (e, h) \<Rightarrow> fst (ProcessFrameWithVersionCheck pb fe now f vh) = Ret e \<and> va_base (snd (ProcessFrameWithVersionCheck pb fe now f vh)) = h)
    else \<exists>e. fst (ProcessFrameWithVersionCheck pb fe now f vh) = Ret (Some e) \<and>
       va_base (snd (ProcessFrameWithVersionCheck pb fe now f vh)) = va_base vh) \<and>
   clientVersion (snd (ProcessFrameWithVersionCheck pb fe now f vh)) = clientVersion vh"
proof (cases "Version f = 1")
  case True
  then show ?thesis unfolding process_v1 [OF True] CurrentProtocolVersion_def
    by (cases "known_type (Type f)") (auto split: outcome.split)
next
  case False
  then obtain e where "ValidateVersion (now 0) (Version f) = Some e" using ValidateVersion_default by blast
  then show ?thesis using False
    by (auto simp: ProcessFrameWithVersionCheck_def negotiated ValidateFrameVersion_def CurrentProtocolVersion_def)
qed

end
