(* ===== verification/Instance.thy ===== *)
theory Instance
  imports Server GoConv FloatRound
begin

text \<open>
  \<open>internal/server/instance.go\<close>: the identity of a server instance and its metrics.  The instance id and the start time, which
  the Go server holds next to its other fields, form the record \<open>identity\<close>.  What the runtime and the operating system report
  (memory statistics, goroutines, host name, Go version, platform, random bytes) are arguments.
\<close>

record MemStats =
  mem_Alloc :: u64
  mem_TotalAlloc :: u64
  mem_Sys :: u64
  mem_HeapAlloc :: u64
  mem_StackInuse :: u64
  mem_NumGC :: u32
  mem_PauseTotalNs :: u64
  mem_PauseNs :: "u64 list"

definition bToMb :: "u64 \<Rightarrow> u64" where
  "bToMb b = b div 1024 div 1024"

record platform =
  pf_hostname :: string
  pf_go_version :: string
  pf_GOOS :: string
  pf_GOARCH :: string

record identity =
  instanceID :: string
  startTime :: time

definition hex_string :: "bytes \<Rightarrow> string" where
  "hex_string bs = concat (map (\<lambda>b. [hex_digit (unat b div 16), hex_digit (unat b mod 16)]) bs)"

text \<open>\<open>random\<close> is the outcome of reading eight random bytes.\<close>

definition generateInstanceID :: "environment \<Rightarrow> bytes option \<Rightarrow> time \<Rightarrow> string" where
  "generateInstanceID env random now =
    (if env ''INSTANCE_ID'' \<noteq> [] then env ''INSTANCE_ID''
     else (case random of None \<Rightarrow> ''ts-'' @ show_int (wrap64 (now - unix_epoch)) | Some bs \<Rightarrow> hex_string bs))"

definition GetInstanceID :: "identity \<Rightarrow> string" where
  "GetInstanceID i = instanceID i"

definition server_GetVersion :: "environment \<Rightarrow> string" where
  "server_GetVersion env = (if env ''APP_VERSION'' \<noteq> [] then env ''APP_VERSION'' else ''1.0.0'')"

record InstanceInfo =
  ii_ID :: string
  ii_Hostname :: string
  ii_StartTime :: time
  ii_Version :: string
  ii_GoVersion :: string
  ii_Platform :: string

definition platform_name :: "platform \<Rightarrow> string" where
  "platform_name p = pf_GOOS p @ ''/'' @ pf_GOARCH p"

definition GetInstanceInfo :: "environment \<Rightarrow> platform \<Rightarrow> identity \<Rightarrow> InstanceInfo" where
  "GetInstanceInfo env p i = \<lparr> ii_ID = instanceID i, ii_Hostname = pf_hostname p, ii_StartTime = startTime i,
     ii_Version = server_GetVersion env, ii_GoVersion = pf_go_version p, ii_Platform = platform_name p \<rparr>"

record InstanceMetrics =
  im_instance_id :: string
  im_uptime_seconds :: f64
  im_active_connections :: int
  im_total_connections :: u64
  im_auth :: "u64 \<times> u64 \<times> u64"
  im_memory_alloc_mb :: u64
  im_memory_sys_mb :: u64
  im_goroutines :: int
  im_gc_runs :: u32
  im_version :: string
  im_go_version :: string
  im_platform :: string

definition GetInstanceMetrics :: "environment \<Rightarrow> platform \<Rightarrow> MemStats \<Rightarrow> int \<Rightarrow> time \<Rightarrow> identity \<Rightarrow> Server \<Rightarrow> InstanceMetrics" where
  "GetInstanceMetrics env p m routines now i s = \<lparr> im_instance_id = instanceID i, im_uptime_seconds = duration_Seconds (time_sub now (startTime i)),
     im_active_connections = activeConns s, im_total_connections = totalConns s, im_auth = (authSuccess s, authFailures s, authRateLimited s),
     im_memory_alloc_mb = bToMb (mem_Alloc m), im_memory_sys_mb = bToMb (mem_Sys m), im_goroutines = routines, im_gc_runs = mem_NumGC m,
     im_version = server_GetVersion env, im_go_version = pf_go_version p, im_platform = platform_name p \<rparr>"

end
