(* ===== verification/Health.thy ===== *)
theory Health
  imports Instance
begin

text \<open>
  \<open>internal/server/health.go\<close>: the health checks and the HTTP answers load balancers see.  The server always has a breach handler
  and an authenticator (\<open>NewServer\<close> creates them), so the branches for a server without them do not occur; a server that is not
  closed has a listener exactly when it listens.
\<close>

section \<open>State\<close>

datatype HealthStatus = HealthStatusHealthy | HealthStatusDegraded | HealthStatusUnhealthy

datatype check_details = NoDetails | ServerDetails string duration | ResourceDetails BreachStats | ConnectionDetails int int f64
  | AuthDetails u64 u64 u64

record CheckResult =
  cr_Status :: HealthStatus
  cr_Message :: string
  cr_Details :: check_details

record MemoryUsage =
  AllocMB :: u64
  TotalAllocMB :: u64
  SysMB :: u64
  gc_count :: u32
  routine_count :: int

record HealthCheck =
  hc_Status :: HealthStatus
  hc_Timestamp :: time
  hc_Version :: string
  hc_InstanceID :: string
  hc_Uptime :: duration
  hc_ActiveConnections :: int
  hc_TotalConnections :: u64
  hc_MemoryUsage :: MemoryUsage
  hc_ResourceStatus :: BreachStats
  hc_Checks :: "(string \<times> CheckResult) list"

record HealthChecker =
  checker_start :: time
  checker_version :: string

definition NewHealthChecker :: "environment \<Rightarrow> time \<Rightarrow> HealthChecker" where
  "NewHealthChecker env now = \<lparr> checker_start = now, checker_version = server_GetVersion env \<rparr>"

section \<open>Operations\<close>

abbreviation max_conns :: "Server \<Rightarrow> int" where
  "max_conns s \<equiv> wrap32 (MaxConnections (srv_config s))"

definition conn_usage :: "Server \<Rightarrow> f64" where
  "conn_usage s = f64_div (f64_of_int (activeConns s)) (f64_of_int (max_conns s))"

definition determineOverallStatus :: "Server \<Rightarrow> HealthStatus" where
  "determineOverallStatus s =
    (if srv_closed s then HealthStatusUnhealthy
     else if ShouldRejectConnection (srv_breach s) then HealthStatusDegraded
     else if max_conns s > 0 \<and> f64_gt (conn_usage s) f64_0_9 then HealthStatusDegraded
     else HealthStatusHealthy)"

definition checkServerStatus :: "HealthChecker \<Rightarrow> time \<Rightarrow> Server \<Rightarrow> CheckResult" where
  "checkServerStatus hc now s =
    (if srv_closed s then \<lparr> cr_Status = HealthStatusUnhealthy, cr_Message = ''Server is closed'', cr_Details = NoDetails \<rparr>
     else if \<not> srv_listening s
     then \<lparr> cr_Status = HealthStatusUnhealthy, cr_Message = ''Server listener not initialized'', cr_Details = NoDetails \<rparr>
     else \<lparr> cr_Status = HealthStatusHealthy, cr_Message = ''Server is running'',
       cr_Details = ServerDetails (ListenAddr (srv_config s)) (time_sub now (checker_start hc)) \<rparr>)"

definition hc_checkResourceLimits :: "Server \<Rightarrow> CheckResult" where
  "hc_checkResourceLimits s =
    (let st = GetBreachStats (srv_breach s) in
     if stat_memory st \<or> stat_fd st \<or> stat_goroutine st \<or> stat_connection st
     then \<lparr> cr_Status = HealthStatusDegraded, cr_Message = ''Resource limits exceeded'', cr_Details = ResourceDetails st \<rparr>
     else \<lparr> cr_Status = HealthStatusHealthy, cr_Message = ''Resource usage within limits'', cr_Details = ResourceDetails st \<rparr>)"

definition checkConnectivity :: "Server \<Rightarrow> CheckResult" where
  "checkConnectivity s =
    (let r = (if max_conns s > 0 \<and> f64_gt (conn_usage s) f64_0_9 then (HealthStatusDegraded, ''Connection capacity nearly exhausted'')
              else if max_conns s > 0 \<and> f64_gt (conn_usage s) f64_0_8 then (HealthStatusDegraded, ''High connection usage'')
              else (HealthStatusHealthy, ''Connection capacity available'')) in
     \<lparr> cr_Status = fst r, cr_Message = snd r,
       cr_Details = ConnectionDetails (activeConns s) (max_conns s) (f64_mul (conn_usage s) (Fin 100)) \<rparr>)"

definition auth_total :: "Server \<Rightarrow> u64" where
  "auth_total s = authSuccess s + authFailures s + authRateLimited s"

definition checkAuthentication :: "Server \<Rightarrow> CheckResult" where
  "checkAuthentication s =
    (let bad = (auth_total s > 0 \<and> f64_gt (f64_div (f64_of_int (uint (authFailures s))) (f64_of_int (uint (auth_total s)))) f64_0_5) in
     \<lparr> cr_Status = (if bad then HealthStatusDegraded else HealthStatusHealthy),
       cr_Message = (if bad then ''High authentication failure rate'' else ''Authentication system operational''),
       cr_Details = AuthDetails (authSuccess s) (authFailures s) (authRateLimited s) \<rparr>)"

definition GetHealth :: "HealthChecker \<Rightarrow> MemStats \<Rightarrow> int \<Rightarrow> (nat \<Rightarrow> time) \<Rightarrow> identity \<Rightarrow> Server \<Rightarrow> HealthCheck" where
  "GetHealth hc m routines now i s = \<lparr> hc_Status = determineOverallStatus s, hc_Timestamp = now 0, hc_Version = checker_version hc,
     hc_InstanceID = GetInstanceID i, hc_Uptime = time_sub (now 1) (checker_start hc), hc_ActiveConnections = activeConns s,
     hc_TotalConnections = totalConns s,
     hc_MemoryUsage = \<lparr> AllocMB = bToMb (mem_Alloc m), TotalAllocMB = bToMb (mem_TotalAlloc m), SysMB = bToMb (mem_Sys m),
       gc_count = mem_NumGC m, routine_count = routines \<rparr>,
     hc_ResourceStatus = GetBreachStats (srv_breach s),
     hc_Checks = [(''server'', checkServerStatus hc (now 2) s), (''resources'', hc_checkResourceLimits s),
       (''connectivity'', checkConnectivity s), (''authentication'', checkAuthentication s)] \<rparr>"

text \<open>The status code and the body; the body is the JSON of the health check or the text of the ping.\<close>

datatype http_body = NoBody | HealthBody HealthCheck | TextBody string

definition health_ServeHTTP :: "string \<Rightarrow> HealthCheck \<Rightarrow> int \<times> http_body" where
  "health_ServeHTTP meth health =
    (if meth \<noteq> ''GET'' then (405, NoBody)
     else (case hc_Status health of
       HealthStatusHealthy \<Rightarrow> (200, HealthBody health)
     | HealthStatusDegraded \<Rightarrow> (200, HealthBody health)
     | HealthStatusUnhealthy \<Rightarrow> (503, HealthBody health)))"

definition IsHealthy :: "Server \<Rightarrow> bool" where
  "IsHealthy s \<longleftrightarrow> determineOverallStatus s \<noteq> HealthStatusUnhealthy"

text \<open>The routes of \<open>StartHealthCheckServer\<close>.\<close>

definition health_route :: "string \<Rightarrow> string \<Rightarrow> HealthCheck \<Rightarrow> int \<times> http_body" where
  "health_route path meth health =
    (if path \<in> {''/health'', ''/healthz'', ''/ready''} then health_ServeHTTP meth health
     else if path = ''/ping'' then (200, TextBody ''pong'')
     else (404, TextBody (''404 page not found'' @ [CHR 0x0A])))"

section \<open>Properties\<close>

lemma conn_usage_gt:
  assumes "in_i32 (activeConns s)" "0 < max_conns s"
  shows "f64_gt (conn_usage s) f64_0_9 \<longleftrightarrow> 9 * max_conns s < 10 * activeConns s" "f64_gt (conn_usage s) f64_0_8 \<longleftrightarrow> 4 * max_conns s < 5 * activeConns s"
proof -
  have m: "max_conns s \<le> 2 ^ 31" using in_i32_wrap32 [of "MaxConnections (srv_config s)"] by (simp add: in_i32_def)
  have a: "\<bar>activeConns s\<bar> < 2 ^ 53" using assms(1) by (auto simp: in_i32_def)
  show "f64_gt (conn_usage s) f64_0_9 \<longleftrightarrow> 9 * max_conns s < 10 * activeConns s" "f64_gt (conn_usage s) f64_0_8 \<longleftrightarrow> 4 * max_conns s < 5 * activeConns s"
    using ratio_gt [OF assms(2) m a] by (simp_all add: conn_usage_def)
qed

text \<open>
  C36: a probe of \<open>/health\<close>, \<open>/healthz\<close> or \<open>/ready\<close> is answered with 503 exactly when the server is closed and otherwise with 200.
  The reported status is degraded exactly when the server is open and rejects connections for lack of resources or has more than
  nine tenths of its connections in use; the connectivity check warns above four fifths.
\<close>

theorem health_exact:
  assumes "in_i32 (activeConns s)" "0 < wrap32 (MaxConnections (srv_config s))" "path \<in> {''/health'', ''/healthz'', ''/ready''}"
  shows "fst (health_route path ''GET'' (GetHealth hc m routines now i s)) = (if srv_closed s then 503 else 200) \<and>
    (hc_Status (GetHealth hc m routines now i s) = HealthStatusDegraded \<longleftrightarrow>
       \<not> srv_closed s \<and> (ShouldRejectConnection (srv_breach s) \<or> 9 * wrap32 (MaxConnections (srv_config s)) < 10 * activeConns s)) \<and>
    (cr_Status (checkConnectivity s) = HealthStatusDegraded \<longleftrightarrow> 4 * wrap32 (MaxConnections (srv_config s)) < 5 * activeConns s)"
  using assms conn_usage_gt [OF assms(1,2)]
  by (auto simp: health_route_def health_ServeHTTP_def GetHealth_def determineOverallStatus_def checkConnectivity_def Let_def)

theorem health_exact_witness:
  "\<exists>hc. hc_Status (hc :: HealthCheck) = HealthStatusDegraded \<and> health_route ''/ready'' ''GET'' hc = (200, HealthBody hc)"
proof -
  let ?s = "(NewServer DefaultConfig sample_config)\<lparr> activeConns := 90001 \<rparr>"
  let ?h = "GetHealth \<lparr> checker_start = 0, checker_version = [] \<rparr> \<lparr> mem_Alloc = 0, mem_TotalAlloc = 0, mem_Sys = 0, mem_HeapAlloc = 0,
    mem_StackInuse = 0, mem_NumGC = 0, mem_PauseTotalNs = 0, mem_PauseNs = [] \<rparr> 10 (\<lambda>_. 5) \<lparr> instanceID = [], startTime = 0 \<rparr> ?s"
  have p: "in_i32 (activeConns ?s)" "0 < wrap32 (MaxConnections (srv_config ?s))" "\<not> srv_closed ?s"
      "9 * wrap32 (MaxConnections (srv_config ?s)) < 10 * activeConns ?s"
    by (simp_all add: NewServer_def DefaultConfig_def in_i32_def wrap32_def)
  then have "hc_Status ?h = HealthStatusDegraded" using health_exact [of ?s "''/ready''"] by auto
  then show ?thesis by (intro exI [of _ ?h]) (simp add: health_route_def health_ServeHTTP_def)
qed

end
