(* ===== verification/Metrics.thy ===== *)
theory Metrics
  imports Prelude FloatRound GoErrors "HOL-Library.Finite_Map"
begin

text \<open>
  \<open>internal/server/metrics.go\<close> and \<open>internal/server/tls_metrics.go\<close>: the counters of the server and the averages it reports.  Every
  counter is an \<open>int64\<close> that wraps.  Calls are taken one after the other.
\<close>

section \<open>Performance metrics\<close>

record PerformanceMetrics =
  pm_ActiveConnections :: int
  pm_TotalConnections :: int
  pm_IPRejectedConnections :: int
  pm_SlowClientsDetected :: int
  pm_WriteQueueFullErrors :: int
  pm_MessagesSentTotal :: int
  pm_MessagesRecvTotal :: int
  pm_BytesSentTotal :: int
  pm_BytesRecvTotal :: int
  pm_WriteLatencyNs :: int
  pm_WriteLatencyCount :: int
  pm_WriteTimeouts :: int
  pm_WriteDeadlineExceeded :: int
  pm_FramePoolHits :: int
  pm_FramePoolMisses :: int
  pm_BufferPoolHits :: int
  pm_BufferPoolMisses :: int
  pm_HeartbeatTimeouts :: int
  pm_HeartbeatsSent :: int
  pm_HeartbeatsRecv :: int

definition zero_metrics :: PerformanceMetrics where
  "zero_metrics = \<lparr> pm_ActiveConnections = 0, pm_TotalConnections = 0, pm_IPRejectedConnections = 0, pm_SlowClientsDetected = 0, pm_WriteQueueFullErrors = 0, pm_MessagesSentTotal = 0, pm_MessagesRecvTotal = 0, pm_BytesSentTotal = 0, pm_BytesRecvTotal = 0, pm_WriteLatencyNs = 0, pm_WriteLatencyCount = 0, pm_WriteTimeouts = 0, pm_WriteDeadlineExceeded = 0, pm_FramePoolHits = 0, pm_FramePoolMisses = 0, pm_BufferPoolHits = 0, pm_BufferPoolMisses = 0, pm_HeartbeatTimeouts = 0, pm_HeartbeatsSent = 0, pm_HeartbeatsRecv = 0 \<rparr>"

definition pm_IncrementActiveConnections :: "PerformanceMetrics \<Rightarrow> PerformanceMetrics" where
  "pm_IncrementActiveConnections m = m\<lparr> pm_ActiveConnections := wrap64 (pm_ActiveConnections m + 1), pm_TotalConnections := wrap64 (pm_TotalConnections m + 1) \<rparr>"

definition pm_DecrementActiveConnections :: "PerformanceMetrics \<Rightarrow> PerformanceMetrics" where
  "pm_DecrementActiveConnections m = m\<lparr> pm_ActiveConnections := wrap64 (pm_ActiveConnections m - 1) \<rparr>"

definition pm_IncrementSlowClients :: "PerformanceMetrics \<Rightarrow> PerformanceMetrics" where
  "pm_IncrementSlowClients m = m\<lparr> pm_SlowClientsDetected := wrap64 (pm_SlowClientsDetected m + 1) \<rparr>"

definition pm_IncrementWriteQueueFull :: "PerformanceMetrics \<Rightarrow> PerformanceMetrics" where
  "pm_IncrementWriteQueueFull m = m\<lparr> pm_WriteQueueFullErrors := wrap64 (pm_WriteQueueFullErrors m + 1) \<rparr>"

definition pm_IncrementIPRejectedConnections :: "PerformanceMetrics \<Rightarrow> PerformanceMetrics" where
  "pm_IncrementIPRejectedConnections m = m\<lparr> pm_IPRejectedConnections := wrap64 (pm_IPRejectedConnections m + 1) \<rparr>"

definition pm_IncrementWriteTimeouts :: "PerformanceMetrics \<Rightarrow> PerformanceMetrics" where
  "pm_IncrementWriteTimeouts m = m\<lparr> pm_WriteTimeouts := wrap64 (pm_WriteTimeouts m + 1) \<rparr>"

definition pm_IncrementWriteDeadlineExceeded :: "PerformanceMetrics \<Rightarrow> PerformanceMetrics" where
  "pm_IncrementWriteDeadlineExceeded m = m\<lparr> pm_WriteDeadlineExceeded := wrap64 (pm_WriteDeadlineExceeded m + 1) \<rparr>"

definition pm_IncrementFramePoolHits :: "PerformanceMetrics \<Rightarrow> PerformanceMetrics" where
  "pm_IncrementFramePoolHits m = m\<lparr> pm_FramePoolHits := wrap64 (pm_FramePoolHits m + 1) \<rparr>"

definition pm_IncrementFramePoolMisses :: "PerformanceMetrics \<Rightarrow> PerformanceMetrics" where
  "pm_IncrementFramePoolMisses m = m\<lparr> pm_FramePoolMisses := wrap64 (pm_FramePoolMisses m + 1) \<rparr>"

definition pm_IncrementBufferPoolHits :: "PerformanceMetrics \<Rightarrow> PerformanceMetrics" where
  "pm_IncrementBufferPoolHits m = m\<lparr> pm_BufferPoolHits := wrap64 (pm_BufferPoolHits m + 1) \<rparr>"

definition pm_IncrementBufferPoolMisses :: "PerformanceMetrics \<Rightarrow> PerformanceMetrics" where
  "pm_IncrementBufferPoolMisses m = m\<lparr> pm_BufferPoolMisses := wrap64 (pm_BufferPoolMisses m + 1) \<rparr>"

definition pm_IncrementHeartbeatTimeouts :: "PerformanceMetrics \<Rightarrow> PerformanceMetrics" where
  "pm_IncrementHeartbeatTimeouts m = m\<lparr> pm_HeartbeatTimeouts := wrap64 (pm_HeartbeatTimeouts m + 1) \<rparr>"

definition pm_IncrementHeartbeatsSent :: "PerformanceMetrics \<Rightarrow> PerformanceMetrics" where
  "pm_IncrementHeartbeatsSent m = m\<lparr> pm_HeartbeatsSent := wrap64 (pm_HeartbeatsSent m + 1) \<rparr>"

definition pm_IncrementHeartbeatsRecv :: "PerformanceMetrics \<Rightarrow> PerformanceMetrics" where
  "pm_IncrementHeartbeatsRecv m = m\<lparr> pm_HeartbeatsRecv := wrap64 (pm_HeartbeatsRecv m + 1) \<rparr>"

definition pm_AddMessagesSent :: "int \<Rightarrow> PerformanceMetrics \<Rightarrow> PerformanceMetrics" where
  "pm_AddMessagesSent count m = m\<lparr> pm_MessagesSentTotal := wrap64 (pm_MessagesSentTotal m + count) \<rparr>"

definition pm_AddMessagesRecv :: "int \<Rightarrow> PerformanceMetrics \<Rightarrow> PerformanceMetrics" where
  "pm_AddMessagesRecv count m = m\<lparr> pm_MessagesRecvTotal := wrap64 (pm_MessagesRecvTotal m + count) \<rparr>"

definition pm_AddBytesSent :: "int \<Rightarrow> PerformanceMetrics \<Rightarrow> PerformanceMetrics" where
  "pm_AddBytesSent count m = m\<lparr> pm_BytesSentTotal := wrap64 (pm_BytesSentTotal m + count) \<rparr>"

definition pm_AddBytesRecv :: "int \<Rightarrow> PerformanceMetrics \<Rightarrow> PerformanceMetrics" where
  "pm_AddBytesRecv count m = m\<lparr> pm_BytesRecvTotal := wrap64 (pm_BytesRecvTotal m + count) \<rparr>"

text \<open>\<open>RecordWriteLatency\<close>; the division panics when the counter has wrapped around to zero.\<close>

definition pm_RecordWriteLatency :: "int \<Rightarrow> PerformanceMetrics \<Rightarrow> PerformanceMetrics outcome" where
  "pm_RecordWriteLatency latencyNs m =
    (let count = wrap64 (pm_WriteLatencyCount m + 1); m = m\<lparr> pm_WriteLatencyCount := count \<rparr> in
     if count = 0 then Panic
     else Ret (m\<lparr> pm_WriteLatencyNs := wrap64 (go_div (wrap64 (wrap64 (pm_WriteLatencyNs m * wrap64 (count - 1)) + latencyNs)) count) \<rparr>))"

definition pm_GetSnapshot :: "PerformanceMetrics \<Rightarrow> (string \<times> int) list" where
  "pm_GetSnapshot m = [(''active_connections'', pm_ActiveConnections m),
     (''total_connections'', pm_TotalConnections m),
     (''ip_rejected_connections'', pm_IPRejectedConnections m),
     (''slow_clients_detected'', pm_SlowClientsDetected m),
     (''write_queue_full_errors'', pm_WriteQueueFullErrors m),
     (''messages_sent_total'', pm_MessagesSentTotal m),
     (''messages_recv_total'', pm_MessagesRecvTotal m),
     (''bytes_sent_total'', pm_BytesSentTotal m),
     (''bytes_recv_total'', pm_BytesRecvTotal m),
     (''write_latency_ns'', pm_WriteLatencyNs m),
     (''write_latency_count'', pm_WriteLatencyCount m),
     (''write_timeouts'', pm_WriteTimeouts m),
     (''write_deadline_exceeded'', pm_WriteDeadlineExceeded m),
     (''frame_pool_hits'', pm_FramePoolHits m),
     (''frame_pool_misses'', pm_FramePoolMisses m),
     (''buffer_pool_hits'', pm_BufferPoolHits m),
     (''buffer_pool_misses'', pm_BufferPoolMisses m),
     (''heartbeat_timeouts'', pm_HeartbeatTimeouts m),
     (''heartbeats_sent'', pm_HeartbeatsSent m),
     (''heartbeats_recv'', pm_HeartbeatsRecv m)]"

definition pm_Reset :: "PerformanceMetrics \<Rightarrow> PerformanceMetrics" where
  "pm_Reset m = zero_metrics"

text \<open>What \<open>checkPerformance\<close> compares; it only has places for log messages.\<close>

record PerformanceMonitor =
  sampleTicker :: "duration option"
  pm_stopCh :: bool
  MaxWriteLatencyMs :: int
  MaxSlowClientRatio :: f64
  MaxWriteQueueFullRate :: f64

definition NewPerformanceMonitor :: PerformanceMonitor where
  "NewPerformanceMonitor = \<lparr> sampleTicker = None, pm_stopCh = False, MaxWriteLatencyMs = 10, MaxSlowClientRatio = Fin (3602879701896397 / 72057594037927936),
     MaxWriteQueueFullRate = Fin (5764607523034235 / 576460752303423488) \<rparr>"

text \<open>
  \<open>Start\<close> and \<open>Stop\<close>: \<open>time.NewTicker\<close> panics on an interval that is not positive, closing \<open>stopCh\<close> a second time panics too.  The
  ticker is known by its interval, \<open>pm_stopCh\<close> says whether the channel is closed.
\<close>

definition pm_Start :: "duration \<Rightarrow> PerformanceMonitor \<Rightarrow> PerformanceMonitor outcome" where
  "pm_Start sampleInterval pm = (if sampleInterval \<le> 0 then Panic else Ret (pm\<lparr> sampleTicker := Some sampleInterval \<rparr>))"

definition pm_Stop :: "PerformanceMonitor \<Rightarrow> PerformanceMonitor outcome" where
  "pm_Stop pm = (if pm_stopCh pm then Panic else Ret (pm\<lparr> pm_stopCh := True \<rparr>))"

definition checkPerformance :: "PerformanceMonitor \<Rightarrow> PerformanceMetrics \<Rightarrow> bool \<times> bool \<times> bool" where
  "checkPerformance pm m =
    (go_div (pm_WriteLatencyNs m) 1000000 > MaxWriteLatencyMs pm,
     pm_TotalConnections m > 0 \<and>
       f64_gt (f64_div (f64_of_int (pm_SlowClientsDetected m)) (f64_of_int (pm_TotalConnections m))) (MaxSlowClientRatio pm),
     pm_MessagesSentTotal m > 0 \<and>
       f64_gt (f64_div (f64_of_int (pm_WriteQueueFullErrors m)) (f64_of_int (pm_MessagesSentTotal m))) (MaxWriteQueueFullRate pm))"

section \<open>TLS metrics\<close>

record TLSMetrics =
  TLSConnections :: int
  TLSHandshakes :: int
  TLSHandshakeErrors :: int
  TLSHandshakeDuration :: int
  CertificateValidations :: int
  CertificateErrors :: int
  ClientCertValidations :: int
  ClientCertErrors :: int
  TLS13Connections :: int
  TLS12Connections :: int
  OtherTLSVersions :: int
  tm_CipherSuites :: "(u16, int) fmap"
  AverageHandshakeTime :: duration
  MaxHandshakeTime :: duration
  MinHandshakeTime :: duration

definition NewTLSMetrics :: TLSMetrics where
  "NewTLSMetrics = \<lparr> TLSConnections = 0, TLSHandshakes = 0, TLSHandshakeErrors = 0, TLSHandshakeDuration = 0, CertificateValidations = 0,
     CertificateErrors = 0, ClientCertValidations = 0, ClientCertErrors = 0, TLS13Connections = 0, TLS12Connections = 0, OtherTLSVersions = 0,
     tm_CipherSuites = fmempty, AverageHandshakeTime = 0, MaxHandshakeTime = 0, MinHandshakeTime = 2 ^ 63 - 1 \<rparr>"

definition RecordTLSConnection :: "TLSMetrics \<Rightarrow> TLSMetrics" where
  "RecordTLSConnection m = m\<lparr> TLSConnections := wrap64 (TLSConnections m + 1) \<rparr>"

definition RecordTLSHandshake :: "duration \<Rightarrow> go_error option \<Rightarrow> TLSMetrics \<Rightarrow> TLSMetrics" where
  "RecordTLSHandshake d err m =
    (let m = m\<lparr> TLSHandshakes := wrap64 (TLSHandshakes m + 1) \<rparr> in
     if err \<noteq> None then m\<lparr> TLSHandshakeErrors := wrap64 (TLSHandshakeErrors m + 1) \<rparr>
     else
       let m = m\<lparr> TLSHandshakeDuration := wrap64 (TLSHandshakeDuration m + d) \<rparr>;
           m = (if d > MaxHandshakeTime m then m\<lparr> MaxHandshakeTime := d \<rparr> else m);
           m = (if d < MinHandshakeTime m then m\<lparr> MinHandshakeTime := d \<rparr> else m)
       in if TLSHandshakes m > 0 then m\<lparr> AverageHandshakeTime := go_div (TLSHandshakeDuration m) (TLSHandshakes m) \<rparr> else m)"

definition RecordTLSVersion :: "u16 \<Rightarrow> TLSMetrics \<Rightarrow> TLSMetrics" where
  "RecordTLSVersion v m =
    (if v = 0x0304 then m\<lparr> TLS13Connections := wrap64 (TLS13Connections m + 1) \<rparr>
     else if v = 0x0303 then m\<lparr> TLS12Connections := wrap64 (TLS12Connections m + 1) \<rparr>
     else m\<lparr> OtherTLSVersions := wrap64 (OtherTLSVersions m + 1) \<rparr>)"

definition RecordCipherSuite :: "u16 \<Rightarrow> TLSMetrics \<Rightarrow> TLSMetrics" where
  "RecordCipherSuite c m = m\<lparr> tm_CipherSuites := fmupd c
     (wrap64 ((case fmlookup (tm_CipherSuites m) c of Some n \<Rightarrow> n | None \<Rightarrow> 0) + 1)) (tm_CipherSuites m) \<rparr>"

definition RecordCertificateValidation :: "go_error option \<Rightarrow> TLSMetrics \<Rightarrow> TLSMetrics" where
  "RecordCertificateValidation err m =
    (let m = m\<lparr> CertificateValidations := wrap64 (CertificateValidations m + 1) \<rparr> in
     if err \<noteq> None then m\<lparr> CertificateErrors := wrap64 (CertificateErrors m + 1) \<rparr> else m)"

definition RecordClientCertValidation :: "go_error option \<Rightarrow> TLSMetrics \<Rightarrow> TLSMetrics" where
  "RecordClientCertValidation err m =
    (let m = m\<lparr> ClientCertValidations := wrap64 (ClientCertValidations m + 1) \<rparr> in
     if err \<noteq> None then m\<lparr> ClientCertErrors := wrap64 (ClientCertErrors m + 1) \<rparr> else m)"

definition getCipherSuiteName :: "u16 \<Rightarrow> string" where
  "getCipherSuiteName c = (case map_of
     [(0x1301, ''TLS_AES_128_GCM_SHA256''), (0x1302, ''TLS_AES_256_GCM_SHA384''), (0x1303, ''TLS_CHACHA20_POLY1305_SHA256''),
      (0xC02B, ''TLS_ECDHE_ECDSA_WITH_AES_128_GCM_SHA256''), (0xC02C, ''TLS_ECDHE_ECDSA_WITH_AES_256_GCM_SHA384''),
      (0xC02F, ''TLS_ECDHE_RSA_WITH_AES_128_GCM_SHA256''), (0xC030, ''TLS_ECDHE_RSA_WITH_AES_256_GCM_SHA384'')] c of
     Some n \<Rightarrow> n | None \<Rightarrow> ''Unknown'')"

text \<open>
  \<open>GetTLSMetrics\<close>.  Suites are reported by name in the order in which Go walks the map, which is any order: of several suites
  without a name the last one is reported.
\<close>

fun suite_report :: "TLSMetrics \<Rightarrow> u16 list \<Rightarrow> (string \<rightharpoonup> int)" where
  "suite_report m [] = Map.empty"
| "suite_report m (c # order) =
     (case fmlookup (tm_CipherSuites m) c of Some n \<Rightarrow> [getCipherSuiteName c \<mapsto> n] | None \<Rightarrow> Map.empty) ++ suite_report m order"

definition in_ms :: "duration \<Rightarrow> f64" where
  "in_ms d = f64_div (f64_of_int d) (f64_of_int 1000000)"

record TLSReport =
  tr_connections :: int
  tr_handshakes :: int
  tr_handshake_errors :: int
  tr_versions :: "int \<times> int \<times> int"
  tr_certificates :: "int \<times> int"
  tr_client_certificates :: "int \<times> int"
  tr_average_ms :: f64
  tr_max_ms :: f64
  tr_min_ms :: f64
  tr_suites :: "string \<rightharpoonup> int"

definition GetTLSMetrics :: "u16 list \<Rightarrow> TLSMetrics \<Rightarrow> TLSReport" where
  "GetTLSMetrics order m = \<lparr> tr_connections = TLSConnections m, tr_handshakes = TLSHandshakes m, tr_handshake_errors = TLSHandshakeErrors m,
     tr_versions = (TLS13Connections m, TLS12Connections m, OtherTLSVersions m),
     tr_certificates = (CertificateValidations m, CertificateErrors m), tr_client_certificates = (ClientCertValidations m, ClientCertErrors m),
     tr_average_ms = in_ms (AverageHandshakeTime m), tr_max_ms = in_ms (MaxHandshakeTime m), tr_min_ms = in_ms (MinHandshakeTime m),
     tr_suites = suite_report m order \<rparr>"

definition rate_percent :: "int \<Rightarrow> int \<Rightarrow> f64" where
  "rate_percent part every = (if every > 0 then f64_mul (f64_div (f64_of_int part) (f64_of_int every)) (Fin 100) else Fin 0)"

definition getTLS13UsagePercentage :: "TLSMetrics \<Rightarrow> f64" where
  "getTLS13UsagePercentage m =
    (let every = wrap64 (wrap64 (TLS13Connections m + TLS12Connections m) + OtherTLSVersions m) in
     if every = 0 then Fin 0 else f64_mul (f64_div (f64_of_int (TLS13Connections m)) (f64_of_int every)) (Fin 100))"

record TLSHealth =
  th_healthy :: bool
  th_handshake_error_rate :: f64
  th_certificate_error_rate :: f64
  th_client_cert_error_rate :: f64
  th_average_ms :: f64
  th_tls13_usage :: f64

definition GetTLSHealthStatus :: "TLSMetrics \<Rightarrow> TLSHealth" where
  "GetTLSHealthStatus m =
    (let h = rate_percent (TLSHandshakeErrors m) (TLSHandshakes m); c = rate_percent (CertificateErrors m) (CertificateValidations m);
         cc = rate_percent (ClientCertErrors m) (ClientCertValidations m) in
     \<lparr> th_healthy = (f64_lt h (Fin 5) \<and> f64_lt c (Fin 1) \<and> f64_lt cc (Fin 1)), th_handshake_error_rate = h, th_certificate_error_rate = c,
       th_client_cert_error_rate = cc, th_average_ms = in_ms (AverageHandshakeTime m), th_tls13_usage = getTLS13UsagePercentage m \<rparr>)"

definition tls_Reset :: "TLSMetrics \<Rightarrow> TLSMetrics" where
  "tls_Reset m = NewTLSMetrics"

text \<open>A failed handshake counts in the average of the successful ones.\<close>

lemma failures_dilute_average:
  assumes "0 \<le> d" "d < 2 ^ 63"
  shows "AverageHandshakeTime (RecordTLSHandshake d None (RecordTLSHandshake e (Some err) NewTLSMetrics)) = d div 2"
  using assms by (auto simp: RecordTLSHandshake_def NewTLSMetrics_def Let_def wrap64_def)

section \<open>The write latency\<close>

fun record_latencies :: "int list \<Rightarrow> PerformanceMetrics \<Rightarrow> PerformanceMetrics outcome" where
  "record_latencies [] m = Ret m"
| "record_latencies (x # xs) m = (case pm_RecordWriteLatency x m of Panic \<Rightarrow> Panic | Ret m \<Rightarrow> record_latencies xs m)"

lemma record_append: "record_latencies (xs @ ys) m = (case record_latencies xs m of Panic \<Rightarrow> Panic | Ret m \<Rightarrow> record_latencies ys m)"
  by (induction xs arbitrary: m) (auto split: outcome.split)

text \<open>What is true of the average of the latencies \<open>xs\<close>.\<close>

definition averages :: "int list \<Rightarrow> PerformanceMetrics \<Rightarrow> bool" where
  "averages xs m \<longleftrightarrow> (let n = int (length xs); a = pm_WriteLatencyNs m in
     pm_WriteLatencyCount m = n \<and> 0 \<le> a \<and> a * n \<le> sum_list xs \<and> 2 * (sum_list xs - a * n) \<le> n * (n - 1) \<and>
     (xs \<noteq> [] \<longrightarrow> Min (set xs) \<le> a \<and> a \<le> Max (set xs)))"

lemma average_step:
  fixes a n x s :: int
  assumes "0 \<le> n" "0 \<le> a" "0 \<le> x" "a * n \<le> s" "2 * (s - a * n) \<le> n * (n - 1)"
  defines "b \<equiv> (a * n + x) div (n + 1)"
  shows "0 \<le> b" "b * (n + 1) \<le> s + x" "2 * (s + x - b * (n + 1)) \<le> (n + 1) * n"
proof -
  have m: "b * (n + 1) = a * n + x - (a * n + x) mod (n + 1)" unfolding b_def by (simp add: minus_mod_eq_div_mult)
  have r: "0 \<le> (a * n + x) mod (n + 1)" "(a * n + x) mod (n + 1) \<le> n" using assms(1) pos_mod_bound [of "n + 1" "a * n + x"] by auto
  show "0 \<le> b" unfolding b_def using assms by (intro div_int_pos_iff [THEN iffD2]) simp
  show "b * (n + 1) \<le> s + x" using m r assms(4) by linarith
  have "s + x - b * (n + 1) = s - a * n + (a * n + x) mod (n + 1)" unfolding m by simp
  then have "2 * (s + x - b * (n + 1)) \<le> n * (n - 1) + 2 * n" using r(2) assms(5) by simp
  then show "2 * (s + x - b * (n + 1)) \<le> (n + 1) * n" by (simp add: algebra_simps)
qed

lemma average_between:
  fixes a n x lo hi :: int
  assumes "0 \<le> n" "lo \<le> x" "x \<le> hi" "n = 0 \<or> lo \<le> a \<and> a \<le> hi"
  shows "lo \<le> (a * n + x) div (n + 1)" "(a * n + x) div (n + 1) \<le> hi"
proof -
  have "lo * n \<le> a * n" "a * n \<le> hi * n" using assms by (auto intro: mult_right_mono)
  then have le: "lo * (n + 1) \<le> a * n + x" "a * n + x \<le> hi * (n + 1)" using assms by (simp_all add: algebra_simps)
  have "lo * (n + 1) div (n + 1) \<le> (a * n + x) div (n + 1)" "(a * n + x) div (n + 1) \<le> hi * (n + 1) div (n + 1)"
    using zdiv_mono1 [OF le(1), of "n + 1"] zdiv_mono1 [OF le(2), of "n + 1"] assms(1) by linarith+
  moreover have "lo * (n + 1) div (n + 1) = lo" "hi * (n + 1) div (n + 1) = hi"
    by (rule nonzero_mult_div_cancel_right, use assms(1) in simp)+
  ultimately show "lo \<le> (a * n + x) div (n + 1)" "(a * n + x) div (n + 1) \<le> hi" by simp_all
qed

lemma averages_snoc:
  assumes "averages xs m" "0 \<le> x" "x \<le> upper" "\<forall>y \<in> set xs. y \<le> upper" "upper * (int (length xs) + 1) < 2 ^ 63" "int (length xs) + 1 < 2 ^ 63"
  shows "\<exists>m'. pm_RecordWriteLatency x m = Ret m' \<and> averages (xs @ [x]) m'"
proof -
  define n where "n = int (length xs)"
  define a where "a = pm_WriteLatencyNs m"
  have n: "0 \<le> n" "pm_WriteLatencyCount m = n" "0 \<le> a" "a * n \<le> sum_list xs" "2 * (sum_list xs - a * n) \<le> n * (n - 1)"
      "xs \<noteq> [] \<longrightarrow> Min (set xs) \<le> a \<and> a \<le> Max (set xs)"
    using assms(1) by (simp_all add: averages_def Let_def n_def a_def)
  let ?b = "(a * n + x) div (n + 1)"
  have "n = 0 \<or> a \<le> upper" using n(6) assms(4) by (auto simp: n_def dest!: order_trans [OF _ Max.boundedI])
  then have "a * n \<le> upper * n" using n(1) by (auto intro: mult_right_mono)
  then have upper: "a * n + x \<le> upper * (n + 1)" "0 \<le> a * n" using assms(3) n by (simp_all add: algebra_simps)
  then have w: "in_i64 (n + 1)" "in_i64 n" "in_i64 (a * n)" "in_i64 (a * n + x)" using assms(2,5,6) n(1) by (simp_all add: in_i64_def n_def)
  have b: "0 \<le> ?b" "?b * (n + 1) \<le> sum_list xs + x" "2 * (sum_list xs + x - ?b * (n + 1)) \<le> (n + 1) * n"
    by (rule average_step [OF n(1,3) assms(2) n(4,5)])+
  have "?b \<le> a * n + x" using zdiv_mono2 [of "a * n + x" 1 "n + 1"] upper(2) assms(2) n(1) by simp
  then have "in_i64 ?b" using b(1) w(4) by (simp add: in_i64_def)
  then have r: "pm_RecordWriteLatency x m = Ret (m\<lparr> pm_WriteLatencyCount := n + 1, pm_WriteLatencyNs := ?b \<rparr>)"
    using w n(1,2) upper(2) assms(2) by (simp add: pm_RecordWriteLatency_def Let_def a_def [symmetric])
  have "Min (set (xs @ [x])) \<le> ?b" "?b \<le> Max (set (xs @ [x]))"
  proof -
    have "n = 0 \<or> Min (set (xs @ [x])) \<le> a \<and> a \<le> Max (set (xs @ [x]))" using n(6) by (auto simp: n_def)
    then show "Min (set (xs @ [x])) \<le> ?b" "?b \<le> Max (set (xs @ [x]))"
      by (rule average_between [OF n(1), rotated 2]; simp)+
  qed
  then show ?thesis using r b n(1) by (auto simp: averages_def Let_def n_def add.commute mult.commute)
qed

text \<open>
  C40: the reported write latency is an average: it lies between the smallest and the largest latency recorded, is never above their
  mean, and the rounding of the running average keeps it below the mean by at most half a nanosecond per recorded write.
\<close>

theorem latency_average:
  assumes "\<forall>x \<in> set xs. 0 \<le> x \<and> x \<le> upper" "upper * int (length xs) < 2 ^ 63" "int (length xs) < 2 ^ 63" "xs \<noteq> []"
  shows "\<exists>m. record_latencies xs zero_metrics = Ret m \<and> pm_WriteLatencyCount m = int (length xs) \<and>
    Min (set xs) \<le> pm_WriteLatencyNs m \<and> pm_WriteLatencyNs m \<le> Max (set xs) \<and>
    pm_WriteLatencyNs m * int (length xs) \<le> sum_list xs \<and>
    2 * (sum_list xs - pm_WriteLatencyNs m * int (length xs)) \<le> int (length xs) * (int (length xs) - 1)"
proof -
  have "\<exists>m. record_latencies ys zero_metrics = Ret m \<and> averages ys m"
    if "\<forall>x \<in> set ys. 0 \<le> x \<and> x \<le> upper" "upper * int (length ys) < 2 ^ 63" "int (length ys) < 2 ^ 63" for ys
    using that
  proof (induction ys rule: rev_induct)
    case (snoc y ys)
    have "0 \<le> upper" using snoc.prems(1) by (metis in_set_conv_decomp order_trans)
    then have "upper * int (length ys) < 2 ^ 63" using snoc.prems(2) by (simp add: algebra_simps)
    then obtain m where m: "record_latencies ys zero_metrics = Ret m" "averages ys m" using snoc by auto
    obtain m' where "pm_RecordWriteLatency y m = Ret m'" "averages (ys @ [y]) m'"
      using averages_snoc [OF m(2), of y upper] snoc.prems by (auto simp: add.commute)
    then show ?case using m(1) by (simp add: record_append)
  qed (simp add: averages_def zero_metrics_def Let_def)
  then show ?thesis using assms by (fastforce simp: averages_def Let_def)
qed

theorem latency_average_witness:
  "\<exists>m. record_latencies [5, 8, 9] zero_metrics = Ret m \<and> 5 \<le> pm_WriteLatencyNs m \<and> pm_WriteLatencyNs m * 3 \<le> 22 \<and>
     22 \<le> pm_WriteLatencyNs m * 3 + 3"
  using latency_average [of "[5, 8, 9]" 9] by auto

end
