(* ===== verification/Prometheus.thy ===== *)
theory Prometheus
  imports FloatRound GoErrors
begin

text \<open>
  \<open>internal/server/prometheus_metrics.go\<close>: the metrics the server exports.  The Prometheus client library is a parameter: a registry of any
  type, \<open>MustRegister\<close> and the action of a method on one series.  A metric is what its constructor is given; a metric without labels is a
  vector with no label.
\<close>

section \<open>The library\<close>

datatype metric_kind = Gauge | Counter | Histogram

record metric =
  metric_kind :: metric_kind
  metric_name :: string
  metric_help :: string
  metric_labels :: "string list"
  metric_buckets :: "(f64 \<times> f64 \<times> nat) option"

datatype series_action = Inc | Dec | Add f64 | Set f64 | Observe f64

record 'r prom_lib =
  NewRegistry :: 'r
  registered :: "'r \<Rightarrow> string set"
  MustRegister :: "metric list \<Rightarrow> 'r \<Rightarrow> 'r outcome"
  on_series :: "metric \<Rightarrow> string list \<Rightarrow> series_action \<Rightarrow> 'r \<Rightarrow> 'r outcome"

text \<open>\<open>ExponentialBuckets(0.001, 2, 10)\<close>.\<close>

definition exponential_buckets :: "f64 \<times> f64 \<times> nat" where
  "exponential_buckets = (round64 (1 / 1000), Fin 2, 10)"

section \<open>Metrics\<close>

record PrometheusMetrics =
  pr_activeConnections :: "metric option"
  pr_totalConnections :: "metric option"
  pr_connectionDuration :: "metric option"
  pr_connectionErrors :: "metric option"
  pr_messagesSentTotal :: "metric option"
  pr_messagesRecvTotal :: "metric option"
  pr_bytesSentTotal :: "metric option"
  pr_bytesRecvTotal :: "metric option"
  pr_publishLatency :: "metric option"
  pr_writeLatency :: "metric option"
  pr_messageProcessingDuration :: "metric option"
  pr_writeTimeouts :: "metric option"
  pr_writeDeadlineExceeded :: "metric option"
  pr_authSuccess :: "metric option"
  pr_authFailures :: "metric option"
  pr_authRateLimited :: "metric option"
  pr_heartbeatTimeouts :: "metric option"
  pr_heartbeatSent :: "metric option"
  pr_heartbeatsRecv :: "metric option"
  pr_errorsByType :: "metric option"
  pr_protocolErrors :: "metric option"
  pr_memoryUsage :: "metric option"
  pr_goroutineCount :: "metric option"
  pr_gcDuration :: "metric option"
  pr_subscriptionCount :: "metric option"
  pr_messagesSent :: "metric option"
  pr_framePoolHits :: "metric option"
  pr_framePoolMisses :: "metric option"
  pr_bufferPoolHits :: "metric option"
  pr_bufferPoolMisses :: "metric option"

definition nil_metrics :: PrometheusMetrics where
  "nil_metrics = \<lparr> pr_activeConnections = None, pr_totalConnections = None, pr_connectionDuration = None, pr_connectionErrors = None,
     pr_messagesSentTotal = None, pr_messagesRecvTotal = None, pr_bytesSentTotal = None, pr_bytesRecvTotal = None,
     pr_publishLatency = None, pr_writeLatency = None, pr_messageProcessingDuration = None, pr_writeTimeouts = None,
     pr_writeDeadlineExceeded = None, pr_authSuccess = None, pr_authFailures = None, pr_authRateLimited = None,
     pr_heartbeatTimeouts = None, pr_heartbeatSent = None, pr_heartbeatsRecv = None, pr_errorsByType = None,
     pr_protocolErrors = None, pr_memoryUsage = None, pr_goroutineCount = None, pr_gcDuration = None,
     pr_subscriptionCount = None, pr_messagesSent = None, pr_framePoolHits = None, pr_framePoolMisses = None,
     pr_bufferPoolHits = None, pr_bufferPoolMisses = None \<rparr>"

definition init_connection_metrics :: "PrometheusMetrics \<Rightarrow> PrometheusMetrics" where
  "init_connection_metrics pm = pm\<lparr> pr_activeConnections := Some \<lparr> metric_kind = Gauge, metric_name = ''tick_storm_active_connections'', metric_help = ''Number of active connections'',
       metric_labels = [''instance_id''], metric_buckets = None \<rparr>,
     pr_totalConnections := Some \<lparr> metric_kind = Counter, metric_name = ''tick_storm_total_connections_total'', metric_help = ''Total number of connections processed'',
       metric_labels = [''instance_id''], metric_buckets = None \<rparr>,
     pr_connectionDuration := Some \<lparr> metric_kind = Histogram, metric_name = ''tick_storm_connection_duration_seconds'', metric_help = ''Connection duration in seconds'',
       metric_labels = [''instance_id''], metric_buckets = Some exponential_buckets \<rparr>,
     pr_connectionErrors := Some \<lparr> metric_kind = Counter, metric_name = ''tick_storm_connection_errors_total'', metric_help = ''Number of connection errors'',
       metric_labels = [''instance_id'', ''error_type''], metric_buckets = None \<rparr>,
     pr_messagesSentTotal := Some \<lparr> metric_kind = Counter, metric_name = ''tick_storm_messages_sent_total'', metric_help = ''Total messages sent by type'',
       metric_labels = [''message_type'', ''subscription_mode''], metric_buckets = None \<rparr>,
     pr_messagesRecvTotal := Some \<lparr> metric_kind = Counter, metric_name = ''tick_storm_messages_recv_total'', metric_help = ''Total messages received by type'',
       metric_labels = [''message_type''], metric_buckets = None \<rparr>,
     pr_bytesSentTotal := Some \<lparr> metric_kind = Counter, metric_name = ''tick_storm_bytes_sent_total'', metric_help = ''Total bytes sent'',
       metric_labels = [''connection_type''], metric_buckets = None \<rparr>,
     pr_bytesRecvTotal := Some \<lparr> metric_kind = Counter, metric_name = ''tick_storm_bytes_recv_total'', metric_help = ''Total bytes received'',
       metric_labels = [''connection_type''], metric_buckets = None \<rparr> \<rparr>"

definition init_performance_metrics :: "PrometheusMetrics \<Rightarrow> PrometheusMetrics" where
  "init_performance_metrics pm = pm\<lparr> pr_publishLatency := Some \<lparr> metric_kind = Histogram, metric_name = ''tick_storm_publish_latency_seconds'', metric_help = ''Latency of publish operations in seconds'',
       metric_labels = [], metric_buckets = Some exponential_buckets \<rparr>,
     pr_writeLatency := Some \<lparr> metric_kind = Histogram, metric_name = ''tick_storm_write_latency_seconds'', metric_help = ''Write latency in seconds'',
       metric_labels = [], metric_buckets = Some exponential_buckets \<rparr>,
     pr_messageProcessingDuration := Some \<lparr> metric_kind = Histogram, metric_name = ''tick_storm_message_processing_duration_seconds'', metric_help = ''Message processing duration in seconds'',
       metric_labels = [], metric_buckets = Some exponential_buckets \<rparr>,
     pr_writeTimeouts := Some \<lparr> metric_kind = Counter, metric_name = ''tick_storm_write_timeouts_total'', metric_help = ''Total write timeouts'',
       metric_labels = [], metric_buckets = None \<rparr>,
     pr_writeDeadlineExceeded := Some \<lparr> metric_kind = Counter, metric_name = ''tick_storm_write_deadline_exceeded_total'', metric_help = ''Total write deadline exceeded errors'',
       metric_labels = [], metric_buckets = None \<rparr>,
     pr_authSuccess := Some \<lparr> metric_kind = Counter, metric_name = ''tick_storm_auth_success_total'', metric_help = ''Number of successful authentications'',
       metric_labels = [''instance_id''], metric_buckets = None \<rparr>,
     pr_authFailures := Some \<lparr> metric_kind = Counter, metric_name = ''tick_storm_auth_failures_total'', metric_help = ''Number of authentication failures'',
       metric_labels = [''instance_id'', ''reason''], metric_buckets = None \<rparr>,
     pr_authRateLimited := Some \<lparr> metric_kind = Counter, metric_name = ''tick_storm_auth_rate_limited_total'', metric_help = ''Total rate limited authentication attempts'',
       metric_labels = [], metric_buckets = None \<rparr>,
     pr_heartbeatTimeouts := Some \<lparr> metric_kind = Counter, metric_name = ''tick_storm_heartbeat_timeouts_total'', metric_help = ''Total heartbeat timeouts'',
       metric_labels = [], metric_buckets = None \<rparr> \<rparr>"

definition init_heartbeat_metrics :: "PrometheusMetrics \<Rightarrow> PrometheusMetrics" where
  "init_heartbeat_metrics pm = pm\<lparr> pr_heartbeatSent := Some \<lparr> metric_kind = Counter, metric_name = ''tick_storm_heartbeat_sent_total'', metric_help = ''Number of heartbeats sent'',
       metric_labels = [''instance_id''], metric_buckets = None \<rparr>,
     pr_heartbeatsRecv := Some \<lparr> metric_kind = Counter, metric_name = ''tick_storm_heartbeats_recv_total'', metric_help = ''Total heartbeats received'',
       metric_labels = [], metric_buckets = None \<rparr>,
     pr_errorsByType := Some \<lparr> metric_kind = Counter, metric_name = ''tick_storm_errors_total'', metric_help = ''Total errors by type'',
       metric_labels = [''error_type'', ''error_code''], metric_buckets = None \<rparr>,
     pr_protocolErrors := Some \<lparr> metric_kind = Counter, metric_name = ''tick_storm_protocol_errors_total'', metric_help = ''Number of protocol errors'',
       metric_labels = [''instance_id'', ''error_type''], metric_buckets = None \<rparr>,
     pr_memoryUsage := Some \<lparr> metric_kind = Gauge, metric_name = ''tick_storm_memory_usage_bytes'', metric_help = ''Current memory usage in bytes'',
       metric_labels = [], metric_buckets = None \<rparr> \<rparr>"

definition init_resource_metrics :: "PrometheusMetrics \<Rightarrow> PrometheusMetrics" where
  "init_resource_metrics pm = pm\<lparr> pr_goroutineCount := Some \<lparr> metric_kind = Gauge, metric_name = ''tick_storm_goroutines'', metric_help = ''Current number of goroutines'',
       metric_labels = [], metric_buckets = None \<rparr>,
     pr_gcDuration := Some \<lparr> metric_kind = Histogram, metric_name = ''tick_storm_gc_duration_seconds'', metric_help = ''Garbage collection duration in seconds'',
       metric_labels = [], metric_buckets = Some exponential_buckets \<rparr>,
     pr_subscriptionCount := Some \<lparr> metric_kind = Gauge, metric_name = ''tick_storm_subscriptions_current'', metric_help = ''Current number of subscriptions'',
       metric_labels = [''instance_id'', ''symbol''], metric_buckets = None \<rparr>,
     pr_messagesSent := Some \<lparr> metric_kind = Counter, metric_name = ''tick_storm_business_messages_sent_total'', metric_help = ''Total messages sent to clients'',
       metric_labels = [''instance_id'', ''symbol''], metric_buckets = None \<rparr>,
     pr_framePoolHits := Some \<lparr> metric_kind = Counter, metric_name = ''tick_storm_frame_pool_hits_total'', metric_help = ''Total frame pool hits'',
       metric_labels = [], metric_buckets = None \<rparr>,
     pr_framePoolMisses := Some \<lparr> metric_kind = Counter, metric_name = ''tick_storm_frame_pool_misses_total'', metric_help = ''Total frame pool misses'',
       metric_labels = [], metric_buckets = None \<rparr>,
     pr_bufferPoolHits := Some \<lparr> metric_kind = Counter, metric_name = ''tick_storm_buffer_pool_hits_total'', metric_help = ''Total buffer pool hits'',
       metric_labels = [], metric_buckets = None \<rparr>,
     pr_bufferPoolMisses := Some \<lparr> metric_kind = Counter, metric_name = ''tick_storm_buffer_pool_misses_total'', metric_help = ''Total buffer pool misses'',
       metric_labels = [], metric_buckets = None \<rparr> \<rparr>"

definition initializeMetrics :: PrometheusMetrics where
  "initializeMetrics = init_resource_metrics (init_heartbeat_metrics (init_performance_metrics (init_connection_metrics nil_metrics)))"

definition registerMetrics :: "'r prom_lib \<Rightarrow> PrometheusMetrics \<Rightarrow> 'r \<Rightarrow> 'r outcome" where
  "registerMetrics lib pm r = (case those [pr_activeConnections pm, pr_totalConnections pm, pr_connectionDuration pm, pr_connectionErrors pm,
     pr_messagesSentTotal pm, pr_messagesRecvTotal pm, pr_bytesSentTotal pm, pr_bytesRecvTotal pm,
     pr_publishLatency pm, pr_writeLatency pm, pr_messageProcessingDuration pm, pr_writeTimeouts pm,
     pr_writeDeadlineExceeded pm, pr_authSuccess pm, pr_authFailures pm, pr_authRateLimited pm,
     pr_heartbeatTimeouts pm, pr_heartbeatSent pm, pr_heartbeatsRecv pm, pr_errorsByType pm,
     pr_protocolErrors pm, pr_memoryUsage pm, pr_goroutineCount pm, pr_gcDuration pm,
     pr_subscriptionCount pm, pr_messagesSent pm, pr_framePoolHits pm, pr_framePoolMisses pm,
     pr_bufferPoolHits pm, pr_bufferPoolMisses pm] of
     None \<Rightarrow> Panic | Some ms \<Rightarrow> MustRegister lib ms r)"

definition NewPrometheusMetricsWithRegistry :: "'r prom_lib \<Rightarrow> 'r \<Rightarrow> (PrometheusMetrics \<times> 'r) outcome" where
  "NewPrometheusMetricsWithRegistry lib registry = (case registerMetrics lib initializeMetrics registry of
     Panic \<Rightarrow> Panic | Ret r \<Rightarrow> Ret (initializeMetrics, r))"

definition NewPrometheusMetrics :: "'r prom_lib \<Rightarrow> (PrometheusMetrics \<times> 'r) outcome" where
  "NewPrometheusMetrics lib = (case registerMetrics lib initializeMetrics (NewRegistry lib) of
     Panic \<Rightarrow> Panic | Ret r \<Rightarrow> Ret (initializeMetrics, r))"

section \<open>Methods\<close>

text \<open>A method of a metric that is nil panics.\<close>

definition touch :: "'r prom_lib \<Rightarrow> metric option \<Rightarrow> string list \<Rightarrow> series_action \<Rightarrow> 'r \<Rightarrow> 'r outcome" where
  "touch lib m vs a r = (case m of None \<Rightarrow> Panic | Some m \<Rightarrow> on_series lib m vs a r)"

definition prom_IncrementActiveConnections :: "'r prom_lib \<Rightarrow> PrometheusMetrics \<Rightarrow> string \<Rightarrow> 'r \<Rightarrow> 'r outcome" where
  "prom_IncrementActiveConnections lib pm instanceID r = touch lib (pr_activeConnections pm) [instanceID] Inc r"

definition prom_DecrementActiveConnections :: "'r prom_lib \<Rightarrow> PrometheusMetrics \<Rightarrow> string \<Rightarrow> 'r \<Rightarrow> 'r outcome" where
  "prom_DecrementActiveConnections lib pm instanceID r = touch lib (pr_activeConnections pm) [instanceID] Dec r"

definition prom_IncrementTotalConnections :: "'r prom_lib \<Rightarrow> PrometheusMetrics \<Rightarrow> string \<Rightarrow> 'r \<Rightarrow> 'r outcome" where
  "prom_IncrementTotalConnections lib pm instanceID r = touch lib (pr_totalConnections pm) [instanceID] Inc r"

definition prom_RecordConnectionDuration :: "'r prom_lib \<Rightarrow> PrometheusMetrics \<Rightarrow> string \<Rightarrow> duration \<Rightarrow> 'r \<Rightarrow> 'r outcome" where
  "prom_RecordConnectionDuration lib pm instanceID duration r = touch lib (pr_connectionDuration pm) [instanceID] (Observe (duration_Seconds duration)) r"

definition prom_IncrementConnectionErrors :: "'r prom_lib \<Rightarrow> PrometheusMetrics \<Rightarrow> string \<Rightarrow> string \<Rightarrow> 'r \<Rightarrow> 'r outcome" where
  "prom_IncrementConnectionErrors lib pm instanceID errorType r = touch lib (pr_connectionErrors pm) [instanceID, errorType] Inc r"

definition prom_IncrementAuthSuccess :: "'r prom_lib \<Rightarrow> PrometheusMetrics \<Rightarrow> string \<Rightarrow> 'r \<Rightarrow> 'r outcome" where
  "prom_IncrementAuthSuccess lib pm instanceID r = touch lib (pr_authSuccess pm) [instanceID] Inc r"

definition prom_IncrementAuthFailure :: "'r prom_lib \<Rightarrow> PrometheusMetrics \<Rightarrow> string \<Rightarrow> string \<Rightarrow> 'r \<Rightarrow> 'r outcome" where
  "prom_IncrementAuthFailure lib pm instanceID reason r = touch lib (pr_authFailures pm) [instanceID, reason] Inc r"

definition prom_IncrementAuthRateLimited :: "'r prom_lib \<Rightarrow> PrometheusMetrics \<Rightarrow> string \<Rightarrow> 'r \<Rightarrow> 'r outcome" where
  "prom_IncrementAuthRateLimited lib pm instanceID r = touch lib (pr_authRateLimited pm) [] Inc r"

definition prom_IncrementMessagesSent :: "'r prom_lib \<Rightarrow> PrometheusMetrics \<Rightarrow> string \<Rightarrow> string \<Rightarrow> 'r \<Rightarrow> 'r outcome" where
  "prom_IncrementMessagesSent lib pm messageType subscriptionMode r = touch lib (pr_messagesSentTotal pm) [messageType, subscriptionMode] Inc r"

definition prom_IncrementMessagesReceived :: "'r prom_lib \<Rightarrow> PrometheusMetrics \<Rightarrow> string \<Rightarrow> 'r \<Rightarrow> 'r outcome" where
  "prom_IncrementMessagesReceived lib pm messageType r = touch lib (pr_messagesRecvTotal pm) [messageType] Inc r"

definition prom_AddBytesSent :: "'r prom_lib \<Rightarrow> PrometheusMetrics \<Rightarrow> string \<Rightarrow> int \<Rightarrow> 'r \<Rightarrow> 'r outcome" where
  "prom_AddBytesSent lib pm connectionType bytes r = touch lib (pr_bytesSentTotal pm) [connectionType] (Add (f64_of_int bytes)) r"

definition prom_AddBytesReceived :: "'r prom_lib \<Rightarrow> PrometheusMetrics \<Rightarrow> string \<Rightarrow> int \<Rightarrow> 'r \<Rightarrow> 'r outcome" where
  "prom_AddBytesReceived lib pm connectionType bytes r = touch lib (pr_bytesRecvTotal pm) [connectionType] (Add (f64_of_int bytes)) r"

definition prom_RecordPublishLatency :: "'r prom_lib \<Rightarrow> PrometheusMetrics \<Rightarrow> duration \<Rightarrow> 'r \<Rightarrow> 'r outcome" where
  "prom_RecordPublishLatency lib pm duration r = touch lib (pr_publishLatency pm) [] (Observe (duration_Seconds duration)) r"

definition prom_RecordWriteLatency :: "'r prom_lib \<Rightarrow> PrometheusMetrics \<Rightarrow> duration \<Rightarrow> 'r \<Rightarrow> 'r outcome" where
  "prom_RecordWriteLatency lib pm duration r = touch lib (pr_writeLatency pm) [] (Observe (duration_Seconds duration)) r"

definition prom_RecordMessageProcessingDuration :: "'r prom_lib \<Rightarrow> PrometheusMetrics \<Rightarrow> duration \<Rightarrow> 'r \<Rightarrow> 'r outcome" where
  "prom_RecordMessageProcessingDuration lib pm duration r = touch lib (pr_messageProcessingDuration pm) [] (Observe (duration_Seconds duration)) r"

definition prom_IncrementWriteTimeouts :: "'r prom_lib \<Rightarrow> PrometheusMetrics \<Rightarrow> 'r \<Rightarrow> 'r outcome" where
  "prom_IncrementWriteTimeouts lib pm r = touch lib (pr_writeTimeouts pm) [] Inc r"

definition prom_IncrementWriteDeadlineExceeded :: "'r prom_lib \<Rightarrow> PrometheusMetrics \<Rightarrow> 'r \<Rightarrow> 'r outcome" where
  "prom_IncrementWriteDeadlineExceeded lib pm r = touch lib (pr_writeDeadlineExceeded pm) [] Inc r"

definition prom_IncrementHeartbeatTimeouts :: "'r prom_lib \<Rightarrow> PrometheusMetrics \<Rightarrow> 'r \<Rightarrow> 'r outcome" where
  "prom_IncrementHeartbeatTimeouts lib pm r = touch lib (pr_heartbeatTimeouts pm) [] Inc r"

definition prom_IncrementHeartbeatSent :: "'r prom_lib \<Rightarrow> PrometheusMetrics \<Rightarrow> string \<Rightarrow> 'r \<Rightarrow> 'r outcome" where
  "prom_IncrementHeartbeatSent lib pm instanceID r = touch lib (pr_heartbeatSent pm) [instanceID] Inc r"

definition prom_IncrementHeartbeatsReceived :: "'r prom_lib \<Rightarrow> PrometheusMetrics \<Rightarrow> 'r \<Rightarrow> 'r outcome" where
  "prom_IncrementHeartbeatsReceived lib pm r = touch lib (pr_heartbeatsRecv pm) [] Inc r"

definition prom_IncrementErrorsByType :: "'r prom_lib \<Rightarrow> PrometheusMetrics \<Rightarrow> string \<Rightarrow> string \<Rightarrow> 'r \<Rightarrow> 'r outcome" where
  "prom_IncrementErrorsByType lib pm errorType errorCode r = touch lib (pr_errorsByType pm) [errorType, errorCode] Inc r"

definition prom_IncrementProtocolErrors :: "'r prom_lib \<Rightarrow> PrometheusMetrics \<Rightarrow> string \<Rightarrow> string \<Rightarrow> 'r \<Rightarrow> 'r outcome" where
  "prom_IncrementProtocolErrors lib pm instanceID errorType r = touch lib (pr_protocolErrors pm) [instanceID, errorType] Inc r"

definition prom_UpdateMemoryUsage :: "'r prom_lib \<Rightarrow> PrometheusMetrics \<Rightarrow> u64 \<Rightarrow> 'r \<Rightarrow> 'r outcome" where
  "prom_UpdateMemoryUsage lib pm bytes r = touch lib (pr_memoryUsage pm) [] (Set (f64_of_int (uint bytes))) r"

definition prom_UpdateGoroutineCount :: "'r prom_lib \<Rightarrow> PrometheusMetrics \<Rightarrow> int \<Rightarrow> 'r \<Rightarrow> 'r outcome" where
  "prom_UpdateGoroutineCount lib pm count r = touch lib (pr_goroutineCount pm) [] (Set (f64_of_int count)) r"

definition prom_RecordGCDuration :: "'r prom_lib \<Rightarrow> PrometheusMetrics \<Rightarrow> duration \<Rightarrow> 'r \<Rightarrow> 'r outcome" where
  "prom_RecordGCDuration lib pm duration r = touch lib (pr_gcDuration pm) [] (Observe (duration_Seconds duration)) r"

definition prom_SetSubscriptionCount :: "'r prom_lib \<Rightarrow> PrometheusMetrics \<Rightarrow> string \<Rightarrow> string \<Rightarrow> int \<Rightarrow> 'r \<Rightarrow> 'r outcome" where
  "prom_SetSubscriptionCount lib pm instanceID symbol count r = touch lib (pr_subscriptionCount pm) [instanceID, symbol] (Set (f64_of_int count)) r"

definition prom_IncrementBusinessMessagesSent :: "'r prom_lib \<Rightarrow> PrometheusMetrics \<Rightarrow> string \<Rightarrow> string \<Rightarrow> 'r \<Rightarrow> 'r outcome" where
  "prom_IncrementBusinessMessagesSent lib pm instanceID symbol r = touch lib (pr_messagesSent pm) [instanceID, symbol] Inc r"

definition prom_IncrementFramePoolHits :: "'r prom_lib \<Rightarrow> PrometheusMetrics \<Rightarrow> 'r \<Rightarrow> 'r outcome" where
  "prom_IncrementFramePoolHits lib pm r = touch lib (pr_framePoolHits pm) [] Inc r"

definition prom_IncrementFramePoolMisses :: "'r prom_lib \<Rightarrow> PrometheusMetrics \<Rightarrow> 'r \<Rightarrow> 'r outcome" where
  "prom_IncrementFramePoolMisses lib pm r = touch lib (pr_framePoolMisses pm) [] Inc r"

definition prom_IncrementBufferPoolHits :: "'r prom_lib \<Rightarrow> PrometheusMetrics \<Rightarrow> 'r \<Rightarrow> 'r outcome" where
  "prom_IncrementBufferPoolHits lib pm r = touch lib (pr_bufferPoolHits pm) [] Inc r"

definition prom_IncrementBufferPoolMisses :: "'r prom_lib \<Rightarrow> PrometheusMetrics \<Rightarrow> 'r \<Rightarrow> 'r outcome" where
  "prom_IncrementBufferPoolMisses lib pm r = touch lib (pr_bufferPoolMisses pm) [] Inc r"

text \<open>One tick of the collector: \<open>alloc\<close> and \<open>routines\<close> are what the runtime reports.\<close>

definition collect_system :: "'r prom_lib \<Rightarrow> PrometheusMetrics \<Rightarrow> u64 \<Rightarrow> int \<Rightarrow> 'r \<Rightarrow> 'r outcome" where
  "collect_system lib pm alloc routines r = (case prom_UpdateMemoryUsage lib pm alloc r of
     Panic \<Rightarrow> Panic | Ret r \<Rightarrow> prom_UpdateGoroutineCount lib pm routines r)"

section \<open>No panic\<close>

text \<open>A call of a method.\<close>

datatype prom_call =
  CallIncrementActiveConnections string
| CallDecrementActiveConnections string
| CallIncrementTotalConnections string
| CallRecordConnectionDuration string duration
| CallIncrementConnectionErrors string string
| CallIncrementAuthSuccess string
| CallIncrementAuthFailure string string
| CallIncrementAuthRateLimited string
| CallIncrementMessagesSent string string
| CallIncrementMessagesReceived string
| CallAddBytesSent string int
| CallAddBytesReceived string int
| CallRecordPublishLatency duration
| CallRecordWriteLatency duration
| CallRecordMessageProcessingDuration duration
| CallIncrementWriteTimeouts 
| CallIncrementWriteDeadlineExceeded 
| CallIncrementHeartbeatTimeouts 
| CallIncrementHeartbeatSent string
| CallIncrementHeartbeatsReceived 
| CallIncrementErrorsByType string string
| CallIncrementProtocolErrors string string
| CallUpdateMemoryUsage u64
| CallUpdateGoroutineCount int
| CallRecordGCDuration duration
| CallSetSubscriptionCount string string int
| CallIncrementBusinessMessagesSent string string
| CallIncrementFramePoolHits 
| CallIncrementFramePoolMisses 
| CallIncrementBufferPoolHits 
| CallIncrementBufferPoolMisses

fun prom_do :: "'r prom_lib \<Rightarrow> PrometheusMetrics \<Rightarrow> prom_call \<Rightarrow> 'r \<Rightarrow> 'r outcome" where
  "prom_do lib pm (CallIncrementActiveConnections x0) r = prom_IncrementActiveConnections lib pm x0 r"
| "prom_do lib pm (CallDecrementActiveConnections x0) r = prom_DecrementActiveConnections lib pm x0 r"
| "prom_do lib pm (CallIncrementTotalConnections x0) r = prom_IncrementTotalConnections lib pm x0 r"
| "prom_do lib pm (CallRecordConnectionDuration x0 x1) r = prom_RecordConnectionDuration lib pm x0 x1 r"
| "prom_do lib pm (CallIncrementConnectionErrors x0 x1) r = prom_IncrementConnectionErrors lib pm x0 x1 r"
| "prom_do lib pm (CallIncrementAuthSuccess x0) r = prom_IncrementAuthSuccess lib pm x0 r"
| "prom_do lib pm (CallIncrementAuthFailure x0 x1) r = prom_IncrementAuthFailure lib pm x0 x1 r"
| "prom_do lib pm (CallIncrementAuthRateLimited x0) r = prom_IncrementAuthRateLimited lib pm x0 r"
| "prom_do lib pm (CallIncrementMessagesSent x0 x1) r = prom_IncrementMessagesSent lib pm x0 x1 r"
| "prom_do lib pm (CallIncrementMessagesReceived x0) r = prom_IncrementMessagesReceived lib pm x0 r"
| "prom_do lib pm (CallAddBytesSent x0 x1) r = prom_AddBytesSent lib pm x0 x1 r"
| "prom_do lib pm (CallAddBytesReceived x0 x1) r = prom_AddBytesReceived lib pm x0 x1 r"
| "prom_do lib pm (CallRecordPublishLatency x0) r = prom_RecordPublishLatency lib pm x0 r"
| "prom_do lib pm (CallRecordWriteLatency x0) r = prom_RecordWriteLatency lib pm x0 r"
| "prom_do lib pm (CallRecordMessageProcessingDuration x0) r = prom_RecordMessageProcessingDuration lib pm x0 r"
| "prom_do lib pm CallIncrementWriteTimeouts r = prom_IncrementWriteTimeouts lib pm r"
| "prom_do lib pm CallIncrementWriteDeadlineExceeded r = prom_IncrementWriteDeadlineExceeded lib pm r"
| "prom_do lib pm CallIncrementHeartbeatTimeouts r = prom_IncrementHeartbeatTimeouts lib pm r"
| "prom_do lib pm (CallIncrementHeartbeatSent x0) r = prom_IncrementHeartbeatSent lib pm x0 r"
| "prom_do lib pm CallIncrementHeartbeatsReceived r = prom_IncrementHeartbeatsReceived lib pm r"
| "prom_do lib pm (CallIncrementErrorsByType x0 x1) r = prom_IncrementErrorsByType lib pm x0 x1 r"
| "prom_do lib pm (CallIncrementProtocolErrors x0 x1) r = prom_IncrementProtocolErrors lib pm x0 x1 r"
| "prom_do lib pm (CallUpdateMemoryUsage x0) r = prom_UpdateMemoryUsage lib pm x0 r"
| "prom_do lib pm (CallUpdateGoroutineCount x0) r = prom_UpdateGoroutineCount lib pm x0 r"
| "prom_do lib pm (CallRecordGCDuration x0) r = prom_RecordGCDuration lib pm x0 r"
| "prom_do lib pm (CallSetSubscriptionCount x0 x1 x2) r = prom_SetSubscriptionCount lib pm x0 x1 x2 r"
| "prom_do lib pm (CallIncrementBusinessMessagesSent x0 x1) r = prom_IncrementBusinessMessagesSent lib pm x0 x1 r"
| "prom_do lib pm CallIncrementFramePoolHits r = prom_IncrementFramePoolHits lib pm r"
| "prom_do lib pm CallIncrementFramePoolMisses r = prom_IncrementFramePoolMisses lib pm r"
| "prom_do lib pm CallIncrementBufferPoolHits r = prom_IncrementBufferPoolHits lib pm r"
| "prom_do lib pm CallIncrementBufferPoolMisses r = prom_IncrementBufferPoolMisses lib pm r"

text \<open>The bytes of a transfer are not negative.\<close>

fun call_ok :: "prom_call \<Rightarrow> bool" where
  "call_ok (CallAddBytesSent _ n) \<longleftrightarrow> 0 \<le> n"
| "call_ok (CallAddBytesReceived _ n) \<longleftrightarrow> 0 \<le> n"
| "call_ok _ \<longleftrightarrow> True"

text \<open>The action fits the kind of metric; a counter refuses to go down.\<close>

fun fits :: "series_action \<Rightarrow> metric_kind \<Rightarrow> bool" where
  "fits Inc k \<longleftrightarrow> k \<noteq> Histogram"
| "fits Dec k \<longleftrightarrow> k = Gauge"
| "fits (Add x) k \<longleftrightarrow> k = Gauge \<or> k = Counter \<and> \<not> f64_lt x (Fin 0)"
| "fits (Set x) k \<longleftrightarrow> k = Gauge"
| "fits (Observe x) k \<longleftrightarrow> k = Histogram"

text \<open>
  What the documentation of the library says: registering panics only on a name that is already taken, a method of a series only
  when the number of label values is not that of the labels or the action does not fit.
\<close>

definition documented :: "'r prom_lib \<Rightarrow> bool" where
  "documented lib \<longleftrightarrow> registered lib (NewRegistry lib) = {} \<and>
     (\<forall>ms r. distinct (map metric_name ms) \<and> set (map metric_name ms) \<inter> registered lib r = {} \<longrightarrow> MustRegister lib ms r \<noteq> Panic) \<and>
     (\<forall>m vs a r. length vs = length (metric_labels m) \<and> fits a (metric_kind m) \<longrightarrow> on_series lib m vs a r \<noteq> Panic)"

lemmas metric_defs = initializeMetrics_def init_resource_metrics_def init_heartbeat_metrics_def init_performance_metrics_def init_connection_metrics_def nil_metrics_def
lemmas method_defs = prom_IncrementActiveConnections_def prom_DecrementActiveConnections_def prom_IncrementTotalConnections_def prom_RecordConnectionDuration_def prom_IncrementConnectionErrors_def prom_IncrementAuthSuccess_def prom_IncrementAuthFailure_def prom_IncrementAuthRateLimited_def prom_IncrementMessagesSent_def prom_IncrementMessagesReceived_def prom_AddBytesSent_def prom_AddBytesReceived_def prom_RecordPublishLatency_def prom_RecordWriteLatency_def prom_RecordMessageProcessingDuration_def prom_IncrementWriteTimeouts_def prom_IncrementWriteDeadlineExceeded_def prom_IncrementHeartbeatTimeouts_def prom_IncrementHeartbeatSent_def prom_IncrementHeartbeatsReceived_def prom_IncrementErrorsByType_def prom_IncrementProtocolErrors_def prom_UpdateMemoryUsage_def prom_UpdateGoroutineCount_def prom_RecordGCDuration_def prom_SetSubscriptionCount_def prom_IncrementBusinessMessagesSent_def prom_IncrementFramePoolHits_def prom_IncrementFramePoolMisses_def prom_IncrementBufferPoolHits_def prom_IncrementBufferPoolMisses_def

lemma half_even_nonneg: "0 \<le> x \<Longrightarrow> 0 \<le> half_even x"
  by (simp add: half_even_def Let_def)

lemma count_nonneg:
  assumes "0 \<le> n"
  shows "\<not> f64_lt (f64_of_int n) (Fin 0)"
proof -
  have "0 \<le> half_even (of_int n / 2 powi unit_exp (of_int n))" using assms by (intro half_even_nonneg) simp
  then have "0 \<le> nearest (of_int n)" by (simp add: nearest_def)
  then show ?thesis by (simp add: f64_of_int_def round64_def Let_def max64_def)
qed

definition all_metrics :: "metric list" where
  "all_metrics = map the [pr_activeConnections initializeMetrics, pr_totalConnections initializeMetrics, pr_connectionDuration initializeMetrics,
     pr_connectionErrors initializeMetrics, pr_messagesSentTotal initializeMetrics, pr_messagesRecvTotal initializeMetrics,
     pr_bytesSentTotal initializeMetrics, pr_bytesRecvTotal initializeMetrics, pr_publishLatency initializeMetrics,
     pr_writeLatency initializeMetrics, pr_messageProcessingDuration initializeMetrics, pr_writeTimeouts initializeMetrics,
     pr_writeDeadlineExceeded initializeMetrics, pr_authSuccess initializeMetrics, pr_authFailures initializeMetrics,
     pr_authRateLimited initializeMetrics, pr_heartbeatTimeouts initializeMetrics, pr_heartbeatSent initializeMetrics,
     pr_heartbeatsRecv initializeMetrics, pr_errorsByType initializeMetrics, pr_protocolErrors initializeMetrics,
     pr_memoryUsage initializeMetrics, pr_goroutineCount initializeMetrics, pr_gcDuration initializeMetrics,
     pr_subscriptionCount initializeMetrics, pr_messagesSent initializeMetrics, pr_framePoolHits initializeMetrics,
     pr_framePoolMisses initializeMetrics, pr_bufferPoolHits initializeMetrics, pr_bufferPoolMisses initializeMetrics]"

lemma names_distinct: "distinct (map metric_name all_metrics)"
  unfolding all_metrics_def list.map metric_defs PrometheusMetrics.select_convs PrometheusMetrics.update_convs option.sel metric.select_convs by code_simp

lemma registered_all: "registerMetrics lib initializeMetrics r = MustRegister lib all_metrics r"
  by (simp add: registerMetrics_def all_metrics_def metric_defs)

lemma method_ok:
  assumes "documented lib" "call_ok c"
  shows "prom_do lib initializeMetrics c r \<noteq> Panic"
proof -
  have "on_series lib m vs a r \<noteq> Panic" if "length vs = length (metric_labels m)" "fits a (metric_kind m)" for m vs a
    using assms(1) that by (simp add: documented_def)
  then show ?thesis using assms(2) by (cases c) (simp_all add: method_defs touch_def metric_defs count_nonneg)
qed


text \<open>A library that only remembers names.\<close>

definition sample_lib :: "string set prom_lib" where
  "sample_lib = \<lparr> NewRegistry = {}, registered = \<lambda>r. r,
     MustRegister = \<lambda>ms r. if distinct (map metric_name ms) \<and> set (map metric_name ms) \<inter> r = {} then Ret (r \<union> set (map metric_name ms)) else Panic,
     on_series = \<lambda>m vs a r. if length vs = length (metric_labels m) \<and> fits a (metric_kind m) then Ret r else Panic \<rparr>"


end
