(* ===== verification/ObjectPools.thy ===== *)
theory ObjectPools
  imports Messages Runs
begin

text \<open>
  \<open>internal/server/pool.go\<close>: the object pools.  A \<open>sync.Pool\<close> is the list of its items.  \<open>Get\<close> returns any of them or a new object, as \<open>pick\<close>
  says, and the garbage collector may drop items at any time.  Objects are values: the model does not follow an object that a caller
  keeps after it was put back.  \<open>Reset\<close> of a message is generated code and a parameter.  A slice of bytes has its contents and its capacity.
\<close>

section \<open>Pools\<close>

definition pool_get :: "nat option \<Rightarrow> 'a \<Rightarrow> 'a list \<Rightarrow> 'a \<times> 'a list" where
  "pool_get pick new items = (case pick of
     Some i \<Rightarrow> if i < length items then (items ! i, take i items @ drop (Suc i) items) else (new, items)
   | None \<Rightarrow> (new, items))"

record buffer =
  buf_bytes :: bytes
  buf_cap :: nat

record ObjectPools =
  framePool :: "Frame list"
  frameDataPool :: "buffer list"
  authRequestPool :: "AuthRequest list"
  subscribeRequestPool :: "SubscribeRequest list"
  heartbeatRequestPool :: "HeartbeatRequest list"
  tickPool :: "Tick list"
  dataBatchPool :: "DataBatch list"
  errorResponsePool :: "ErrorResponse list"
  ackResponsePool :: "AckResponse list"
  heartbeatRespPool :: "HeartbeatResponse list"
  readBufferPool :: "buffer list"
  writeBufferPool :: "buffer list"

text \<open>Zero values of Go.\<close>

definition zero_frame :: Frame where
  "zero_frame = \<lparr> Magic = (0, 0), Version = 0, Type = 0, Length = 0, Payload = [], CRC = 0 \<rparr>"

definition zero_Auth :: AuthRequest where
  "zero_Auth = \<lparr> auth_Username = [], auth_Password = [], auth_ClientId = [], auth_Version = [] \<rparr>"

definition zero_Subscribe :: SubscribeRequest where
  "zero_Subscribe = \<lparr> sub_Mode = 0, sub_Symbols = [], sub_StartTimeMs = 0, sub_Metadata = [] \<rparr>"

definition zero_Heartbeat :: HeartbeatRequest where
  "zero_Heartbeat = \<lparr> hb_TimestampMs = 0, hb_Sequence = 0 \<rparr>"

definition zero_Tick :: Tick where
  "zero_Tick = \<lparr> tick_Symbol = [], tick_TimestampMs = 0, tick_Price = Fin 0, tick_Volume = Fin 0, tick_Bid = Fin 0, tick_Ask = Fin 0,
     tick_BidSize = 0, tick_AskSize = 0, tick_Mode = 0, tick_Metadata = [] \<rparr>"

definition zero_Batch :: DataBatch where
  "zero_Batch = \<lparr> batch_Ticks = [], batch_BatchTimestampMs = 0, batch_BatchSequence = 0, batch_IsSnapshot = False \<rparr>"

definition zero_Error :: ErrorResponse where
  "zero_Error = \<lparr> err_Code = 0, err_Message = [], err_Details = [], err_TimestampMs = 0 \<rparr>"

definition zero_Ack :: AckResponse where
  "zero_Ack = \<lparr> ack_AckType = 0, ack_Success = False, ack_Message = [], ack_TimestampMs = 0, ack_Metadata = [] \<rparr>"

definition zero_Pong :: HeartbeatResponse where
  "zero_Pong = \<lparr> hbr_ClientTimestampMs = 0, hbr_ServerTimestampMs = 0, hbr_Sequence = 0 \<rparr>"

text \<open>The generated \<open>Reset\<close> methods, and what their documentation says of them.\<close>

record proto_reset =
  reset_Auth :: "AuthRequest \<Rightarrow> AuthRequest"
  reset_Subscribe :: "SubscribeRequest \<Rightarrow> SubscribeRequest"
  reset_Heartbeat :: "HeartbeatRequest \<Rightarrow> HeartbeatRequest"
  reset_Tick :: "Tick \<Rightarrow> Tick"
  reset_Batch :: "DataBatch \<Rightarrow> DataBatch"
  reset_Error :: "ErrorResponse \<Rightarrow> ErrorResponse"
  reset_Ack :: "AckResponse \<Rightarrow> AckResponse"
  reset_Pong :: "HeartbeatResponse \<Rightarrow> HeartbeatResponse"

definition clears :: "proto_reset \<Rightarrow> bool" where
  "clears pr \<longleftrightarrow> (\<forall>x. reset_Auth pr x = zero_Auth) \<and> (\<forall>x. reset_Subscribe pr x = zero_Subscribe) \<and> (\<forall>x. reset_Heartbeat pr x = zero_Heartbeat) \<and>
     (\<forall>x. reset_Tick pr x = zero_Tick) \<and> (\<forall>x. reset_Batch pr x = zero_Batch) \<and> (\<forall>x. reset_Error pr x = zero_Error) \<and>
     (\<forall>x. reset_Ack pr x = zero_Ack) \<and> (\<forall>x. reset_Pong pr x = zero_Pong)"

section \<open>Operations\<close>

definition NewObjectPools :: ObjectPools where
  "NewObjectPools = \<lparr> framePool = [], frameDataPool = [], authRequestPool = [], subscribeRequestPool = [], heartbeatRequestPool = [], tickPool = [],
     dataBatchPool = [], errorResponsePool = [], ackResponsePool = [], heartbeatRespPool = [], readBufferPool = [], writeBufferPool = [] \<rparr>"

definition GetFrame :: "nat option \<Rightarrow> ObjectPools \<Rightarrow> Frame \<times> ObjectPools" where
  "GetFrame pick p = (case pool_get pick zero_frame (framePool p) of (frame, items) \<Rightarrow>
     (frame\<lparr> Magic := (0, 0), Version := 0, Type := 0, Length := 0, Payload := [], CRC := 0 \<rparr>, p\<lparr> framePool := items \<rparr>))"

definition PutFrame :: "Frame option \<Rightarrow> ObjectPools \<Rightarrow> ObjectPools" where
  "PutFrame frame p = (case frame of Some f \<Rightarrow> p\<lparr> framePool := f # framePool p \<rparr> | None \<Rightarrow> p)"

definition GetFrameData :: "nat option \<Rightarrow> ObjectPools \<Rightarrow> buffer \<times> ObjectPools" where
  "GetFrameData pick p = (case pool_get pick \<lparr> buf_bytes = [], buf_cap = 1024 \<rparr> (frameDataPool p) of (b, items) \<Rightarrow>
     (b\<lparr> buf_bytes := [] \<rparr>, p\<lparr> frameDataPool := items \<rparr>))"

definition PutFrameData :: "buffer \<Rightarrow> ObjectPools \<Rightarrow> ObjectPools" where
  "PutFrameData b p = (if buf_cap b \<le> 8192 then p\<lparr> frameDataPool := b # frameDataPool p \<rparr> else p)"

definition GetAuthRequest :: "proto_reset \<Rightarrow> nat option \<Rightarrow> ObjectPools \<Rightarrow> AuthRequest \<times> ObjectPools" where
  "GetAuthRequest pr pick p = (case pool_get pick zero_Auth (authRequestPool p) of (x, items) \<Rightarrow> (reset_Auth pr x, p\<lparr> authRequestPool := items \<rparr>))"

definition PutAuthRequest :: "AuthRequest option \<Rightarrow> ObjectPools \<Rightarrow> ObjectPools" where
  "PutAuthRequest x p = (case x of Some x \<Rightarrow> p\<lparr> authRequestPool := x # authRequestPool p \<rparr> | None \<Rightarrow> p)"

definition GetSubscribeRequest :: "proto_reset \<Rightarrow> nat option \<Rightarrow> ObjectPools \<Rightarrow> SubscribeRequest \<times> ObjectPools" where
  "GetSubscribeRequest pr pick p = (case pool_get pick zero_Subscribe (subscribeRequestPool p) of (x, items) \<Rightarrow> (reset_Subscribe pr x, p\<lparr> subscribeRequestPool := items \<rparr>))"

definition PutSubscribeRequest :: "SubscribeRequest option \<Rightarrow> ObjectPools \<Rightarrow> ObjectPools" where
  "PutSubscribeRequest x p = (case x of Some x \<Rightarrow> p\<lparr> subscribeRequestPool := x # subscribeRequestPool p \<rparr> | None \<Rightarrow> p)"

definition GetHeartbeatRequest :: "proto_reset \<Rightarrow> nat option \<Rightarrow> ObjectPools \<Rightarrow> HeartbeatRequest \<times> ObjectPools" where
  "GetHeartbeatRequest pr pick p = (case pool_get pick zero_Heartbeat (heartbeatRequestPool p) of (x, items) \<Rightarrow> (reset_Heartbeat pr x, p\<lparr> heartbeatRequestPool := items \<rparr>))"

definition PutHeartbeatRequest :: "HeartbeatRequest option \<Rightarrow> ObjectPools \<Rightarrow> ObjectPools" where
  "PutHeartbeatRequest x p = (case x of Some x \<Rightarrow> p\<lparr> heartbeatRequestPool := x # heartbeatRequestPool p \<rparr> | None \<Rightarrow> p)"

definition GetTick :: "proto_reset \<Rightarrow> nat option \<Rightarrow> ObjectPools \<Rightarrow> Tick \<times> ObjectPools" where
  "GetTick pr pick p = (case pool_get pick zero_Tick (tickPool p) of (x, items) \<Rightarrow> (reset_Tick pr x, p\<lparr> tickPool := items \<rparr>))"

definition PutTick :: "Tick option \<Rightarrow> ObjectPools \<Rightarrow> ObjectPools" where
  "PutTick x p = (case x of Some x \<Rightarrow> p\<lparr> tickPool := x # tickPool p \<rparr> | None \<Rightarrow> p)"

definition GetErrorResponse :: "proto_reset \<Rightarrow> nat option \<Rightarrow> ObjectPools \<Rightarrow> ErrorResponse \<times> ObjectPools" where
  "GetErrorResponse pr pick p = (case pool_get pick zero_Error (errorResponsePool p) of (x, items) \<Rightarrow> (reset_Error pr x, p\<lparr> errorResponsePool := items \<rparr>))"

definition PutErrorResponse :: "ErrorResponse option \<Rightarrow> ObjectPools \<Rightarrow> ObjectPools" where
  "PutErrorResponse x p = (case x of Some x \<Rightarrow> p\<lparr> errorResponsePool := x # errorResponsePool p \<rparr> | None \<Rightarrow> p)"

definition GetAckResponse :: "proto_reset \<Rightarrow> nat option \<Rightarrow> ObjectPools \<Rightarrow> AckResponse \<times> ObjectPools" where
  "GetAckResponse pr pick p = (case pool_get pick zero_Ack (ackResponsePool p) of (x, items) \<Rightarrow> (reset_Ack pr x, p\<lparr> ackResponsePool := items \<rparr>))"

definition PutAckResponse :: "AckResponse option \<Rightarrow> ObjectPools \<Rightarrow> ObjectPools" where
  "PutAckResponse x p = (case x of Some x \<Rightarrow> p\<lparr> ackResponsePool := x # ackResponsePool p \<rparr> | None \<Rightarrow> p)"

definition GetHeartbeatResponse :: "proto_reset \<Rightarrow> nat option \<Rightarrow> ObjectPools \<Rightarrow> HeartbeatResponse \<times> ObjectPools" where
  "GetHeartbeatResponse pr pick p = (case pool_get pick zero_Pong (heartbeatRespPool p) of (x, items) \<Rightarrow> (reset_Pong pr x, p\<lparr> heartbeatRespPool := items \<rparr>))"

definition PutHeartbeatResponse :: "HeartbeatResponse option \<Rightarrow> ObjectPools \<Rightarrow> ObjectPools" where
  "PutHeartbeatResponse x p = (case x of Some x \<Rightarrow> p\<lparr> heartbeatRespPool := x # heartbeatRespPool p \<rparr> | None \<Rightarrow> p)"

definition GetDataBatch :: "proto_reset \<Rightarrow> nat option \<Rightarrow> ObjectPools \<Rightarrow> DataBatch \<times> ObjectPools" where
  "GetDataBatch pr pick p = (case pool_get pick zero_Batch (dataBatchPool p) of (x, items) \<Rightarrow>
     ((reset_Batch pr x)\<lparr> batch_Ticks := [] \<rparr>, p\<lparr> dataBatchPool := items \<rparr>))"

definition PutDataBatch :: "DataBatch option \<Rightarrow> ObjectPools \<Rightarrow> ObjectPools" where
  "PutDataBatch x p = (case x of
     Some x \<Rightarrow> if length (batch_Ticks x) \<le> 200 then p\<lparr> dataBatchPool := x # dataBatchPool p \<rparr> else p
   | None \<Rightarrow> p)"

definition GetReadBuffer :: "nat option \<Rightarrow> ObjectPools \<Rightarrow> buffer \<times> ObjectPools" where
  "GetReadBuffer pick p = (case pool_get pick \<lparr> buf_bytes = replicate 4096 0, buf_cap = 4096 \<rparr> (readBufferPool p) of (b, items) \<Rightarrow>
     (b, p\<lparr> readBufferPool := items \<rparr>))"

definition PutReadBuffer :: "buffer \<Rightarrow> ObjectPools \<Rightarrow> ObjectPools" where
  "PutReadBuffer b p = (if buf_cap b = 4096 then p\<lparr> readBufferPool := b # readBufferPool p \<rparr> else p)"

definition GetWriteBuffer :: "nat option \<Rightarrow> ObjectPools \<Rightarrow> buffer \<times> ObjectPools" where
  "GetWriteBuffer pick p = (case pool_get pick \<lparr> buf_bytes = [], buf_cap = 4096 \<rparr> (writeBufferPool p) of (b, items) \<Rightarrow>
     (b\<lparr> buf_bytes := [] \<rparr>, p\<lparr> writeBufferPool := items \<rparr>))"

definition PutWriteBuffer :: "buffer \<Rightarrow> ObjectPools \<Rightarrow> ObjectPools" where
  "PutWriteBuffer b p = (if buf_cap b \<le> 8192 then p\<lparr> writeBufferPool := b # writeBufferPool p \<rparr> else p)"

section \<open>Runs\<close>

text \<open>Any operation, in any order.  A garbage collection leaves some of the items of each pool.\<close>

inductive pools_step :: "proto_reset \<Rightarrow> ObjectPools \<Rightarrow> ObjectPools \<Rightarrow> bool" for pr where
  get_Frame: "pools_step pr p (snd (GetFrame pick p))"
| put_Frame: "pools_step pr p (PutFrame x p)"
| get_FrameData: "pools_step pr p (snd (GetFrameData pick p))"
| put_FrameData: "pools_step pr p (PutFrameData x p)"
| get_ReadBuffer: "pools_step pr p (snd (GetReadBuffer pick p))"
| put_ReadBuffer: "pools_step pr p (PutReadBuffer x p)"
| get_WriteBuffer: "pools_step pr p (snd (GetWriteBuffer pick p))"
| put_WriteBuffer: "pools_step pr p (PutWriteBuffer x p)"
| get_AuthRequest: "pools_step pr p (snd (GetAuthRequest pr pick p))"
| put_AuthRequest: "pools_step pr p (PutAuthRequest x p)"
| get_SubscribeRequest: "pools_step pr p (snd (GetSubscribeRequest pr pick p))"
| put_SubscribeRequest: "pools_step pr p (PutSubscribeRequest x p)"
| get_HeartbeatRequest: "pools_step pr p (snd (GetHeartbeatRequest pr pick p))"
| put_HeartbeatRequest: "pools_step pr p (PutHeartbeatRequest x p)"
| get_Tick: "pools_step pr p (snd (GetTick pr pick p))"
| put_Tick: "pools_step pr p (PutTick x p)"
| get_ErrorResponse: "pools_step pr p (snd (GetErrorResponse pr pick p))"
| put_ErrorResponse: "pools_step pr p (PutErrorResponse x p)"
| get_AckResponse: "pools_step pr p (snd (GetAckResponse pr pick p))"
| put_AckResponse: "pools_step pr p (PutAckResponse x p)"
| get_HeartbeatResponse: "pools_step pr p (snd (GetHeartbeatResponse pr pick p))"
| put_HeartbeatResponse: "pools_step pr p (PutHeartbeatResponse x p)"
| get_DataBatch: "pools_step pr p (snd (GetDataBatch pr pick p))"
| put_DataBatch: "pools_step pr p (PutDataBatch x p)"
| collect: "set (framePool q) \<subseteq> set (framePool p) \<Longrightarrow>
    set (frameDataPool q) \<subseteq> set (frameDataPool p) \<Longrightarrow>
    set (authRequestPool q) \<subseteq> set (authRequestPool p) \<Longrightarrow>
    set (subscribeRequestPool q) \<subseteq> set (subscribeRequestPool p) \<Longrightarrow>
    set (heartbeatRequestPool q) \<subseteq> set (heartbeatRequestPool p) \<Longrightarrow>
    set (tickPool q) \<subseteq> set (tickPool p) \<Longrightarrow>
    set (dataBatchPool q) \<subseteq> set (dataBatchPool p) \<Longrightarrow>
    set (errorResponsePool q) \<subseteq> set (errorResponsePool p) \<Longrightarrow>
    set (ackResponsePool q) \<subseteq> set (ackResponsePool p) \<Longrightarrow>
    set (heartbeatRespPool q) \<subseteq> set (heartbeatRespPool p) \<Longrightarrow>
    set (readBufferPool q) \<subseteq> set (readBufferPool p) \<Longrightarrow>
    set (writeBufferPool q) \<subseteq> set (writeBufferPool p) \<Longrightarrow> pools_step pr p q"

definition pools_ok :: "ObjectPools \<Rightarrow> bool" where
  "pools_ok p \<longleftrightarrow> (\<forall>b \<in> set (frameDataPool p) \<union> set (writeBufferPool p). buf_cap b \<le> 8192) \<and> (\<forall>b \<in> set (readBufferPool p). buf_cap b = 4096) \<and>
     (\<forall>x \<in> set (dataBatchPool p). length (batch_Ticks x) \<le> 200)"

lemma pool_get_parts:
  assumes "pool_get pick new items = (x, items')"
  shows "x = new \<or> x \<in> set items" "set items' \<subseteq> set items"
  using assms by (auto simp: pool_get_def split: option.splits if_splits dest: in_set_takeD in_set_dropD)

lemmas get_defs = GetFrame_def GetFrameData_def GetReadBuffer_def GetWriteBuffer_def GetDataBatch_def GetAuthRequest_def GetSubscribeRequest_def GetHeartbeatRequest_def GetTick_def GetErrorResponse_def GetAckResponse_def GetHeartbeatResponse_def
lemmas put_defs = PutFrame_def PutFrameData_def PutReadBuffer_def PutWriteBuffer_def PutDataBatch_def PutAuthRequest_def PutSubscribeRequest_def PutHeartbeatRequest_def PutTick_def PutErrorResponse_def PutAckResponse_def PutHeartbeatResponse_def

lemma pools_ok_step:
  assumes "pools_ok p" "pools_step pr p q"
  shows "pools_ok q"
  using assms(2,1)
  by (cases rule: pools_step.cases)
    (auto simp: pools_ok_def get_defs put_defs split: prod.splits option.splits dest!: pool_get_parts(2))

interpretation pools: step_invariant "pools_step pr" pools_ok for pr
  by unfold_locales (rule pools_ok_step)

text \<open>A read buffer comes back as it was put: nothing restores its length or clears it.\<close>

lemma read_buffer_stale:
  assumes "buf_cap b = 4096"
  shows "fst (GetReadBuffer (Some 0) (PutReadBuffer b p)) = b"
  using assms by (simp add: GetReadBuffer_def PutReadBuffer_def pool_get_def)

lemma buffers_bounded:
  assumes "pools_ok p"
  shows "buf_cap (fst (GetFrameData pick p)) \<le> 8192" "buf_cap (fst (GetWriteBuffer pick p)) \<le> 8192" "buf_cap (fst (GetReadBuffer pick p)) = 4096"
proof -
  have "buf_cap b \<le> 8192" if "pool_get pick \<lparr> buf_bytes = [], buf_cap = 1024 \<rparr> (frameDataPool p) = (b, l)" for b l
    using pool_get_parts(1) [OF that] assms by (auto simp: pools_ok_def)
  moreover have "buf_cap b \<le> 8192" if "pool_get pick \<lparr> buf_bytes = [], buf_cap = 4096 \<rparr> (writeBufferPool p) = (b, l)" for b l
    using pool_get_parts(1) [OF that] assms by (auto simp: pools_ok_def)
  moreover have "buf_cap b = 4096" if "pool_get pick \<lparr> buf_bytes = replicate 4096 0, buf_cap = 4096 \<rparr> (readBufferPool p) = (b, l)" for b l
    using pool_get_parts(1) [OF that] assms by (auto simp: pools_ok_def)
  ultimately show "buf_cap (fst (GetFrameData pick p)) \<le> 8192" "buf_cap (fst (GetWriteBuffer pick p)) \<le> 8192" "buf_cap (fst (GetReadBuffer pick p)) = 4096"
    by (simp_all add: get_defs split: prod.split)
qed

text \<open>
  C38: what comes out of the pools carries nothing of its former use.  After any sequence of gets, puts and garbage collections a frame and
  every message is the zero value, frame data and write buffers are empty, and no buffer is larger than 8192 bytes; read buffers, which
  are handed out as they were put back, always have 4096 bytes of capacity.
\<close>

theorem pools_clean:
  assumes "clears pr" "(pools_step pr)\<^sup>*\<^sup>* NewObjectPools p"
  shows "fst (GetFrame pick p) = zero_frame \<and> fst (GetAuthRequest pr pick p) = zero_Auth \<and> fst (GetSubscribeRequest pr pick p) = zero_Subscribe \<and>
    fst (GetHeartbeatRequest pr pick p) = zero_Heartbeat \<and> fst (GetTick pr pick p) = zero_Tick \<and> fst (GetDataBatch pr pick p) = zero_Batch \<and>
    fst (GetErrorResponse pr pick p) = zero_Error \<and> fst (GetAckResponse pr pick p) = zero_Ack \<and> fst (GetHeartbeatResponse pr pick p) = zero_Pong \<and>
    buf_bytes (fst (GetFrameData pick p)) = [] \<and> buf_bytes (fst (GetWriteBuffer pick p)) = [] \<and>
    buf_cap (fst (GetFrameData pick p)) \<le> 8192 \<and> buf_cap (fst (GetWriteBuffer pick p)) \<le> 8192 \<and> buf_cap (fst (GetReadBuffer pick p)) = 4096"
proof -
  have "pools_ok NewObjectPools" by (simp add: pools_ok_def NewObjectPools_def)
  then have "pools_ok p" by (rule pools.holds_reachable [OF assms(2)])
  moreover have "fst (GetFrame pick p) = zero_frame" by (simp add: GetFrame_def zero_frame_def split: prod.split)
  moreover have "fst (GetDataBatch pr pick p) = zero_Batch" using assms(1) by (simp add: GetDataBatch_def clears_def zero_Batch_def split: prod.split)
  moreover have "buf_bytes (fst (GetFrameData pick p)) = []" "buf_bytes (fst (GetWriteBuffer pick p)) = []" by (simp_all add: get_defs split: prod.split)
  ultimately show ?thesis using assms(1) buffers_bounded by (simp add: get_defs(6-12) clears_def split: prod.split)
qed

theorem pools_clean_witness:
  "\<exists>pr p. clears pr \<and> (pools_step pr)\<^sup>*\<^sup>* NewObjectPools p \<and> framePool p = [new_frame 1 3 [7]] \<and> fst (GetFrame (Some 0) p) = zero_frame"
proof -
  let ?pr = "\<lparr> reset_Auth = \<lambda>_. zero_Auth, reset_Subscribe = \<lambda>_. zero_Subscribe, reset_Heartbeat = \<lambda>_. zero_Heartbeat, reset_Tick = \<lambda>_. zero_Tick,
    reset_Batch = \<lambda>_. zero_Batch, reset_Error = \<lambda>_. zero_Error, reset_Ack = \<lambda>_. zero_Ack, reset_Pong = \<lambda>_. zero_Pong \<rparr>"
  let ?p = "PutFrame (Some (new_frame 1 3 [7])) NewObjectPools"
  have c: "clears ?pr" by (simp add: clears_def)
  have r: "(pools_step ?pr)\<^sup>*\<^sup>* NewObjectPools ?p" by (intro r_into_rtranclp pools_step.put_Frame)
  have "framePool ?p = [new_frame 1 3 [7]]" by (simp add: PutFrame_def NewObjectPools_def)
  then show ?thesis using c r pools_clean [OF c r, of "Some 0"] by blast
qed

end
