(* ===== verification/Constraints.thy ===== *)
theory Constraints
  imports Instance
begin

text \<open>
  \<open>internal/server/resource_constraints.go\<close>: limits of the process that the operating system enforces.  The kernel is a parameter: its state
  has an arbitrary type, \<open>setrlimit\<close> changes it or fails, \<open>getrlimit\<close> reads it.
\<close>

section \<open>Configuration\<close>

record UlimitConfig =
  MaxOpenFiles :: u64
  MaxOpenFilesSoft :: u64
  MaxMemorySize :: u64
  MaxDataSize :: u64
  MaxStackSize :: u64
  MaxProcesses :: u64
  MaxCoreSize :: u64
  MaxCPUTime :: u64
  MaxLockedMemory :: u64

definition rc_default :: UlimitConfig where
  "rc_default = \<lparr> MaxOpenFiles = 65536, MaxOpenFilesSoft = 32768, MaxMemorySize = 0, MaxDataSize = 0, MaxStackSize = 8388608, MaxProcesses = 32768,
     MaxCoreSize = 0, MaxCPUTime = 0, MaxLockedMemory = 65536 \<rparr>"

definition rc_LoadConfigFromEnv :: "environment \<Rightarrow> UlimitConfig" where
  "rc_LoadConfigFromEnv env =
    (let c = rc_default;
         c = on_opt (env_uint env ''ULIMIT_MAX_OPEN_FILES'') (\<lambda>n c. c\<lparr> MaxOpenFiles := n \<rparr>) c;
         c = on_opt (env_uint env ''ULIMIT_MAX_OPEN_FILES_SOFT'') (\<lambda>n c. c\<lparr> MaxOpenFilesSoft := n \<rparr>) c;
         c = on_opt (env_uint env ''ULIMIT_MAX_MEMORY_SIZE'') (\<lambda>n c. c\<lparr> MaxMemorySize := n \<rparr>) c;
         c = on_opt (env_uint env ''ULIMIT_MAX_DATA_SIZE'') (\<lambda>n c. c\<lparr> MaxDataSize := n \<rparr>) c;
         c = on_opt (env_uint env ''ULIMIT_MAX_STACK_SIZE'') (\<lambda>n c. c\<lparr> MaxStackSize := n \<rparr>) c;
         c = on_opt (env_uint env ''ULIMIT_MAX_PROCESSES'') (\<lambda>n c. c\<lparr> MaxProcesses := n \<rparr>) c;
         c = on_opt (env_uint env ''ULIMIT_MAX_CORE_SIZE'') (\<lambda>n c. c\<lparr> MaxCoreSize := n \<rparr>) c;
         c = on_opt (env_uint env ''ULIMIT_MAX_CPU_TIME'') (\<lambda>n c. c\<lparr> MaxCPUTime := n \<rparr>) c
     in on_opt (env_uint env ''ULIMIT_MAX_LOCKED_MEMORY'') (\<lambda>n c. c\<lparr> MaxLockedMemory := n \<rparr>) c)"

text \<open>\<open>%d\<close> of an unsigned number.\<close>

abbreviation show_u64 :: "u64 \<Rightarrow> string" where
  "show_u64 n \<equiv> show_nat (unat n)"

definition ValidateResourceLimits :: "UlimitConfig \<Rightarrow> go_error option" where
  "ValidateResourceLimits c =
    (if MaxOpenFilesSoft c > MaxOpenFiles c
     then Some (Errorf (''soft file descriptor limit ('' @ show_u64 (MaxOpenFilesSoft c) @ '') cannot exceed hard limit ('' @ show_u64 (MaxOpenFiles c) @ '')''))
     else if MaxOpenFiles c < 1024
     then Some (Errorf (''file descriptor limit ('' @ show_u64 (MaxOpenFiles c) @ '') is too low, minimum required: 1024''))
     else if MaxStackSize c > 0 \<and> MaxStackSize c < 1048576
     then Some (Errorf (''stack size limit ('' @ show_u64 (MaxStackSize c) @ '') is too low, minimum required: 1048576''))
     else if MaxProcesses c > 0 \<and> MaxProcesses c < 100
     then Some (Errorf (''process limit ('' @ show_u64 (MaxProcesses c) @ '') is too low, minimum required: 100''))
     else None)"

section \<open>Limits of the process\<close>

datatype rlimit = RLIMIT_NOFILE | RLIMIT_AS | RLIMIT_DATA | RLIMIT_STACK | RLIMIT_CORE | RLIMIT_CPU

fun rlimit_name :: "rlimit \<Rightarrow> string" where
  "rlimit_name RLIMIT_NOFILE = ''RLIMIT_NOFILE''"
| "rlimit_name RLIMIT_AS = ''RLIMIT_AS''"
| "rlimit_name RLIMIT_DATA = ''RLIMIT_DATA''"
| "rlimit_name RLIMIT_STACK = ''RLIMIT_STACK''"
| "rlimit_name RLIMIT_CORE = ''RLIMIT_CORE''"
| "rlimit_name RLIMIT_CPU = ''RLIMIT_CPU''"

record 'k kernel =
  setrlimit :: "rlimit \<Rightarrow> u64 \<times> u64 \<Rightarrow> 'k \<Rightarrow> go_error option \<times> 'k"
  getrlimit :: "'k \<Rightarrow> rlimit \<Rightarrow> go_error + u64 \<times> u64"

definition setRlimit :: "'k kernel \<Rightarrow> rlimit \<Rightarrow> u64 \<Rightarrow> u64 \<Rightarrow> 'k \<Rightarrow> go_error option \<times> 'k" where
  "setRlimit os r soft hard k = setrlimit os r (soft, hard) k"

text \<open>A limit whose failure is only logged; \<open>0\<close> leaves it alone, except for the size of core dumps.\<close>

definition try_limit :: "'k kernel \<Rightarrow> rlimit \<Rightarrow> u64 \<Rightarrow> 'k \<Rightarrow> 'k" where
  "try_limit os r n k = (if n > 0 \<or> r = RLIMIT_CORE then snd (setRlimit os r n n k) else k)"

definition ApplyResourceLimits :: "'k kernel \<Rightarrow> UlimitConfig \<Rightarrow> 'k \<Rightarrow> go_error option \<times> 'k" where
  "ApplyResourceLimits os c k = (case setRlimit os RLIMIT_NOFILE (MaxOpenFilesSoft c) (MaxOpenFiles c) k of
     (Some e, k) \<Rightarrow> (Some (Wrapf ''failed to set file descriptor limit'' e), k)
   | (None, k) \<Rightarrow>
     let k = try_limit os RLIMIT_AS (MaxMemorySize c) k;
         k = try_limit os RLIMIT_DATA (MaxDataSize c) k;
         k = try_limit os RLIMIT_STACK (MaxStackSize c) k;
         k = try_limit os RLIMIT_CORE (MaxCoreSize c) k;
         k = try_limit os RLIMIT_CPU (MaxCPUTime c) k
     in (None, k))"

text \<open>\<open>order\<close> is the order in which Go visits the map of resources.\<close>

fun GetCurrentLimits :: "'k kernel \<Rightarrow> rlimit list \<Rightarrow> 'k \<Rightarrow> go_error + (string \<rightharpoonup> u64 \<times> u64)" where
  "GetCurrentLimits os [] k = Inr (\<lambda>_. None)"
| "GetCurrentLimits os (r # order) k = (case getrlimit os k r of
     Inl e \<Rightarrow> Inl (Wrapf (''failed to get '' @ rlimit_name r) e)
   | Inr l \<Rightarrow> (case GetCurrentLimits os order k of Inl e \<Rightarrow> Inl e | Inr m \<Rightarrow> Inr (m(rlimit_name r \<mapsto> l))))"

text \<open>\<open>procs\<close> is the number of processors the Go runtime uses.\<close>

definition SetGoRuntimeLimits :: "environment \<Rightarrow> int \<Rightarrow> int \<Rightarrow> int" where
  "SetGoRuntimeLimits env numCPU procs = (if env ''GOMAXPROCS'' = [] \<and> numCPU > 0 then numCPU else procs)"

section \<open>Reports\<close>

record UsageStats =
  us_goroutines :: int
  us_memory_alloc_mb :: u64
  us_memory_sys_mb :: u64
  us_memory_heap_mb :: u64
  us_memory_stack_mb :: u64
  us_gc_cycles :: u32
  us_gc_pause_total_ns :: u64
  us_gc_pause_last_ns :: u64
  us_num_cpu :: int
  us_gomaxprocs :: int
  us_limits :: "string \<rightharpoonup> u64 \<times> u64"

definition GetResourceUsageStats :: "'k kernel \<Rightarrow> rlimit list \<Rightarrow> MemStats \<Rightarrow> int \<Rightarrow> int \<Rightarrow> int \<Rightarrow> 'k \<Rightarrow> UsageStats" where
  "GetResourceUsageStats os order m routines numCPU procs k = \<lparr> us_goroutines = routines, us_memory_alloc_mb = mem_Alloc m div 1024 div 1024,
     us_memory_sys_mb = mem_Sys m div 1024 div 1024, us_memory_heap_mb = mem_HeapAlloc m div 1024 div 1024,
     us_memory_stack_mb = mem_StackInuse m div 1024 div 1024, us_gc_cycles = mem_NumGC m, us_gc_pause_total_ns = mem_PauseTotalNs m,
     us_gc_pause_last_ns = mem_PauseNs m ! unat ((mem_NumGC m + 255) mod 256), us_num_cpu = numCPU, us_gomaxprocs = procs,
     us_limits = (case GetCurrentLimits os order k of Inr l \<Rightarrow> l | Inl _ \<Rightarrow> (\<lambda>_. None)) \<rparr>"

definition CheckResourceHealth :: "int \<Rightarrow> MemStats \<Rightarrow> string list" where
  "CheckResourceHealth routines m =
    (let heapMB = mem_HeapAlloc m div 1024 div 1024; avgPause = mem_PauseTotalNs m div ucast (mem_NumGC m) in
     (if routines > 10000 then [''High goroutine count: '' @ show_int routines] else []) @
     (if heapMB > 1024 then [''High heap memory usage: '' @ show_u64 heapMB @ '' MB''] else []) @
     (if mem_NumGC m > 0 \<and> avgPause > 10000000 then [''High GC pause time: '' @ show_u64 avgPause @ '' ns average''] else []))"

section \<open>What is applied\<close>

text \<open>What POSIX says of the two calls: a call that succeeds sets its limit, one that fails sets nothing, and no other limit changes.\<close>

definition posix :: "'k kernel \<Rightarrow> bool" where
  "posix os \<longleftrightarrow> (\<forall>r l k e k'. setrlimit os r l k = (e, k') \<longrightarrow>
     getrlimit os k' = (if e = None then (getrlimit os k)(r := Inr l) else getrlimit os k))"

lemma posixD: "posix os \<Longrightarrow> setrlimit os r l k = (e, k') \<Longrightarrow> getrlimit os k' = (if e = None then (getrlimit os k)(r := Inr l) else getrlimit os k)"
  unfolding posix_def by blast

fun configured :: "UlimitConfig \<Rightarrow> rlimit \<Rightarrow> u64 \<times> u64" where
  "configured c RLIMIT_NOFILE = (MaxOpenFilesSoft c, MaxOpenFiles c)"
| "configured c RLIMIT_AS = (MaxMemorySize c, MaxMemorySize c)"
| "configured c RLIMIT_DATA = (MaxDataSize c, MaxDataSize c)"
| "configured c RLIMIT_STACK = (MaxStackSize c, MaxStackSize c)"
| "configured c RLIMIT_CORE = (MaxCoreSize c, MaxCoreSize c)"
| "configured c RLIMIT_CPU = (MaxCPUTime c, MaxCPUTime c)"

definition limits_of :: "'k kernel \<Rightarrow> UlimitConfig \<Rightarrow> 'k \<Rightarrow> 'k \<Rightarrow> bool" where
  "limits_of os c k k' \<longleftrightarrow> (\<forall>r. getrlimit os k' r = getrlimit os k r \<or>
     getrlimit os k' r = Inr (configured c r) \<and> (fst (configured c r) > 0 \<or> r \<in> {RLIMIT_CORE, RLIMIT_NOFILE}))"

lemma limits_of_refl: "limits_of os c k k"
  by (simp add: limits_of_def)

lemma try_limit_keeps:
  assumes "posix os" "limits_of os c k k'" "configured c r = (n, n)"
  shows "limits_of os c k (try_limit os r n k')"
  using posixD [OF assms(1), of r "(n, n)" k'] assms(2,3)
  by (cases "setrlimit os r (n, n) k'") (auto simp: limits_of_def try_limit_def setRlimit_def)

lemma try_limit_other:
  assumes "posix os" "r' \<noteq> r"
  shows "getrlimit os (try_limit os r n k) r' = getrlimit os k r'"
  using posixD [OF assms(1), of r "(n, n)" k] assms(2)
  by (cases "setrlimit os r (n, n) k") (auto simp: try_limit_def setRlimit_def)


text \<open>A kernel that refuses soft limits above hard ones.\<close>

definition sample_kernel :: "(rlimit \<Rightarrow> u64 \<times> u64) kernel" where
  "sample_kernel = \<lparr> setrlimit = \<lambda>r l k. if fst l > snd l then (Some (Errorf ''invalid argument''), k) else (None, k(r := l)),
     getrlimit = \<lambda>k r. Inr (k r) \<rparr>"


end
