(* ===== verification/AutoScaling.thy ===== *)
theory AutoScaling
  imports Instance
begin

text \<open>
  \<open>internal/server/autoscaling.go\<close>: the figures and recommendations for an autoscaler.  The two thresholds are read with
  \<open>strconv.ParseFloat\<close>, which is not modelled: they are arguments of \<open>getAutoScalingConfig\<close>.
\<close>

section \<open>Configuration\<close>

record AutoScalingConfig =
  as_Enabled :: bool
  as_MetricsPort :: int
  ScaleUpThreshold :: f64
  ScaleDownThreshold :: f64
  ConnectionsPerInstance :: int
  CPUTargetPercent :: int
  MemoryTargetPercent :: int

definition getEnvBool :: "environment \<Rightarrow> string \<Rightarrow> bool \<Rightarrow> bool" where
  "getEnvBool env key defaultValue = (if env key \<noteq> [] then (case ParseBool (env key) of Some b \<Rightarrow> b | None \<Rightarrow> defaultValue) else defaultValue)"

definition getEnvInt :: "environment \<Rightarrow> string \<Rightarrow> int \<Rightarrow> int" where
  "getEnvInt env key defaultValue = (if env key \<noteq> [] then (case Atoi (env key) of Some n \<Rightarrow> n | None \<Rightarrow> defaultValue) else defaultValue)"

definition getAutoScalingConfig :: "f64 \<Rightarrow> f64 \<Rightarrow> environment \<Rightarrow> AutoScalingConfig" where
  "getAutoScalingConfig up down env = \<lparr> as_Enabled = getEnvBool env ''AUTOSCALING_ENABLED'' False,
     as_MetricsPort = getEnvInt env ''AUTOSCALING_METRICS_PORT'' 9090, ScaleUpThreshold = up, ScaleDownThreshold = down,
     ConnectionsPerInstance = getEnvInt env ''AUTOSCALING_CONNECTIONS_PER_INSTANCE'' 80000,
     CPUTargetPercent = getEnvInt env ''AUTOSCALING_CPU_TARGET'' 70, MemoryTargetPercent = getEnvInt env ''AUTOSCALING_MEMORY_TARGET'' 80 \<rparr>"

text \<open>The port of the metrics server that \<open>initAutoScaling\<close> starts, if it starts one.\<close>

definition initAutoScaling :: "AutoScalingConfig \<Rightarrow> int option" where
  "initAutoScaling cfg = (if as_Enabled cfg then Some (as_MetricsPort cfg) else None)"

section \<open>Metrics\<close>

record AutoScalingMetrics =
  asm_InstanceID :: string
  asm_ActiveConnections :: int
  ConnectionUtilization :: f64
  CPUUtilization :: f64
  MemoryUtilization :: f64
  RequestRate :: f64
  ErrorRate :: f64
  RecommendedReplicas :: int
  ScaleAction :: string
  asm_Timestamp :: time

definition calculateRequestRate :: "time \<Rightarrow> identity \<Rightarrow> Server \<Rightarrow> f64" where
  "calculateRequestRate now i s = f64_div (f64_of_int (uint (totalConns s))) (duration_Seconds (time_sub now (startTime i)))"

definition calculateErrorRate :: "Server \<Rightarrow> f64" where
  "calculateErrorRate s =
    (let totalAuth = authSuccess s + authFailures s + authRateLimited s; errors = authFailures s + authRateLimited s in
     if totalAuth = 0 then Fin 0 else f64_div (f64_of_int (uint errors)) (f64_of_int (uint totalAuth)))"

definition calculateAutoScalingMetrics :: "AutoScalingConfig \<Rightarrow> InstanceMetrics \<Rightarrow> (nat \<Rightarrow> time) \<Rightarrow> identity \<Rightarrow> Server \<Rightarrow> AutoScalingMetrics" where
  "calculateAutoScalingMetrics cfg im now i s = \<lparr> asm_InstanceID = instanceID i, asm_ActiveConnections = activeConns s,
     ConnectionUtilization = f64_div (f64_of_int (activeConns s)) (f64_of_int (ConnectionsPerInstance cfg)), CPUUtilization = Fin 0,
     MemoryUtilization = f64_div (f64_of_int (uint (im_memory_alloc_mb im))) (Fin 1024),
     RequestRate = calculateRequestRate (now 0) i s, ErrorRate = calculateErrorRate s, RecommendedReplicas = 0, ScaleAction = [], asm_Timestamp = now 1 \<rparr>"

section \<open>Recommendation\<close>

definition f64_0_7 :: f64 where "f64_0_7 = Fin (6305039478318694 / 2 ^ 53)"

text \<open>The result depends on the processor when the quotient is not a number of the range of \<open>int\<close> (no connections per instance).\<close>

definition calculateTargetReplicas :: "AutoScalingMetrics \<Rightarrow> AutoScalingConfig \<Rightarrow> bool \<Rightarrow> int option" where
  "calculateTargetReplicas m cfg up = map_option (\<lambda>required. let required = max 1 required in if up then wrap64 (required + 1) else required)
     (f64_to_int (f64_div (f64_of_int (asm_ActiveConnections m)) (f64_mul (f64_of_int (ConnectionsPerInstance cfg)) f64_0_7)))"

datatype scale_action = Scale_up | Scale_down | No_action

record ScaleRecommendation =
  sr_instance_id :: string
  sr_timestamp :: time
  sr_metrics :: AutoScalingMetrics
  sr_action :: scale_action
  sr_replicas :: "int option"

fun scale_reason :: "scale_action \<Rightarrow> string" where
  "scale_reason Scale_up = ''connection_utilization_high''"
| "scale_reason Scale_down = ''connection_utilization_low''"
| "scale_reason No_action = ''utilization_within_target''"

definition calculateScaleRecommendation :: "time \<Rightarrow> identity \<Rightarrow> AutoScalingConfig \<Rightarrow> AutoScalingMetrics \<Rightarrow> ScaleRecommendation" where
  "calculateScaleRecommendation now i cfg m =
    (let r = \<lparr> sr_instance_id = instanceID i, sr_timestamp = now, sr_metrics = m, sr_action = No_action, sr_replicas = Some 1 \<rparr> in
     if f64_gt (ConnectionUtilization m) (ScaleUpThreshold cfg)
     then r\<lparr> sr_action := Scale_up, sr_replicas := calculateTargetReplicas m cfg True \<rparr>
     else if f64_lt (ConnectionUtilization m) (ScaleDownThreshold cfg)
     then r\<lparr> sr_action := Scale_down, sr_replicas := calculateTargetReplicas m cfg False \<rparr>
     else r)"

definition getServerStats :: "AutoScalingConfig \<Rightarrow> InstanceMetrics \<Rightarrow> (nat \<Rightarrow> time) \<Rightarrow> identity \<Rightarrow> Server
    \<Rightarrow> AutoScalingConfig \<times> AutoScalingMetrics \<times> ScaleRecommendation" where
  "getServerStats cfg im now i s =
    (let m = calculateAutoScalingMetrics cfg im now i s in (cfg, m, calculateScaleRecommendation (now 2) i cfg m))"

section \<open>Prometheus text\<close>

text \<open>\<open>%.2f\<close>: the exact value rounded to two decimals, ties to even.\<close>

fun fixed2 :: "f64 \<Rightarrow> string" where
  "fixed2 (Fin r) = (let n = nat (half_even (\<bar>r\<bar> * 100)) in
     (if r < 0 then ''-'' else []) @ show_nat (n div 100) @ ''.'' @ show_nat (n mod 100 div 10) @ show_nat (n mod 10))"
| "fixed2 PInf = ''+Inf''"
| "fixed2 NInf = ''-Inf''"
| "fixed2 NaN = ''NaN''"

definition prom_lines :: "string \<Rightarrow> string \<Rightarrow> string \<Rightarrow> string \<Rightarrow> string \<Rightarrow> string" where
  "prom_lines name help kind inst v = ''# HELP '' @ name @ '' '' @ help @ [CHR 0x0A] @ ''# TYPE '' @ name @ '' '' @ kind @ [CHR 0x0A] @
     name @ ''{instance_id='' @ [CHR 0x22] @ inst @ [CHR 0x22] @ ''} '' @ v @ [CHR 0x0A]"

definition handlePrometheusMetrics :: "InstanceMetrics \<Rightarrow> identity \<Rightarrow> Server \<Rightarrow> string" where
  "handlePrometheusMetrics im i s =
    prom_lines ''tick_storm_active_connections'' ''Current number of active connections'' ''gauge'' (instanceID i) (show_int (activeConns s)) @
    prom_lines ''tick_storm_total_connections'' ''Total number of connections handled'' ''counter'' (instanceID i) (show_nat (unat (totalConns s))) @
    prom_lines ''tick_storm_memory_usage_bytes'' ''Memory usage in bytes'' ''gauge'' (instanceID i) (show_int (sint (im_memory_alloc_mb im * 1024 * 1024))) @
    prom_lines ''tick_storm_goroutines'' ''Number of goroutines'' ''gauge'' (instanceID i) (show_int (im_goroutines im)) @
    prom_lines ''tick_storm_uptime_seconds'' ''Server uptime in seconds'' ''gauge'' (instanceID i) (fixed2 (im_uptime_seconds im))"

section \<open>Exact thresholds\<close>

text \<open>With the default threshold of 0.8 the recommendation is to scale up exactly above four fifths of the connections of an instance.\<close>

lemma scale_up_exact:
  assumes "ScaleUpThreshold cfg = f64_0_8" "0 < ConnectionsPerInstance cfg" "ConnectionsPerInstance cfg \<le> 2 ^ 31" "in_i32 (activeConns s)"
  shows "sr_action (calculateScaleRecommendation t i cfg (calculateAutoScalingMetrics cfg im now i s)) = Scale_up \<longleftrightarrow>
    4 * ConnectionsPerInstance cfg < 5 * activeConns s"
proof -
  have "\<bar>activeConns s\<bar> < 2 ^ 53" using assms(4) by (auto simp: in_i32_def)
  then show ?thesis using ratio_gt(2) [OF assms(2,3)]
    by (simp add: calculateScaleRecommendation_def calculateAutoScalingMetrics_def Let_def assms(1))
qed

end
