(* ===== verification/Spec2Isabelle.thy ===== *)
theory Spec2Isabelle
  imports Lifecycle NetMonitor VersionHandler Health Metrics Prometheus ObjectPools Constraints AutoScaling
begin

text \<open>
  A verification development of Tick-Storm, a TCP server that streams market data ticks to authenticated clients
  (Go, \<open>src/cmd\<close> and \<open>src/internal\<close>).

  \<^bold>\<open>The program.\<close>  \<open>cmd/server/main.go\<close> reads its configuration from the environment and starts the server of
  \<open>internal/server/server.go\<close>.  The accept loop takes connections, asks the address filter, the rate limit per host, the breach
  handler and the connection limit, and hands a connection to the worker pool, or to a goroutine of its own when the pool is full.
  There the first frame must be a login; \<open>internal/auth\<close> checks it against the configured credentials and limits attempts.  A
  handler then serves the client: it answers heartbeats, accepts one subscription, generates ticks, batches them and hands the
  frames to the write queue of the connection.  Frames are those of \<open>internal/protocol\<close>: a header, a protobuf payload and a CRC-32C.
  Around this stand resource and network monitors, health checks, metrics and version negotiation.

  \<^bold>\<open>How code is modelled.\<close>  A Go struct is a record, with a prefix where field names would clash; an enumeration is a datatype or the
  numbers of the wire.  A function keeps its name (with a prefix or suffix where several packages use it) and returns the
  changed state; an \<open>error\<close> result is a value of \<open>go_error\<close> in an option or a sum, and a function that can panic returns an \<open>outcome\<close>.
  Unsigned integers are words of their width, signed ones are integers with \<open>wrap32\<close> or \<open>wrap64\<close> at each operation; \<open>float64\<close> is \<open>f64\<close>, a
  rational rounded to binary64 after each operation, or an infinity or NaN.  A function that reads the clock several times takes
  the readings as \<open>now :: nat \<Rightarrow> time\<close>.  What the operating system, the Go runtime or a random source returns is an argument.  The
  protobuf library, which is not part of the sources, is the parameter \<open>protobuf\<close>; the formatting of floating point numbers is the
  parameter \<open>fmt_env\<close>.  Goroutines that share state are steps of an inductive relation, one step for each action that another
  goroutine can observe; critical sections under one mutex are one step.

  \<^bold>\<open>Go's own libraries\<close> are modelled as far as the code uses them: \<open>Prelude\<close> (integers, time), \<open>Float64\<close>, \<open>FloatArith\<close> and \<open>FloatRound\<close>
  (\<open>float64\<close>), \<open>GoErrors\<close> (errors and \<open>fmt\<close>), \<open>GoStrings\<close> (UTF-8, \<open>strings\<close>, \<open>unicode\<close>), \<open>GoRegexp\<close>, \<open>GoNet\<close> and \<open>GoIP\<close> (addresses and prefixes),
  \<open>GoConv\<close> (\<open>strconv\<close>, \<open>time.ParseDuration\<close>), \<open>Channel\<close> (buffered channels, against the interface \<open>fifo_queue\<close>), \<open>NetIO\<close> (\<open>net.Conn\<close> as a byte
  source and a byte sink, two interfaces that the framing layer is verified against) and \<open>Crc32c\<close> (against \<open>burst_checksum\<close>).
  \<open>Runs\<close> has the interfaces for runs of a component: \<open>machine\<close> and \<open>step_invariant\<close> carry an invariant along a run, \<open>budgeted\<close> bounds a count
  along a run; the components interpret them on their own step functions.

  \<^bold>\<open>Protocol.\<close>  \<open>Version\<close> is \<open>version.go\<close>; \<open>Frame\<close> is \<open>frame.go\<close>: \<open>Marshal\<close>, \<open>Unmarshal\<close>, \<open>ReadFrame\<close>, \<open>WriteFrame\<close>.  Frames that were written are read
  back from any segmentation of the bytes, \<open>ReadFrame\<close> and \<open>Unmarshal\<close> accept exactly the wire forms, damage within four bytes is
  always detected, and nothing panics below the limit at which the length computation wraps.  \<open>Messages\<close> has the protobuf messages and
  \<open>helpers.go\<close>; \<open>Validation\<close> is \<open>validation.go\<close>, each validator with the exact set of messages it accepts, and \<open>SanitizeString\<close> with its normal form.

  \<^bold>\<open>Authentication.\<close>  \<open>RateLimiter\<close> is \<open>ratelimiter.go\<close>: bounds on attempts in any window under any interleaving of operations, lockout and its
  end.  \<open>Auth\<close> is \<open>auth.go\<close>: exactly when a login succeeds, and how many guesses reach the credential check.

  \<^bold>\<open>A connection.\<close>  \<open>Connection\<close> is \<open>connection.go\<close>; \<open>WriteQueue\<close> interleaves its writers, write loop, \<open>Close\<close> and the network: order on the wire,
  exactness of the counter, the one possible panic, and what \<open>Close\<close> drops.  \<open>Handler\<close> is \<open>handler.go\<close>, \<open>Delivery\<close> is \<open>delivery_loop.go\<close> and the tick
  generator, \<open>Session\<close> interleaves all goroutines of a client, and \<open>SessionProps\<close> shows conservation of ticks, the mode of every batch, finality
  of the subscription, and two defects: the timer that no heartbeat stops and the flush race that loses ticks.  \<open>VersionHandler\<close> is
  \<open>version_handler.go\<close>.

  \<^bold>\<open>Protection.\<close>  \<open>IpFilter\<close> (\<open>ipfilter.go\<close>, \<open>utils.go\<close>) refines prefix lists; \<open>Ddos\<close> (\<open>ddos_protection.go\<close>) decides as the full history would; \<open>Resources\<close>
  (\<open>resource_monitor.go\<close>, \<open>resource_breach_handler.go\<close>) rejects exactly while a threshold was exceeded and not left; \<open>NetMonitor\<close>
  (\<open>network_monitor.go\<close>) sends only justified alerts; \<open>Tls\<close> (\<open>tls.go\<close>) builds only hardened listeners.

  \<^bold>\<open>The server.\<close>  \<open>Config\<close> and \<open>EnvConfig\<close> are the configuration and its environment variables, with a round trip.  \<open>WorkerPool\<close> is
  \<open>goroutine_pool.go\<close>: tasks are neither lost nor reordered under any interleaving.  \<open>Server\<close> puts everything together: \<open>srv_step\<close> is a
  step of the accept loop, of a client in \<open>handleConnection\<close>, of its session, of the pool or of a shutdown.  \<open>ServerInv\<close> and \<open>ServerTables\<close>
  hold the invariants, \<open>ServerProps\<close> the properties and a run in which a client logs in and is served.  \<open>Lifecycle\<close> adds
  \<open>createListener\<close>, \<open>main\<close> and the goroutine of \<open>Shutdown\<close> or \<open>Stop\<close> (\<open>life_step\<close>), and follows the environment to what clients meet.  \<open>Instance\<close>,
  \<open>Health\<close> and \<open>Metrics\<close> are \<open>instance.go\<close>, \<open>health.go\<close>, \<open>metrics.go\<close> and \<open>tls_metrics.go\<close>.  This theory follows a frame from the write queue to the
  reader at the other end.

  \<^bold>\<open>Bounds.\<close>  No model uses fuel: every function terminates, loops of goroutines are step relations of any length.  Numeric
  hypotheses keep counters below their wrap-around (a write queue below \<open>2 ^ 31\<close>, fewer than \<open>2 ^ 49\<close> events between two checks of the
  network monitor, sums of latencies below \<open>2 ^ 63\<close>) and each is met by the configured defaults or shown satisfiable by a witness.

  \<^bold>\<open>Around the server.\<close>  \<open>Prometheus\<close> (\<open>prometheus_metrics.go\<close>) shows that exporting metrics cannot bring the server down, with the client library as a
  parameter; \<open>ObjectPools\<close> (\<open>pool.go\<close>) that pooled objects carry nothing of their former use; \<open>Constraints\<close> (\<open>resource_constraints.go\<close>) that the limits applied
  are the configured ones, with the kernel as a parameter; \<open>AutoScaling\<close> is \<open>autoscaling.go\<close>.

  \<^bold>\<open>Not modelled.\<close>  Log output; socket options; HTTP servers and JSON encoding; the TLS handshake itself, which belongs to \<open>crypto/tls\<close>; the
  generated protobuf code; \<open>strconv.ParseFloat\<close>, which reads the two thresholds of the autoscaler; \<open>cmd/test-client\<close>, a manual test program; the
  signal wait and the final printing of \<open>main\<close>.
\<close>

section \<open>From the write queue to the client\<close>

text \<open>A frame that was written fits the size limit.\<close>

definition sized :: "wq \<Rightarrow> bool" where
  "sized s \<longleftrightarrow> (\<forall>f \<in> set (written s). length (Payload f) \<le> DefaultMaxMessageSize)"

lemma sized_step:
  assumes "sized s" "wq_step s s'"
  shows "sized s'"
  using assms(2)
proof cases
  case (write_one item now err go c)
  have "length (Payload (item_frame item)) \<le> DefaultMaxMessageSize" if "err = None"
    using write_one(4) that tcp_out.WriteFrame_ok
    by (auto simp: write_item_def Let_def SetWriteDeadline_def split: if_splits prod.splits)
  then show ?thesis using assms(1) write_one(1) by (auto simp: sized_def written_def)
qed (use assms(1) in \<open>auto simp: sized_def written_def\<close>)

interpretation sizes: step_invariant wq_step sized
  by unfold_locales (rule sized_step)

text \<open>
  C2: from the write queue to the client.  Whatever the interleaving of writers, write loop, \<open>Close\<close> and network failures, and however the
  transport cuts the bytes into pieces, the reader at the other end gets exactly the frames the loop wrote, a subsequence of those the
  queue accepted in their order; while the write loop runs there is nothing else on the wire.
\<close>

theorem client_reads_what_was_written:
  assumes "NewConnection now remote i out cfg = Ret c" "MaxWriteQueueSize cfg + int n + 2 < 2 ^ 31" "wq_step\<^sup>*\<^sup>* (wq_init n c) s"
    and "\<forall>f \<in> set (written s). Version f = ProtocolVersion"
    and "sent (fw_w (conn_writer (wq_conn s))) = wq_start s @ pending net"
  shows "subseq (written s) (wq_accepted s) \<and>
    (\<exists>r. read_frames ReadFull t (length (written s)) (NewFrameReader net 0) = (Some (map received (written s)), r) \<and>
      (wq_loop s \<noteq> LoopDone \<longrightarrow> pending (fr_r r) = []))"
proof -
  have inv: "wq_inv s" by (rule wqm.holds_reachable [OF assms(3) wq_inv_init [OF assms(1,2)]])
  have "sized (wq_init n c)" by (simp add: sized_def written_def wq_init_def)
  then have "sized s" by (rule sizes.holds_reachable [OF assms(3)])
  have sub: "subseq (written s) (wq_accepted s)"
    using inv subseq_rev_drop_many subseq_map [OF subseq_filter_left, of fst snd "wq_done s"] by (simp add: wq_inv_def wq_order_def written_def)
  then have "\<forall>f \<in> set (written s). sendable f"
    using \<open>sized s\<close> assms(4) by (auto simp: sized_def sendable_def)
  moreover obtain k f where "pending net = concat (map frame_wire (written s)) @ take k (frame_wire f)" "wq_loop s \<noteq> LoopDone \<longrightarrow> k = 0"
    using inv assms(5) by (auto simp: wq_inv_def wq_wire_def)
  ultimately show ?thesis
    using sub tcp_in.read_frames_wire [of "written s" "NewFrameReader net 0" "take k (frame_wire f)" t]
    by (auto simp: NewFrameReader_def frame_consts)
qed

theorem client_reads_what_was_written_witness:
  "\<exists>c s net r. sample_new = Ret c \<and> wq_step\<^sup>*\<^sup>* (wq_init 1 c) s \<and> sent (fw_w (conn_writer (wq_conn s))) = wq_start s @ pending net \<and>
     read_frames ReadFull 0 1 (NewFrameReader net 0) = (Some [new_frame 1 3 []], r)"
proof -
  obtain c s where s: "sample_new = Ret c" "wq_step\<^sup>*\<^sup>* (wq_init 1 c) s" "written s = [new_frame 1 3 []]"
    using sample_written by blast
  have q: "MaxWriteQueueSize DefaultConfig + int 1 + 2 < 2 ^ 31" by (simp add: DefaultConfig_def)
  have "wq_inv s" by (rule wqm.holds_reachable [OF s(2) wq_inv_init [OF s(1) [unfolded sample_new_def] q]])
  then obtain bytes where b: "sent (fw_w (conn_writer (wq_conn s))) = wq_start s @ bytes" by (auto simp: wq_inv_def wq_wire_def)
  let ?net = "\<lparr> segments = [bytes], read_end = E Io_EOF \<rparr>"
  have "received (new_frame 1 3 []) = new_frame 1 3 []" "Version (new_frame 1 3 []) = ProtocolVersion"
    by (simp_all add: received_def new_frame_def frame_consts)
  then obtain r where "read_frames ReadFull 0 1 (NewFrameReader ?net 0) = (Some [new_frame 1 3 []], r)"
    using client_reads_what_was_written [OF s(1) [unfolded sample_new_def] q s(2), of ?net 0] s(3) b by (auto simp: pending_def)
  then show ?thesis using s(1,2) b by (intro exI [of _ c] exI [of _ s] exI [of _ ?net] exI [of _ r]) (simp add: pending_def)
qed

end
